theory Spec2Isabelle
  imports Main
begin


section \<open>Strings and arrays as the gateway code uses them\<close>

text \<open>
  JavaScript strings are modelled as \<^typ>\<open>string\<close> (lists of 8-bit characters), arrays as
  lists. The helpers below are the library methods the source calls:
  \<^verbatim>\<open>Array.prototype.includes\<close>, \<^verbatim>\<open>String.prototype.startsWith\<close>,
  \<^verbatim>\<open>String.prototype.includes\<close>, \<^verbatim>\<open>split\<close> on a one-character separator and
  \<^verbatim>\<open>join\<close>.
\<close>

definition arr_includes :: "'a list \<Rightarrow> 'a \<Rightarrow> bool" where
  "arr_includes xs x = (x \<in> set xs)"

definition startsWith :: "string \<Rightarrow> string \<Rightarrow> bool" where
  "startsWith s p = (take (length p) s = p)"

fun str_includes :: "string \<Rightarrow> string \<Rightarrow> bool" where
  "str_includes [] p = (p = [])"
| "str_includes (c # cs) p = (startsWith (c # cs) p \<or> str_includes cs p)"

fun split_on :: "char \<Rightarrow> string \<Rightarrow> string list" where
  "split_on sep [] = [[]]"
| "split_on sep (c # cs) =
     (if c = sep then [] # split_on sep cs
      else (case split_on sep cs of
              [] \<Rightarrow> [[c]]
            | p # ps \<Rightarrow> (c # p) # ps))"

fun join_with :: "string \<Rightarrow> string list \<Rightarrow> string" where
  "join_with sep [] = []"
| "join_with sep [x] = x"
| "join_with sep (x # y # ys) = x @ sep @ join_with sep (y # ys)"


section \<open>The principal and the result of a middleware\<close>

text \<open>
  \<^verbatim>\<open>interface JWTPayload\<close> of the authentication middleware; the optional fields are
  options. \<open>token_type\<close> is the \<^verbatim>\<open>type\<close> claim that \<^verbatim>\<open>generateTokens\<close> writes into
  the payload (\<^verbatim>\<open>'access'\<close> or \<^verbatim>\<open>'refresh'\<close>).
\<close>

record JWTPayload =
  userId :: string
  email :: string
  role :: string
  buildingId :: "string option"
  apartmentId :: "string option"
  permissions :: "string list"
  iat :: int
  exp :: int
  token_type :: "string option"

text \<open>
  A middleware either answers the request itself (\<^verbatim>\<open>res.status(s).json({code: c})\<close>, and
  returns without calling \<^verbatim>\<open>next\<close>) or calls \<^verbatim>\<open>next()\<close>.
\<close>

datatype reply = Reply nat string | Next


section \<open>Authorization by permission\<close>

text \<open>
  \<^verbatim>\<open>requirePermission(permission)\<close> of the authentication middleware. \<open>user\<close> is
  \<^verbatim>\<open>req.user\<close>, absent when no principal is attached. The test is
  \<^verbatim>\<open>req.user.permissions.includes(permission)\<close>.
\<close>

definition requirePermission :: "string \<Rightarrow> JWTPayload option \<Rightarrow> reply" where
  "requirePermission permission user =
     (case user of
        None \<Rightarrow> Reply 401 ''NOT_AUTHENTICATED''
      | Some u \<Rightarrow>
          if \<not> arr_includes (permissions u) permission
          then Reply 403 ''MISSING_PERMISSION''
          else Next)"

text \<open>
  \<^verbatim>\<open>hasPermission(userPermissions, requiredPermission)\<close> of the authentication
  utilities: the exact string, then the loop
  \<^verbatim>\<open>for (let i = parts.length; i > 0; i--)\<close> over
  \<^verbatim>\<open>parts.slice(0, i).join(':') + ':*'\<close>, then \<^verbatim>\<open>'admin:*'\<close>.
\<close>

fun wildcard_loop :: "string list \<Rightarrow> string list \<Rightarrow> nat \<Rightarrow> bool" where
  "wildcard_loop userPermissions parts 0 = False"
| "wildcard_loop userPermissions parts (Suc i) =
     (if arr_includes userPermissions (join_with '':'' (take (Suc i) parts) @ '':*'')
      then True
      else wildcard_loop userPermissions parts i)"

definition hasPermission :: "string list \<Rightarrow> string \<Rightarrow> bool" where
  "hasPermission userPermissions requiredPermission =
     (if arr_includes userPermissions requiredPermission then True
      else let parts = split_on (CHR '':'') requiredPermission in
        if wildcard_loop userPermissions parts (length parts) then True
        else if arr_includes userPermissions ''admin:*'' then True
        else False)"

text \<open>
  \<^verbatim>\<open>getUserPermissions(role)\<close>: the fixed table from role to permission strings that
  \<^verbatim>\<open>generateTokens\<close> embeds in the access token.
\<close>

definition getUserPermissions :: "string \<Rightarrow> string list" where
  "getUserPermissions r =
     (if r = ''ADMIN'' then
        [''admin:*'', ''user:*'', ''building:*'', ''financial:*'', ''communication:*'',
         ''assembly:*'', ''marketplace:*'', ''professional:*'', ''security:*'']
      else if r = ''SINDICO'' then
        [''user:read'', ''user:update'', ''building:read'', ''building:update'',
         ''financial:*'', ''communication:*'', ''assembly:*'', ''marketplace:read'',
         ''professional:read'', ''security:read'']
      else if r = ''MORADOR'' then
        [''user:read:own'', ''user:update:own'', ''building:read'', ''financial:read:own'',
         ''financial:pay'', ''communication:read'', ''communication:send'', ''assembly:read'',
         ''assembly:vote'', ''marketplace:*'', ''professional:read'']
      else if r = ''PROFISSIONAL'' then
        [''user:read:own'', ''user:update:own'', ''professional:*'', ''communication:read'',
         ''communication:send'', ''marketplace:read'']
      else [])"

definition sindico :: JWTPayload where
  "sindico = \<lparr> userId = ''u1'', email = ''s@example.org'', role = ''SINDICO'',
     buildingId = Some ''b1'', apartmentId = None,
     permissions = getUserPermissions ''SINDICO'', iat = 0, exp = 86400,
     token_type = Some ''access'' \<rparr>"



section \<open>The key-value store\<close>

text \<open>
  The Redis client, as far as the gateway uses it. A key holds a value and an optional
  absolute expiry time in seconds; a key whose expiry has been reached is gone. Counters
  written by \<^verbatim>\<open>INCR\<close> are kept as \<open>Num\<close> (standing for their decimal string), other
  strings as \<open>Str\<close>, lists written by \<^verbatim>\<open>LPUSH\<close> as \<open>Lst\<close>.

  The world also carries the clock (\<open>now\<close>, in seconds), the logger's output, and the
  failures of the store: operation number \<open>n\<close> of a run throws when \<open>fails n\<close> holds, so
  every pattern of outages is a world.
\<close>

datatype rval = Str string | Num int | Lst "string list"

record entry =
  val :: rval
  expires :: "nat option"

datatype exn = StoreUnavailable | WrongType | InvalidExpire | TypeError

datatype level = Error | Warn | Info | Debug

record world =
  kv :: "string \<Rightarrow> entry option"
  now :: nat
  fails :: "nat \<Rightarrow> bool"
  ops :: nat
  log :: "(level \<times> string) list"
  xss_lastIndex :: "nat list"
  pt_lastIndex :: "nat list"

text \<open>A logger call appends its level and message; \<open>quoted\<close> puts a key between single
  quotes, as the message templates do.\<close>

definition quoted :: "string \<Rightarrow> string" where
  "quoted s = CHR 0x27 # s @ [CHR 0x27]"

definition logmsg :: "level \<Rightarrow> string \<Rightarrow> world \<Rightarrow> world" where
  "logmsg lvl msg w = w \<lparr> log := log w @ [(lvl, msg)] \<rparr>"

definition live :: "world \<Rightarrow> string \<Rightarrow> entry option" where
  "live w k =
     (case kv w k of
        None \<Rightarrow> None
      | Some e \<Rightarrow>
          (case expires e of
             None \<Rightarrow> Some e
           | Some t \<Rightarrow> if now w < t then Some e else None))"

definition tick :: "world \<Rightarrow> world" where
  "tick w = w \<lparr> ops := Suc (ops w) \<rparr>"

definition healthy :: "world \<Rightarrow> bool" where
  "healthy w = (\<forall>n. \<not> fails w n)"

text \<open>An empty store that answers every operation, at time 0.\<close>

definition world0 :: world where
  "world0 = \<lparr> kv = (\<lambda>k. None), now = 0, fails = (\<lambda>n. False), ops = 0, log = [],
     xss_lastIndex = [0, 0, 0, 0, 0, 0, 0, 0, 0, 0, 0, 0, 0],
     pt_lastIndex = [0, 0, 0, 0, 0, 0, 0, 0] \<rparr>"

text \<open>Decimal notation of a number, as \<^verbatim>\<open>String(n)\<close> and \<^verbatim>\<open>JSON.stringify\<close> print it.\<close>

definition digit_char :: "nat \<Rightarrow> char" where
  "digit_char d = char_of (48 + d)"

function show_nat :: "nat \<Rightarrow> string" where
  "show_nat n = (if n < 10 then [digit_char n] else show_nat (n div 10) @ [digit_char (n mod 10)])"
  by pat_completeness auto
termination
  by (relation "measure id") auto

declare show_nat.simps [simp del]

definition show_int :: "int \<Rightarrow> string" where
  "show_int i = (if i < 0 then CHR ''-'' # show_nat (nat (- i)) else show_nat (nat i))"

text \<open>\<^verbatim>\<open>GET key\<close>: the string, or \<^verbatim>\<open>null\<close> when the key is absent or expired.\<close>

definition redis_get :: "string \<Rightarrow> world \<Rightarrow> (exn + string option) \<times> world" where
  "redis_get k w =
     (if fails w (ops w) then (Inl StoreUnavailable, tick w)
      else (case live w k of
              None \<Rightarrow> (Inr None, tick w)
            | Some e \<Rightarrow>
                (case val e of
                   Str s \<Rightarrow> (Inr (Some s), tick w)
                 | Num n \<Rightarrow> (Inr (Some (show_int n)), tick w)
                 | Lst xs \<Rightarrow> (Inl WrongType, tick w))))"

text \<open>\<^verbatim>\<open>INCR key\<close>: a missing key counts from zero and gets no expiry; a live key keeps its
  expiry.\<close>

definition redis_incr :: "string \<Rightarrow> world \<Rightarrow> (exn + int) \<times> world" where
  "redis_incr k w =
     (if fails w (ops w) then (Inl StoreUnavailable, tick w)
      else (case live w k of
              None \<Rightarrow>
                (Inr 1, tick (w \<lparr> kv := (kv w)(k \<mapsto> \<lparr> val = Num 1, expires = None \<rparr>) \<rparr>))
            | Some e \<Rightarrow>
                (case val e of
                   Num n \<Rightarrow>
                     (Inr (n + 1), tick (w \<lparr> kv := (kv w)(k \<mapsto> e \<lparr> val := Num (n + 1) \<rparr>) \<rparr>))
                 | Str s \<Rightarrow> (Inl WrongType, tick w)
                 | Lst xs \<Rightarrow> (Inl WrongType, tick w))))"

text \<open>\<^verbatim>\<open>EXPIRE key seconds\<close>: sets the expiry of a live key, counted from now.\<close>

definition redis_expire :: "string \<Rightarrow> nat \<Rightarrow> world \<Rightarrow> (exn + bool) \<times> world" where
  "redis_expire k secs w =
     (if fails w (ops w) then (Inl StoreUnavailable, tick w)
      else (case live w k of
              None \<Rightarrow> (Inr False, tick w)
            | Some e \<Rightarrow>
                (Inr True, tick (w \<lparr> kv := (kv w)(k \<mapsto> e \<lparr> expires := Some (now w + secs) \<rparr>) \<rparr>))))"

text \<open>\<^verbatim>\<open>TTL key\<close>: \<open>-2\<close> for a missing key, \<open>-1\<close> for a key without expiry.\<close>

definition redis_ttl :: "string \<Rightarrow> world \<Rightarrow> (exn + int) \<times> world" where
  "redis_ttl k w =
     (if fails w (ops w) then (Inl StoreUnavailable, tick w)
      else (case live w k of
              None \<Rightarrow> (Inr (- 2), tick w)
            | Some e \<Rightarrow>
                (case expires e of
                   None \<Rightarrow> (Inr (- 1), tick w)
                 | Some t \<Rightarrow> (Inr (int t - int (now w)), tick w))))"

text \<open>\<^verbatim>\<open>SETEX key seconds value\<close>, the client's method \<^verbatim>\<open>setEx\<close>.\<close>

definition redis_setex :: "string \<Rightarrow> nat \<Rightarrow> string \<Rightarrow> world \<Rightarrow> (exn + unit) \<times> world" where
  "redis_setex k secs v w =
     (if fails w (ops w) then (Inl StoreUnavailable, tick w)
      else if secs = 0 then (Inl InvalidExpire, tick w)
      else (Inr (), tick (w \<lparr> kv := (kv w)(k \<mapsto> \<lparr> val = Str v, expires = Some (now w + secs) \<rparr>) \<rparr>)))"

text \<open>\<^verbatim>\<open>LPUSH key value\<close>, the client's method \<^verbatim>\<open>lPush\<close>: prepends to the list at the key,
  creating it when missing.\<close>

definition redis_lpush :: "string \<Rightarrow> string \<Rightarrow> world \<Rightarrow> (exn + int) \<times> world" where
  "redis_lpush k v w =
     (if fails w (ops w) then (Inl StoreUnavailable, tick w)
      else (case live w k of
              None \<Rightarrow>
                (Inr 1, tick (w \<lparr> kv := (kv w)(k \<mapsto> \<lparr> val = Lst [v], expires = None \<rparr>) \<rparr>))
            | Some e \<Rightarrow>
                (case val e of
                   Lst xs \<Rightarrow>
                     (Inr (int (length xs) + 1),
                      tick (w \<lparr> kv := (kv w)(k \<mapsto> e \<lparr> val := Lst (v # xs) \<rparr>) \<rparr>))
                 | Str s \<Rightarrow> (Inl WrongType, tick w)
                 | Num n \<Rightarrow> (Inl WrongType, tick w))))"

text \<open>
  The client is made by \<^verbatim>\<open>createClient\<close> of the package \<^verbatim>\<open>redis\<close>, whose commands of
  several words are methods in camel case: \<^verbatim>\<open>setEx\<close>, which the Redis utilities call in
  \<^verbatim>\<open>addToBlacklist\<close>. The client has no property \<^verbatim>\<open>setex\<close>, so the call
  \<^verbatim>\<open>redisClient.setex(key, seconds, value)\<close> throws a \<^verbatim>\<open>TypeError\<close> (not a function)
  before anything is sent to the store.
\<close>

definition redisClient_setex :: "string \<Rightarrow> nat \<Rightarrow> string \<Rightarrow> world \<Rightarrow> (exn + unit) \<times> world" where
  "redisClient_setex k secs v w = (Inl TypeError, w)"

text \<open>JavaScript truthiness of what \<^verbatim>\<open>GET\<close> returns: \<^verbatim>\<open>null\<close> and the empty string are
  falsy.\<close>

definition truthy :: "string option \<Rightarrow> bool" where
  "truthy v = (case v of None \<Rightarrow> False | Some s \<Rightarrow> s \<noteq> [])"


section \<open>Rate limiting\<close>

text \<open>
  \<^verbatim>\<open>incrementRateLimit(key, windowSeconds)\<close> of the Redis utilities: the expiry is set
  when the incremented count is 1; a failure is logged and thrown again.
\<close>

definition incrementRateLimit :: "string \<Rightarrow> nat \<Rightarrow> world \<Rightarrow> (exn + int) \<times> world" where
  "incrementRateLimit key windowSeconds w =
     (case redis_incr key w of
        (Inl e, w1) \<Rightarrow> (Inl e, logmsg Error (''Rate Limit: Erro ao incrementar '' @ quoted key) w1)
      | (Inr current, w1) \<Rightarrow>
          if current = 1 then
            (case redis_expire key windowSeconds w1 of
               (Inl e, w2) \<Rightarrow>
                 (Inl e, logmsg Error (''Rate Limit: Erro ao incrementar '' @ quoted key) w2)
             | (Inr b, w2) \<Rightarrow> (Inr current, w2))
          else (Inr current, w1))"

record rate_result =
  allowed :: bool
  remaining :: int
  resetTime :: int

text \<open>
  \<^verbatim>\<open>checkRateLimit(key, limit, windowSeconds)\<close>. \<^verbatim>\<open>Date.now()\<close> is the clock in
  milliseconds. The \<^verbatim>\<open>catch\<close> branch logs and answers that the request is allowed.
\<close>

definition checkRateLimit :: "string \<Rightarrow> int \<Rightarrow> nat \<Rightarrow> world \<Rightarrow> rate_result \<times> world" where
  "checkRateLimit key limit windowSeconds w =
     (case incrementRateLimit key windowSeconds w of
        (Inl e, w1) \<Rightarrow>
          (\<lparr> allowed = True, remaining = limit,
             resetTime = int (now w1) * 1000 + int windowSeconds * 1000 \<rparr>,
           logmsg Error (''Rate Limit: Erro ao verificar '' @ quoted key) w1)
      | (Inr current, w1) \<Rightarrow>
          (case redis_ttl key w1 of
             (Inl e, w2) \<Rightarrow>
               (\<lparr> allowed = True, remaining = limit,
                  resetTime = int (now w2) * 1000 + int windowSeconds * 1000 \<rparr>,
                logmsg Error (''Rate Limit: Erro ao verificar '' @ quoted key) w2)
           | (Inr ttl, w2) \<Rightarrow>
               (\<lparr> allowed = (current \<le> limit), remaining = max 0 (limit - current),
                  resetTime = int (now w2) * 1000 + ttl * 1000 \<rparr>, w2)))"

text \<open>A run of calls for one key, the \<open>j\<close>-th made when the clock shows \<open>ts ! j\<close>.\<close>

fun calls :: "string \<Rightarrow> int \<Rightarrow> nat \<Rightarrow> nat list \<Rightarrow> world \<Rightarrow> rate_result list \<times> world" where
  "calls key limit windowSeconds [] w = ([], w)"
| "calls key limit windowSeconds (t # ts) w =
     (case checkRateLimit key limit windowSeconds (w \<lparr> now := t \<rparr>) of
        (r, w1) \<Rightarrow>
          (case calls key limit windowSeconds ts w1 of
             (rs, w2) \<Rightarrow> (r # rs, w2)))"

section \<open>The blacklist functions of the Redis utilities\<close>

text \<open>
  \<^verbatim>\<open>addToBlacklist(type, value, reason, ttlSeconds)\<close>, which writes the key
  \<^verbatim>\<open>blacklist:<type>:<value>\<close> with \<^verbatim>\<open>setEx\<close>. An exception of the store goes to the
  caller.
\<close>

definition addToBlacklist :: "string \<Rightarrow> string \<Rightarrow> string \<Rightarrow> nat \<Rightarrow> world \<Rightarrow> (exn + unit) \<times> world" where
  "addToBlacklist type value reason ttlSeconds w =
     (let key = ''blacklist:'' @ type @ '':'' @ value in
      case redis_setex key ttlSeconds reason w of
        (Inl e, w1) \<Rightarrow> (Inl e, w1)
      | (Inr u, w1) \<Rightarrow>
          (Inr (),
           logmsg Warn (''Blacklist: '' @ type @ '' '' @ quoted value @ '' adicionado por '' @ reason)
             w1))"


section \<open>Tokens\<close>

text \<open>
  The \<^verbatim>\<open>jsonwebtoken\<close> library is outside the repository. Its \<^verbatim>\<open>verify(token, secret,
  options)\<close> is a parameter of the model: it returns the decoded payload or throws one of
  the library's three errors. \<open>options\<close> is the pair of issuer and audience, when given.
\<close>

datatype jwt_error = JsonWebTokenError | TokenExpiredError | NotBeforeError

type_synonym jwt_lib = "string \<Rightarrow> string \<Rightarrow> (string \<times> string) option \<Rightarrow> jwt_error + JWTPayload"

text \<open>What a \<^verbatim>\<open>try\<close> block of the gateway can catch.\<close>

datatype thrown = Jwt jwt_error | Store exn | PlainError string

text \<open>
  \<^verbatim>\<open>error instanceof jwt.JsonWebTokenError\<close> and \<^verbatim>\<open>error instanceof
  jwt.TokenExpiredError\<close>. In the library \<^verbatim>\<open>TokenExpiredError\<close> and \<^verbatim>\<open>NotBeforeError\<close>
  are derived from \<^verbatim>\<open>JsonWebTokenError\<close>.
\<close>

fun instanceof_JsonWebTokenError :: "thrown \<Rightarrow> bool" where
  "instanceof_JsonWebTokenError (Jwt e) = True"
| "instanceof_JsonWebTokenError (Store e) = False"
| "instanceof_JsonWebTokenError (PlainError m) = False"

fun instanceof_TokenExpiredError :: "thrown \<Rightarrow> bool" where
  "instanceof_TokenExpiredError (Jwt e) = (e = TokenExpiredError)"
| "instanceof_TokenExpiredError (Store e) = False"
| "instanceof_TokenExpiredError (PlainError m) = False"

text \<open>
  \<^verbatim>\<open>verifyAccessToken(token)\<close> and \<^verbatim>\<open>verifyRefreshToken(token)\<close> of the authentication
  utilities, of type \<^verbatim>\<open>TokenPayload | null\<close>: the \<^verbatim>\<open>catch\<close> branch logs a warning and
  returns \<^verbatim>\<open>null\<close>. (The messages are written without their accents.)
\<close>

definition token_options :: "(string \<times> string) option" where
  "token_options = Some (''vizinho-virtual'', ''vizinho-virtual-app'')"

definition verifyAccessToken :: "jwt_lib \<Rightarrow> string \<Rightarrow> string \<Rightarrow> world \<Rightarrow> JWTPayload option \<times> world" where
  "verifyAccessToken verify JWT_SECRET token w =
     (case verify token JWT_SECRET token_options of
        Inl e \<Rightarrow> (None, logmsg Warn ''Token de acesso invalido:'' w)
      | Inr decoded \<Rightarrow>
          if token_type decoded \<noteq> Some ''access''
          then (None, logmsg Warn ''Token de acesso invalido:'' w)
          else (Some decoded, w))"

definition verifyRefreshToken ::
  "jwt_lib \<Rightarrow> string \<Rightarrow> string \<Rightarrow> world \<Rightarrow> (string \<times> string) option \<times> world" where
  "verifyRefreshToken verify JWT_REFRESH_SECRET token w =
     (case verify token JWT_REFRESH_SECRET token_options of
        Inl e \<Rightarrow> (None, logmsg Warn ''Token de refresh invalido:'' w)
      | Inr decoded \<Rightarrow>
          if token_type decoded \<noteq> Some ''refresh''
          then (None, logmsg Warn ''Token de refresh invalido:'' w)
          else (Some (userId decoded, email decoded), w))"

text \<open>
  \<^verbatim>\<open>isTokenBlacklisted(token)\<close> of the authentication utilities. The class
  \<^verbatim>\<open>RedisService\<close> it calls is not among the sources, so its method
  \<^verbatim>\<open>isTokenBlacklisted\<close> is the parameter \<open>svc\<close>, which may throw.
\<close>

definition isTokenBlacklisted ::
  "(string \<Rightarrow> world \<Rightarrow> (exn + bool) \<times> world) \<Rightarrow> string \<Rightarrow> world \<Rightarrow> bool \<times> world" where
  "isTokenBlacklisted svc token w =
     (case svc token w of
        (Inl e, w1) \<Rightarrow> (False, logmsg Error ''Erro ao verificar blacklist:'' w1)
      | (Inr b, w1) \<Rightarrow> (b, w1))"

text \<open>A service method that reads a key of the store, for concrete runs.\<close>

definition get_service :: "string \<Rightarrow> string \<Rightarrow> world \<Rightarrow> (exn + bool) \<times> world" where
  "get_service prefix token w =
     (case redis_get (prefix @ token) w of
        (Inl e, w1) \<Rightarrow> (Inl e, w1)
      | (Inr v, w1) \<Rightarrow> (Inr (truthy v), w1))"


section \<open>The authentication middleware\<close>

text \<open>
  \<^verbatim>\<open>authMiddleware(req, res, next)\<close>. The request enters as its \<^verbatim>\<open>Authorization\<close>
  header. The result is the reply, the principal attached to \<^verbatim>\<open>req.user\<close>, and the
  calls made to the store and to the token library, in order.
\<close>

datatype auth_event = BlacklistGet string | JwtVerify string | ActiveGet string

record auth_result =
  reply :: reply
  req_user :: "JWTPayload option"
  events :: "auth_event list"

text \<open>The \<^verbatim>\<open>catch\<close> block: the two \<^verbatim>\<open>instanceof\<close> tests in the order of the source.\<close>

definition auth_catch :: "thrown \<Rightarrow> auth_event list \<Rightarrow> world \<Rightarrow> auth_result \<times> world" where
  "auth_catch error evs w =
     (if instanceof_JsonWebTokenError error then
        (\<lparr> reply = Reply 401 ''INVALID_TOKEN'', req_user = None, events = evs \<rparr>, w)
      else if instanceof_TokenExpiredError error then
        (\<lparr> reply = Reply 401 ''TOKEN_EXPIRED'', req_user = None, events = evs \<rparr>, w)
      else
        (\<lparr> reply = Reply 500 ''INTERNAL_ERROR'', req_user = None, events = evs \<rparr>,
         logmsg Error ''Erro na autenticacao:'' w))"



text \<open>
  For concrete runs: a token library that finds the token \<^verbatim>\<open>expired\<close> expired, the token
  \<^verbatim>\<open>forged\<close> wrongly signed, and accepts every other token as the sindico's access token;
  a store in which the token \<^verbatim>\<open>good\<close> has been revoked; and a store that knows the
  sindico as active.
\<close>

definition sample_lib :: jwt_lib where
  "sample_lib token secret opts =
     (if token = ''expired'' then Inl TokenExpiredError
      else if token = ''forged'' then Inl JsonWebTokenError
      else Inr sindico)"






section \<open>Regular expressions\<close>

text \<open>
  The fragment of JavaScript regular expressions that the detectors use, with a
  backtracking matcher. \<open>ms ci r s\<close> lists, in the order in which backtracking tries them,
  the rests of \<open>s\<close> that remain after \<open>r\<close> has matched a prefix of \<open>s\<close>; \<open>ci\<close> is the flag
  \<^verbatim>\<open>i\<close>. An iteration of a star that consumes nothing is given up, as in the language.
  Capture groups do not influence what matches and are left out. Characters are 8 bits
  wide; the pattern characters are all ASCII, and case folding is that of ASCII letters.
\<close>

datatype cls =
    Lit char      \<comment> \<open>the character itself\<close>
  | Dot           \<comment> \<open>\<^verbatim>\<open>.\<close>: any character but a line terminator\<close>
  | NotLit char   \<comment> \<open>\<^verbatim>\<open>[^c]\<close>\<close>
  | WordC         \<comment> \<open>\<^verbatim>\<open>\w\<close>\<close>
  | SpaceC        \<comment> \<open>\<^verbatim>\<open>\s\<close>\<close>
  | NotAZ         \<comment> \<open>\<^verbatim>\<open>[^a-z]\<close>\<close>

datatype re = Eps | Atom cls | Seq re re | Alt re re | Star re | LazyStar re

definition code :: "char \<Rightarrow> nat" where
  "code c = of_char c"

definition is_lower :: "char \<Rightarrow> bool" where
  "is_lower c = (97 \<le> code c \<and> code c \<le> 122)"

definition is_upper :: "char \<Rightarrow> bool" where
  "is_upper c = (65 \<le> code c \<and> code c \<le> 90)"

definition is_digit :: "char \<Rightarrow> bool" where
  "is_digit c = (48 \<le> code c \<and> code c \<le> 57)"

definition toUpper :: "char \<Rightarrow> char" where
  "toUpper c = (if is_lower c then char_of (code c - 32) else c)"

definition toLower :: "char \<Rightarrow> char" where
  "toLower c = (if is_upper c then char_of (code c + 32) else c)"

definition is_word :: "char \<Rightarrow> bool" where
  "is_word c = (is_lower c \<or> is_upper c \<or> is_digit c \<or> c = CHR ''_'')"

definition is_space :: "char \<Rightarrow> bool" where
  "is_space c = (code c \<in> {9, 10, 11, 12, 13, 32, 160})"

definition same_char :: "bool \<Rightarrow> char \<Rightarrow> char \<Rightarrow> bool" where
  "same_char ci c x = (if ci then toUpper x = toUpper c else x = c)"

fun cls_match :: "bool \<Rightarrow> cls \<Rightarrow> char \<Rightarrow> bool" where
  "cls_match ci (Lit c) x = same_char ci c x"
| "cls_match ci Dot x = (x \<noteq> CHR 0x0A \<and> x \<noteq> CHR 0x0D)"
| "cls_match ci (NotLit c) x = (\<not> same_char ci c x)"
| "cls_match ci WordC x = is_word x"
| "cls_match ci SpaceC x = is_space x"
| "cls_match ci NotAZ x = (\<not> (is_lower x \<or> (ci \<and> is_upper x)))"

function ms :: "bool \<Rightarrow> re \<Rightarrow> string \<Rightarrow> string list" where
  "ms ci Eps s = [s]"
| "ms ci (Atom c) [] = []"
| "ms ci (Atom c) (x # xs) = (if cls_match ci c x then [xs] else [])"
| "ms ci (Seq a b) s = concat (map (ms ci b) (ms ci a s))"
| "ms ci (Alt a b) s = ms ci a s @ ms ci b s"
| "ms ci (Star r) s =
     concat (map (\<lambda>s'. if length s' < length s then ms ci (Star r) s' else []) (ms ci r s))
     @ [s]"
| "ms ci (LazyStar r) s =
     s # concat (map (\<lambda>s'. if length s' < length s then ms ci (LazyStar r) s' else [])
                   (ms ci r s))"
  by pat_completeness auto
termination
  by (relation "inv_image (less_than <*lex*> less_than) (\<lambda>(ci, r, s). (size r, length s))")
    auto

text \<open>
  \<open>search ci r s i\<close>: the first match of \<open>r\<close> in \<open>s\<close>, trying the start positions from
  left to right; \<open>s\<close> is the input from index \<open>i\<close> on, and the result is the index where
  the match ends.
\<close>

fun search :: "bool \<Rightarrow> re \<Rightarrow> string \<Rightarrow> nat \<Rightarrow> nat option" where
  "search ci r [] i = (case ms ci r [] of [] \<Rightarrow> None | rest # others \<Rightarrow> Some i)"
| "search ci r (x # xs) i =
     (case ms ci r (x # xs) of
        [] \<Rightarrow> search ci r xs (Suc i)
      | rest # others \<Rightarrow> Some (i + (length (x # xs) - length rest)))"

text \<open>
  A regular expression object with its flags \<^verbatim>\<open>g\<close> and \<^verbatim>\<open>i\<close>.
  \<open>regex_test rx lastIndex s\<close> is \<^verbatim>\<open>rx.test(s)\<close> for an object whose \<^verbatim>\<open>lastIndex\<close>
  property holds \<open>lastIndex\<close>; it returns the result and the new \<^verbatim>\<open>lastIndex\<close>. With the flag
  \<^verbatim>\<open>g\<close> the search starts at \<^verbatim>\<open>lastIndex\<close>, a match stores the index of its end there
  and a failure stores 0; without it \<^verbatim>\<open>lastIndex\<close> is neither read nor written.
\<close>

record regex =
  pattern :: re
  global :: bool
  ignoreCase :: bool

definition regex_test :: "regex \<Rightarrow> nat \<Rightarrow> string \<Rightarrow> bool \<times> nat" where
  "regex_test rx lastIndex s =
     (if global rx then
        (if length s < lastIndex then (False, 0)
         else (case search (ignoreCase rx) (pattern rx) (drop lastIndex s) lastIndex of
                 None \<Rightarrow> (False, 0)
               | Some e \<Rightarrow> (True, e)))
      else
        (case search (ignoreCase rx) (pattern rx) s 0 of
           None \<Rightarrow> (False, lastIndex)
         | Some e \<Rightarrow> (True, lastIndex)))"

text \<open>
  \<^verbatim>\<open>PATTERNS.some(pattern => pattern.test(input))\<close> over pattern objects that live as long
  as the module: the tests run in order until one succeeds, and each test that ran has
  updated its object's \<^verbatim>\<open>lastIndex\<close>. \<open>lis\<close> holds one \<^verbatim>\<open>lastIndex\<close> per pattern.
\<close>

fun some_test :: "regex list \<Rightarrow> nat list \<Rightarrow> string \<Rightarrow> bool \<times> nat list" where
  "some_test [] lis s = (False, lis)"
| "some_test (rx # rxs) [] s = (False, [])"
| "some_test (rx # rxs) (li # lis) s =
     (case regex_test rx li s of
        (True, li') \<Rightarrow> (True, li' # lis)
      | (False, li') \<Rightarrow>
          (case some_test rxs lis s of
             (b, lis') \<Rightarrow> (b, li' # lis')))"

text \<open>Building patterns: a literal string, alternatives, a sequence, one or more.\<close>

fun lit :: "string \<Rightarrow> re" where
  "lit [] = Eps"
| "lit [c] = Atom (Lit c)"
| "lit (c # d # cs) = Seq (Atom (Lit c)) (lit (d # cs))"

fun alts :: "re list \<Rightarrow> re" where
  "alts [] = Eps"
| "alts [r] = r"
| "alts (r # q # rs) = Alt r (alts (q # rs))"

fun seqs :: "re list \<Rightarrow> re" where
  "seqs [] = Eps"
| "seqs [r] = r"
| "seqs (r # q # rs) = Seq r (seqs (q # rs))"

definition Plus :: "re \<Rightarrow> re" where
  "Plus r = Seq r (Star r)"

definition rx_i :: "re \<Rightarrow> regex" where
  "rx_i r = \<lparr> pattern = r, global = False, ignoreCase = True \<rparr>"

definition rx_gi :: "re \<Rightarrow> regex" where
  "rx_gi r = \<lparr> pattern = r, global = True, ignoreCase = True \<rparr>"

definition rx_g :: "re \<Rightarrow> regex" where
  "rx_g r = \<lparr> pattern = r, global = True, ignoreCase = False \<rparr>"


section \<open>The attack-signature detectors\<close>

text \<open>\<^verbatim>\<open>SQL_INJECTION_PATTERNS\<close>, thirteen patterns with the flag \<^verbatim>\<open>i\<close>.\<close>

definition quote_alt :: re where
  "quote_alt = alts [lit ''%27'', lit [CHR 0x27]]"

definition SQL_INJECTION_PATTERNS :: "regex list" where
  "SQL_INJECTION_PATTERNS = map rx_i
    [ alts [lit ''%27'', lit [CHR 0x27], lit ''--'', lit ''%23'', lit ''#''],
      seqs [alts [lit ''%3D'', lit ''=''], Star (Atom (NotLit (CHR 0x0A))),
            alts [lit ''%27'', lit [CHR 0x27], lit ''--'', lit ''%3B'', lit '';'']],
      seqs [Star (Atom WordC), quote_alt, alts [lit ''%6F'', lit ''o'', lit ''%4F''],
            alts [lit ''%72'', lit ''r'', lit ''%52'']],
      seqs [quote_alt, lit ''union''],
      seqs [lit ''exec'', Plus (alts [Atom SpaceC, lit ''+'']), alts [lit ''s'', lit ''x''],
            lit ''p'', Plus (Atom WordC)],
      seqs [lit ''union'', Plus (alts [Atom NotAZ, Atom SpaceC]), lit ''select''],
      seqs [lit ''select'', Star (Atom Dot), lit ''from'', Star (Atom Dot), lit ''where''],
      seqs [lit ''insert'', Star (Atom Dot), lit ''into'', Star (Atom Dot), lit ''values''],
      seqs [lit ''delete'', Star (Atom Dot), lit ''from'', Star (Atom Dot), lit ''where''],
      seqs [lit ''update'', Star (Atom Dot), lit ''set'', Star (Atom Dot), lit ''where''],
      seqs [lit ''drop'', Star (Atom Dot), lit ''table''],
      seqs [lit ''create'', Star (Atom Dot), lit ''table''],
      seqs [lit ''alter'', Star (Atom Dot), lit ''table''] ]"

text \<open>\<^verbatim>\<open>detectSQLInjection(input)\<close>: no pattern has the flag \<^verbatim>\<open>g\<close>, so no state.\<close>

definition detectSQLInjection :: "string \<Rightarrow> bool" where
  "detectSQLInjection input = list_ex (\<lambda>rx. fst (regex_test rx 0 input)) SQL_INJECTION_PATTERNS"

text \<open>\<^verbatim>\<open>XSS_PATTERNS\<close>, thirteen patterns with the flags \<^verbatim>\<open>gi\<close>.\<close>

definition tag_pair :: "string \<Rightarrow> re" where
  "tag_pair name =
     seqs [lit (CHR ''<'' # name), Star (Atom (NotLit (CHR ''>''))), lit ''>'',
           LazyStar (Atom Dot), lit (''</'' @ name @ ''>'')]"

definition handler :: "string \<Rightarrow> re" where
  "handler name = seqs [lit name, Star (Atom SpaceC), lit ''='']"

definition XSS_PATTERNS :: "regex list" where
  "XSS_PATTERNS = map rx_gi
    [ tag_pair ''script'', tag_pair ''iframe'', tag_pair ''object'', tag_pair ''embed'',
      lit ''javascript:'', lit ''vbscript:'',
      handler ''onload'', handler ''onerror'', handler ''onclick'', handler ''onmouseover'',
      seqs [lit ''<img'', Star (Atom (NotLit (CHR ''>''))), lit ''src'',
            Star (Atom (NotLit (CHR ''>''))), lit ''>''],
      seqs [lit ''eval'', Star (Atom SpaceC), lit ''(''],
      seqs [lit ''expression'', Star (Atom SpaceC), lit ''(''] ]"

text \<open>\<^verbatim>\<open>detectXSS(input)\<close>, on the current \<^verbatim>\<open>lastIndex\<close> values of the thirteen objects.\<close>

definition detectXSS :: "string \<Rightarrow> nat list \<Rightarrow> bool \<times> nat list" where
  "detectXSS input lis = some_test XSS_PATTERNS lis input"

text \<open>
  \<^verbatim>\<open>PATH_TRAVERSAL_PATTERNS\<close>: the first two patterns have the flag \<^verbatim>\<open>g\<close>, the other six
  \<^verbatim>\<open>gi\<close>. The second literal of the source, \<^verbatim>\<open>/\.\.\\g\<close>, lacks its closing slash; it is
  read as \<^verbatim>\<open>/\.\.\\/g\<close>, two dots and a backslash, like the last pattern of the list.
\<close>

definition PATH_TRAVERSAL_PATTERNS :: "regex list" where
  "PATH_TRAVERSAL_PATTERNS =
    [ rx_g (lit ''../''),
      rx_g (lit [CHR ''.'', CHR ''.'', CHR 0x5C]),
      rx_gi (lit ''%2e%2e%2f''),
      rx_gi (lit ''%2e%2e%5c''),
      rx_gi (lit ''..%2f''),
      rx_gi (lit ''..%5c''),
      rx_gi (lit ''%2e%2e/''),
      rx_gi (lit [CHR ''%'', CHR ''2'', CHR ''e'', CHR ''%'', CHR ''2'', CHR ''e'', CHR 0x5C]) ]"

definition detectPathTraversal :: "string \<Rightarrow> nat list \<Rightarrow> bool \<times> nat list" where
  "detectPathTraversal input lis = some_test PATH_TRAVERSAL_PATTERNS lis input"



section \<open>Request data\<close>

text \<open>
  The values that \<^verbatim>\<open>express.json\<close> and the query parser put into \<^verbatim>\<open>req.body\<close>,
  \<^verbatim>\<open>req.query\<close> and \<^verbatim>\<open>req.params\<close>. An object is the list of its own properties in
  enumeration order; what the parsers build has the prototype \<^verbatim>\<open>Object.prototype\<close>, which
  has no enumerable property. A number is held as the text that \<^verbatim>\<open>String\<close> gives for it
  (\<^verbatim>\<open>7\<close>, \<^verbatim>\<open>0.5\<close>, \<^verbatim>\<open>1e+21\<close>), which is what \<^verbatim>\<open>JSON.stringify\<close> prints; the parsers
  yield neither \<^verbatim>\<open>NaN\<close> nor an infinity.
\<close>

datatype json =
    JNull
  | JBool bool
  | JNum string
  | JStr string
  | JArr "json list"
  | JObj "(string \<times> json) list"

text \<open>\<^verbatim>\<open>JSON.stringify\<close>: strings between double quotes with the escapes of the language,
  no white space between tokens.\<close>

definition hex_digit :: "nat \<Rightarrow> char" where
  "hex_digit d = (if d < 10 then char_of (48 + d) else char_of (87 + d))"

definition json_escape :: "char \<Rightarrow> string" where
  "json_escape c =
     (if c = CHR 0x22 then [CHR 0x5C, CHR 0x22]
      else if c = CHR 0x5C then [CHR 0x5C, CHR 0x5C]
      else if c = CHR 0x08 then [CHR 0x5C, CHR ''b'']
      else if c = CHR 0x0C then [CHR 0x5C, CHR ''f'']
      else if c = CHR 0x0A then [CHR 0x5C, CHR ''n'']
      else if c = CHR 0x0D then [CHR 0x5C, CHR ''r'']
      else if c = CHR 0x09 then [CHR 0x5C, CHR ''t'']
      else if code c < 32 then
        [CHR 0x5C, CHR ''u'', CHR ''0'', CHR ''0'', hex_digit (code c div 16),
         hex_digit (code c mod 16)]
      else [c])"

definition json_quote :: "string \<Rightarrow> string" where
  "json_quote s = CHR 0x22 # concat (map json_escape s) @ [CHR 0x22]"

fun stringify :: "json \<Rightarrow> string" where
  "stringify JNull = ''null''"
| "stringify (JBool b) = (if b then ''true'' else ''false'')"
| "stringify (JNum n) = n"
| "stringify (JStr s) = json_quote s"
| "stringify (JArr vs) = ''['' @ join_with '','' (map stringify vs) @ '']''"
| "stringify (JObj ps) =
     ''{'' @ join_with '','' (map (\<lambda>(k, v). json_quote k @ '':'' @ stringify v) ps) @ ''}''"

text \<open>
  The sanitizer of the security middleware, on strings. \<open>strip_ci p s\<close> is
  \<^verbatim>\<open>s.replace(/p/gi, '')\<close> for a literal \<open>p\<close>: one pass from the left that drops each
  occurrence it meets; \<open>trim\<close> is \<^verbatim>\<open>String.prototype.trim\<close>.
\<close>

definition starts_ci :: "string \<Rightarrow> string \<Rightarrow> bool" where
  "starts_ci s p = (map toUpper (take (length p) s) = map toUpper p)"

function strip_ci :: "string \<Rightarrow> string \<Rightarrow> string" where
  "strip_ci p [] = []"
| "strip_ci p (c # cs) =
     (if p \<noteq> [] \<and> starts_ci (c # cs) p
      then strip_ci p (drop (length p - 1) cs)
      else c # strip_ci p cs)"
  by pat_completeness auto
termination
  by (relation "measure (\<lambda>(p, s). length s)") auto

definition trim :: "string \<Rightarrow> string" where
  "trim s = rev (dropWhile is_space (rev (dropWhile is_space s)))"

definition sanitizeString :: "string \<Rightarrow> string" where
  "sanitizeString s =
     trim (strip_ci ''vbscript:'' (strip_ci ''javascript:''
       (filter (\<lambda>c. c \<noteq> CHR ''<'' \<and> c \<noteq> CHR ''>'') s)))"

text \<open>
  \<^verbatim>\<open>sanitizeObject\<close>. For an object it fills a new object \<^verbatim>\<open>{}\<close> by the assignments
  \<^verbatim>\<open>sanitized[key] = sanitizeObject(obj[key])\<close>, one for each key of the argument. For the
  key \<^verbatim>\<open>__proto__\<close>, which \<^verbatim>\<open>JSON.parse\<close> makes an own property like any other, this
  assignment creates no property: it runs the setter that the new object inherits from
  \<^verbatim>\<open>Object.prototype\<close>, which does nothing when the value is a string, a number or a
  boolean, and makes the value the prototype of the new object when it is an object, an
  array or \<^verbatim>\<open>null\<close>. So the result has no own property of that name. (The prototype of the
  result is not part of the value here, which holds own properties.)
\<close>

fun sanitizeObject :: "json \<Rightarrow> json" where
  "sanitizeObject (JStr s) = JStr (sanitizeString s)"
| "sanitizeObject (JArr vs) = JArr (map sanitizeObject vs)"
| "sanitizeObject (JObj ps) =
     JObj (map (\<lambda>(k, v). (k, sanitizeObject v)) (filter (\<lambda>(k, v). k \<noteq> ''__proto__'') ps))"
| "sanitizeObject JNull = JNull"
| "sanitizeObject (JBool b) = JBool b"
| "sanitizeObject (JNum n) = JNum n"

text \<open>The string values inside a value; the value with every string value blanked, which is
  what is left of it when the contents of its strings are disregarded; and the values in
  which no object has a property \<^verbatim>\<open>__proto__\<close>.\<close>

fun strings_of :: "json \<Rightarrow> string list" where
  "strings_of (JStr s) = [s]"
| "strings_of (JArr vs) = concat (map strings_of vs)"
| "strings_of (JObj ps) = concat (map (\<lambda>(k, v). strings_of v) ps)"
| "strings_of JNull = []"
| "strings_of (JBool b) = []"
| "strings_of (JNum n) = []"

fun blank_strings :: "json \<Rightarrow> json" where
  "blank_strings (JStr s) = JStr []"
| "blank_strings (JArr vs) = JArr (map blank_strings vs)"
| "blank_strings (JObj ps) = JObj (map (\<lambda>(k, v). (k, blank_strings v)) ps)"
| "blank_strings JNull = JNull"
| "blank_strings (JBool b) = JBool b"
| "blank_strings (JNum n) = JNum n"

fun proto_free :: "json \<Rightarrow> bool" where
  "proto_free (JArr vs) = list_all proto_free vs"
| "proto_free (JObj ps) = list_all (\<lambda>(k, v). k \<noteq> ''__proto__'' \<and> proto_free v) ps"
| "proto_free (JStr s) = True"
| "proto_free JNull = True"
| "proto_free (JBool b) = True"
| "proto_free (JNum n) = True"

text \<open>
  \<^verbatim>\<open>parseInt(s)\<close>: leading white space, a sign, then hexadecimal digits after
  \<^verbatim>\<open>0x\<close> or decimal digits, up to the first other character; \<open>None\<close> is \<^verbatim>\<open>NaN\<close>.
\<close>

definition hex_val :: "char \<Rightarrow> nat option" where
  "hex_val c =
     (if is_digit c then Some (code c - 48)
      else if 97 \<le> code c \<and> code c \<le> 102 then Some (code c - 87)
      else if 65 \<le> code c \<and> code c \<le> 70 then Some (code c - 55)
      else None)"

definition digit_val :: "nat \<Rightarrow> char \<Rightarrow> nat option" where
  "digit_val radix c =
     (case hex_val c of
        None \<Rightarrow> None
      | Some d \<Rightarrow> if d < radix then Some d else None)"

fun digits_value :: "nat \<Rightarrow> string \<Rightarrow> nat \<Rightarrow> nat" where
  "digits_value radix [] acc = acc"
| "digits_value radix (c # cs) acc =
     (case digit_val radix c of
        None \<Rightarrow> acc
      | Some d \<Rightarrow> digits_value radix cs (acc * radix + d))"

definition parse_digits :: "nat \<Rightarrow> string \<Rightarrow> nat option" where
  "parse_digits radix s =
     (case s of
        [] \<Rightarrow> None
      | c # cs \<Rightarrow> if digit_val radix c = None then None else Some (digits_value radix s 0))"

definition parse_unsigned :: "string \<Rightarrow> nat option" where
  "parse_unsigned s =
     (if take 2 s = ''0x'' \<or> take 2 s = ''0X'' then parse_digits 16 (drop 2 s)
      else parse_digits 10 s)"

definition parseInt :: "string \<Rightarrow> int option" where
  "parseInt s =
     (case dropWhile is_space s of
        [] \<Rightarrow> None
      | c # cs \<Rightarrow>
          if c = CHR ''-'' then map_option (\<lambda>n. - int n) (parse_unsigned cs)
          else if c = CHR ''+'' then map_option int (parse_unsigned cs)
          else map_option int (parse_unsigned (c # cs)))"


section \<open>The security middleware\<close>

text \<open>
  The request as the middleware reads it. Header names are in lower case, as
  \<^verbatim>\<open>req.get\<close> looks them up without regard to case.
\<close>

record request =
  req_ip :: "string option"
  remoteAddress :: "string option"
  headers :: "(string \<times> string) list"
  path :: string
  http_method :: string
  body :: json
  query :: json
  params :: json

text \<open>\<^verbatim>\<open>a || b\<close> on strings that may be undefined: the empty string is falsy.\<close>

definition or_else :: "string option \<Rightarrow> string \<Rightarrow> string" where
  "or_else a b = (case a of None \<Rightarrow> b | Some s \<Rightarrow> if s = [] then b else s)"

definition req_get :: "request \<Rightarrow> string \<Rightarrow> string option" where
  "req_get req name = map_of (headers req) name"

definition clientIP :: "request \<Rightarrow> string" where
  "clientIP req = or_else (req_ip req) (or_else (remoteAddress req) ''unknown'')"

definition userAgent :: "request \<Rightarrow> string" where
  "userAgent req = or_else (req_get req ''user-agent'') ''unknown''"

definition requestData :: "request \<Rightarrow> string" where
  "requestData req =
     stringify (JObj [(''body'', body req), (''query'', query req), (''params'', params req)])"

definition suspiciousUserAgents :: "string list" where
  "suspiciousUserAgents =
     [''sqlmap'', ''nikto'', ''nmap'', ''masscan'', ''nessus'', ''openvas'', ''burpsuite'',
      ''owasp'', ''havij'', ''pangolin'']"

definition suspiciousHeaders :: "string list" where
  "suspiciousHeaders =
     [''x-forwarded-for'', ''x-real-ip'', ''x-originating-ip'', ''x-remote-ip'',
      ''x-cluster-client-ip'']"

definition sensitiveEndpoints :: "string list" where
  "sensitiveEndpoints =
     [''/api/auth/login'', ''/api/auth/register'', ''/api/auth/forgot-password'',
      ''/api/payments'', ''/api/assemblies/vote'']"

definition maxPayloadSize :: int where
  "maxPayloadSize = 10 * 1024 * 1024"

definition securityHeaders :: "(string \<times> string) list" where
  "securityHeaders =
     [(''X-Content-Type-Options'', ''nosniff''),
      (''X-Frame-Options'', ''DENY''),
      (''X-XSS-Protection'', ''1; mode=block''),
      (''Referrer-Policy'', ''strict-origin-when-cross-origin''),
      (''Permissions-Policy'', ''geolocation=(), microphone=(), camera=()'')]"

text \<open>
  The result: the reply, the request as the next handler receives it, and the response
  headers the middleware has set.
\<close>

record sec_result =
  sec_reply :: reply
  sec_req :: request
  sec_headers :: "(string \<times> string) list"

definition answer :: "nat \<Rightarrow> string \<Rightarrow> request \<Rightarrow> sec_result" where
  "answer status c req = \<lparr> sec_reply = Reply status c, sec_req = req, sec_headers = [] \<rparr>"

text \<open>The \<^verbatim>\<open>catch\<close> block of the middleware: every exception is logged and answered 500.\<close>

definition sec_catch :: "request \<Rightarrow> world \<Rightarrow> sec_result \<times> world" where
  "sec_catch req w =
     (answer 500 ''INTERNAL_ERROR'' req, logmsg Error ''Erro no middleware de seguranca:'' w)"

text \<open>Steps 9 and 10: sanitize body and query, set the headers, call \<^verbatim>\<open>next\<close>.\<close>

definition sec_finish :: "request \<Rightarrow> world \<Rightarrow> sec_result \<times> world" where
  "sec_finish req w =
     (\<lparr> sec_reply = Next,
        sec_req = req \<lparr> body := sanitizeObject (body req), query := sanitizeObject (query req) \<rparr>,
        sec_headers = securityHeaders \<rparr>, w)"

text \<open>Step 8: the counter of a sensitive endpoint, with its expiry set anew at each
  request.\<close>

definition sec_rate_limit :: "request \<Rightarrow> world \<Rightarrow> sec_result \<times> world" where
  "sec_rate_limit req w =
     (if list_ex (\<lambda>endpoint. startsWith (path req) endpoint) sensitiveEndpoints then
        (let rateLimitKey = ''rate_limit:'' @ clientIP req @ '':'' @ path req in
         case redis_incr rateLimitKey w of
           (Inl e, w1) \<Rightarrow> sec_catch req w1
         | (Inr requests, w1) \<Rightarrow>
             (case redis_expire rateLimitKey 300 w1 of
                (Inl e, w2) \<Rightarrow> sec_catch req w2
              | (Inr b, w2) \<Rightarrow>
                  if requests > 10 then
                    (answer 429 ''RATE_LIMIT_EXCEEDED'' req,
                     logmsg Warn ''Rate limit excedido para endpoint sensivel'' w2)
                  else sec_finish req w2))
      else sec_finish req w)"

text \<open>Steps 5 to 7: user agent, payload size, forwarding headers.\<close>

definition header_present :: "request \<Rightarrow> string \<Rightarrow> bool" where
  "header_present req name = truthy (req_get req name)"

definition sec_headers_check :: "request \<Rightarrow> world \<Rightarrow> sec_result \<times> world" where
  "sec_headers_check req w =
     (if list_ex (\<lambda>agent. str_includes (map toLower (userAgent req)) (map toLower agent))
           suspiciousUserAgents then
        (answer 403 ''SUSPICIOUS_USER_AGENT'' req,
         logmsg Warn ''User Agent suspeito detectado'' w)
      else
        let contentLength = parseInt (or_else (req_get req ''content-length'') ''0'') in
        if (case contentLength of None \<Rightarrow> False | Some n \<Rightarrow> n > maxPayloadSize) then
          (answer 413 ''PAYLOAD_TOO_LARGE'' req,
           logmsg Warn ''Payload muito grande detectado'' w)
        else
          let hasMultipleIpHeaders = length (filter (header_present req) suspiciousHeaders) in
          sec_rate_limit req
            (if hasMultipleIpHeaders > 2
             then logmsg Warn ''Multiplos headers de IP detectados (possivel spoofing)'' w
             else w))"

text \<open>Steps 3 and 4: the two detectors whose pattern objects carry state.\<close>

definition sec_xss_path :: "request \<Rightarrow> world \<Rightarrow> sec_result \<times> world" where
  "sec_xss_path req w =
     (case detectXSS (requestData req) (xss_lastIndex w) of
        (True, lis) \<Rightarrow>
          (answer 400 ''INVALID_CONTENT'' req,
           logmsg Error ''Tentativa de XSS detectada'' (w \<lparr> xss_lastIndex := lis \<rparr>))
      | (False, lis) \<Rightarrow>
          let w1 = w \<lparr> xss_lastIndex := lis \<rparr> in
          (case detectPathTraversal (path req) (pt_lastIndex w1) of
             (True, pls) \<Rightarrow>
               (answer 400 ''INVALID_PATH'' req,
                logmsg Error ''Tentativa de Path Traversal detectada'' (w1 \<lparr> pt_lastIndex := pls \<rparr>))
           | (False, pls) \<Rightarrow>
               (case detectPathTraversal (requestData req) pls of
                  (True, pls') \<Rightarrow>
                    (answer 400 ''INVALID_PATH'' req,
                     logmsg Error ''Tentativa de Path Traversal detectada''
                       (w1 \<lparr> pt_lastIndex := pls' \<rparr>))
                | (False, pls') \<Rightarrow> sec_headers_check req (w1 \<lparr> pt_lastIndex := pls' \<rparr>))))"

text \<open>Step 2: the SQL injection detector with its counter and the escalation, which calls
  \<^verbatim>\<open>redisClient.setex\<close>.\<close>

definition sec_sql :: "request \<Rightarrow> world \<Rightarrow> sec_result \<times> world" where
  "sec_sql req w =
     (if detectSQLInjection (requestData req) then
        (let w0 = logmsg Error ''Tentativa de SQL Injection detectada'' w;
             suspiciousKey = ''suspicious:'' @ clientIP req in
         case redis_incr suspiciousKey w0 of
           (Inl e, w1) \<Rightarrow> sec_catch req w1
         | (Inr attempts, w1) \<Rightarrow>
             (case redis_expire suspiciousKey 3600 w1 of
                (Inl e, w2) \<Rightarrow> sec_catch req w2
              | (Inr b, w2) \<Rightarrow>
                  if attempts \<ge> 5 then
                    (case redisClient_setex (''blacklist:ip:'' @ clientIP req) 86400
                            ''sql_injection'' w2 of
                       (Inl e, w3) \<Rightarrow> sec_catch req w3
                     | (Inr u, w3) \<Rightarrow>
                         (answer 400 ''INVALID_REQUEST'' req,
                          logmsg Error
                            ''IP bloqueado por multiplas tentativas de SQL Injection'' w3))
                  else (answer 400 ''INVALID_REQUEST'' req, w2)))
      else sec_xss_path req w)"

text \<open>\<^verbatim>\<open>securityMiddleware(req, res, next)\<close>, from step 1, the blacklist of addresses.\<close>

definition securityMiddleware :: "request \<Rightarrow> world \<Rightarrow> sec_result \<times> world" where
  "securityMiddleware req w =
     (case redis_get (''blacklist:ip:'' @ clientIP req) w of
        (Inl e, w1) \<Rightarrow> sec_catch req w1
      | (Inr isBlacklisted, w1) \<Rightarrow>
          if truthy isBlacklisted then
            (answer 403 ''IP_BLACKLISTED'' req,
             logmsg Warn ''Tentativa de acesso de IP bloqueado'' w1)
          else sec_sql req w1)"

text \<open>A run of the gateway: the requests arrive one after the other, request \<open>r\<close> of a
  pair \<open>(t, r)\<close> when the clock shows \<open>t\<close>.\<close>

fun serve :: "(nat \<times> request) list \<Rightarrow> world \<Rightarrow> sec_result list \<times> world" where
  "serve [] w = ([], w)"
| "serve ((t, r) # rest) w =
     (case securityMiddleware r (w \<lparr> now := t \<rparr>) of
        (res, w1) \<Rightarrow>
          (case serve rest w1 of
             (ress, w2) \<Rightarrow> (res # ress, w2)))"

text \<open>What the next handler is to receive: the request with body and query sanitized.\<close>

definition sanitized :: "request \<Rightarrow> request" where
  "sanitized req = req \<lparr> body := sanitizeObject (body req), query := sanitizeObject (query req) \<rparr>"

definition next_is_sanitized :: "request \<Rightarrow> sec_result \<Rightarrow> bool" where
  "next_is_sanitized req res =
     (case sec_reply res of Next \<Rightarrow> sec_req res = sanitized req | Reply s c \<Rightarrow> True)"

text \<open>A request with angle brackets in strings at several depths, for concrete runs.\<close>

definition comment_req :: request where
  "comment_req = \<lparr> req_ip = Some ''10.0.0.7'', remoteAddress = None,
     headers = [(''user-agent'', ''Mozilla/5.0''), (''content-length'', ''64'')],
     path = ''/api/messages'', http_method = ''POST'',
     body = JObj [(''text'', JStr ''1 < 2 > 0''),
                  (''tags'', JArr [JStr ''<b>'', JNum ''7'', JNull, JBool True])],
     query = JObj [(''q'', JStr ''a>b'')],
     params = JObj [] \<rparr>"

text \<open>A request whose JSON body has a property \<^verbatim>\<open>__proto__\<close>, as
  \<^verbatim>\<open>{"__proto__": 7, "text": "a<b"}\<close> is parsed.\<close>

definition proto_req :: request where
  "proto_req = \<lparr> req_ip = Some ''10.0.0.7'', remoteAddress = None,
     headers = [(''user-agent'', ''Mozilla/5.0''), (''content-length'', ''31'')],
     path = ''/api/messages'', http_method = ''POST'',
     body = JObj [(''__proto__'', JNum ''7''), (''text'', JStr ''a<b'')],
     query = JObj [],
     params = JObj [] \<rparr>"

text \<open>The requests of a run that come from one address and on which the SQL injection
  detector fires, and a key that is absent or has expired by time \<open>T\<close>.\<close>

definition detections :: "string \<Rightarrow> (nat \<times> request) list \<Rightarrow> (nat \<times> request) list" where
  "detections ip tr =
     filter (\<lambda>(t, r). clientIP r = ip \<and> detectSQLInjection (requestData r)) tr"

definition dead_from :: "world \<Rightarrow> string \<Rightarrow> nat \<Rightarrow> bool" where
  "dead_from w k T =
     (case kv w k of
        None \<Rightarrow> True
      | Some en \<Rightarrow> (case expires en of None \<Rightarrow> False | Some e \<Rightarrow> e \<le> T))"

text \<open>A request that carries the injection string of the specification, and a harmless
  request from the same address, for concrete runs.\<close>

definition attack_req :: request where
  "attack_req = \<lparr> req_ip = Some ''203.0.113.9'', remoteAddress = None,
     headers = [(''user-agent'', ''Mozilla/5.0'')],
     path = ''/api/users'', http_method = ''GET'',
     body = JObj [],
     query = JObj [(''name'', JStr ''' OR '1'='1'')],
     params = JObj [] \<rparr>"

definition plain_req :: request where
  "plain_req = \<lparr> req_ip = Some ''203.0.113.9'', remoteAddress = None,
     headers = [(''user-agent'', ''Mozilla/5.0'')],
     path = ''/api/users'', http_method = ''GET'',
     body = JObj [], query = JObj [], params = JObj [] \<rparr>"

text \<open>A run in which the address sends four such requests within five minutes, a harmless
  request and another address one request in between, and what arrives after the fifth.\<close>

definition attack_run :: "(nat \<times> request) list" where
  "attack_run = [(1000, attack_req), (1100, attack_req), (1150, comment_req),
                 (1200, attack_req), (1250, plain_req), (1300, attack_req)]"

definition later_run :: "(nat \<times> request) list" where
  "later_run = [(1500, plain_req), (1600, attack_req), (6000, comment_req), (80000, attack_req)]"



section \<open>The login route\<close>

text \<open>
  The user record as the route reads it, and what the route calls outside the sources:
  the user service, the Redis service, \<^verbatim>\<open>bcrypt.compare\<close>, \<^verbatim>\<open>speakeasy.totp.verify\<close> and
  \<^verbatim>\<open>jwt.sign\<close>. Each is a parameter that answers or throws.
\<close>

record user =
  user_id :: string
  user_email :: string
  user_password :: string
  user_name :: string
  user_role :: string
  user_buildingId :: "string option"
  user_apartmentNumber :: "string option"
  isActive :: bool
  emailVerified :: bool
  twoFactorEnabled :: bool
  twoFactorSecret :: "string option"

record sign_payload =
  sp_userId :: string
  sp_email :: string
  sp_role :: "string option"
  sp_buildingId :: "string option"
  sp_apartmentId :: "string option"
  sp_permissions :: "string list option"
  sp_type :: string

record services =
  findByEmail :: "string \<Rightarrow> exn + user option"
  incrementFailedLogins :: "string \<Rightarrow> exn + unit"
  resetFailedLogins :: "string \<Rightarrow> exn + unit"
  updateLastLogin :: "string \<Rightarrow> string option \<Rightarrow> string \<Rightarrow> exn + unit"
  setRefreshToken :: "string \<Rightarrow> string \<Rightarrow> exn + unit"
  bcrypt_compare :: "string \<Rightarrow> string \<Rightarrow> exn + bool"
  totp_verify :: "string option \<Rightarrow> string \<Rightarrow> exn + bool"
  jwt_sign :: "sign_payload \<Rightarrow> string \<Rightarrow> string \<Rightarrow> exn + string"

text \<open>The settings that the authentication utilities read from the environment.\<close>

record auth_config =
  jwt_secret :: string
  jwt_refresh_secret :: string
  jwt_expires_in :: string
  jwt_refresh_expires_in :: string

text \<open>
  What the handler reads of the request, once \<^verbatim>\<open>validateRequest\<close> has let it through:
  \<^verbatim>\<open>email\<close> and \<^verbatim>\<open>password\<close> are strings, \<^verbatim>\<open>twoFactorCode\<close> may be missing.
\<close>

record login_input =
  li_email :: string
  li_password :: string
  li_twoFactorCode :: "string option"
  li_ip :: "string option"
  li_userAgent :: "string option"

record login_response =
  lr_status :: nat
  lr_code :: "string option"
  lr_tokens :: "(string \<times> string) option"
  lr_requiresTwoFactor :: bool

definition failure :: "nat \<Rightarrow> string \<Rightarrow> login_response" where
  "failure s c = \<lparr> lr_status = s, lr_code = Some c, lr_tokens = None, lr_requiresTwoFactor = False \<rparr>"

text \<open>\<^verbatim>\<open>verifyPassword(password, hash)\<close> of the authentication utilities: an exception of
  \<^verbatim>\<open>bcrypt.compare\<close> is logged and answered \<^verbatim>\<open>false\<close>.\<close>

definition verifyPassword :: "services \<Rightarrow> string \<Rightarrow> string \<Rightarrow> world \<Rightarrow> bool \<times> world" where
  "verifyPassword svc password hash w =
     (case bcrypt_compare svc password hash of
        Inl e \<Rightarrow> (False, logmsg Error ''Erro ao verificar senha:'' w)
      | Inr isValid \<Rightarrow> (isValid, logmsg Debug ''Verificacao de senha realizada'' w))"

text \<open>\<^verbatim>\<open>generateTokens(user)\<close>: both tokens are signed, or the exception is logged and an
  error thrown.\<close>

definition accessPayload :: "user \<Rightarrow> sign_payload" where
  "accessPayload u =
     \<lparr> sp_userId = user_id u, sp_email = user_email u, sp_role = Some (user_role u),
       sp_buildingId = user_buildingId u, sp_apartmentId = user_apartmentNumber u,
       sp_permissions = Some (getUserPermissions (user_role u)), sp_type = ''access'' \<rparr>"

definition refreshPayload :: "user \<Rightarrow> sign_payload" where
  "refreshPayload u =
     \<lparr> sp_userId = user_id u, sp_email = user_email u, sp_role = None,
       sp_buildingId = None, sp_apartmentId = None, sp_permissions = None,
       sp_type = ''refresh'' \<rparr>"

definition generateTokens ::
  "services \<Rightarrow> auth_config \<Rightarrow> user \<Rightarrow> world \<Rightarrow> (thrown + string \<times> string) \<times> world" where
  "generateTokens svc cfg u w =
     (case jwt_sign svc (accessPayload u) (jwt_secret cfg) (jwt_expires_in cfg) of
        Inl e \<Rightarrow>
          (Inl (PlainError ''Erro ao gerar tokens de autenticacao''),
           logmsg Error ''Erro ao gerar tokens:'' w)
      | Inr accessToken \<Rightarrow>
          (case jwt_sign svc (refreshPayload u) (jwt_refresh_secret cfg)
                  (jwt_refresh_expires_in cfg) of
             Inl e \<Rightarrow>
               (Inl (PlainError ''Erro ao gerar tokens de autenticacao''),
                logmsg Error ''Erro ao gerar tokens:'' w)
           | Inr refreshToken \<Rightarrow>
               (Inr (accessToken, refreshToken), logmsg Info ''Tokens gerados com sucesso'' w)))"

text \<open>The \<^verbatim>\<open>catch\<close> block of the route, and its last steps after the password and the second
  factor have been accepted.\<close>

definition login_catch :: "world \<Rightarrow> login_response \<times> world" where
  "login_catch w = (failure 500 ''LOGIN_ERROR'', logmsg Error ''Erro no login:'' w)"

definition login_success ::
  "services \<Rightarrow> auth_config \<Rightarrow> login_input \<Rightarrow> user \<Rightarrow> world \<Rightarrow> login_response \<times> world" where
  "login_success svc cfg inp u w =
     (case generateTokens svc cfg u w of
        (Inl e, w1) \<Rightarrow> login_catch w1
      | (Inr (accessToken, refreshToken), w1) \<Rightarrow>
          (case setRefreshToken svc (user_id u) refreshToken of
             Inl e \<Rightarrow> login_catch w1
           | Inr a \<Rightarrow>
               (case resetFailedLogins svc (user_id u) of
                  Inl e \<Rightarrow> login_catch w1
                | Inr b \<Rightarrow>
                    (case updateLastLogin svc (user_id u) (li_ip inp)
                            (or_else (li_userAgent inp) ''unknown'') of
                       Inl e \<Rightarrow> login_catch w1
                     | Inr c \<Rightarrow>
                         (\<lparr> lr_status = 200, lr_code = None,
                            lr_tokens = Some (accessToken, refreshToken),
                            lr_requiresTwoFactor = False \<rparr>,
                          logmsg Info ''Login realizado com sucesso'' w1)))))"

text \<open>The handler of \<^verbatim>\<open>router.post('/login')\<close>.\<close>

definition login ::
  "services \<Rightarrow> auth_config \<Rightarrow> login_input \<Rightarrow> world \<Rightarrow> login_response \<times> world" where
  "login svc cfg inp w =
     (case findByEmail svc (li_email inp) of
        Inl e \<Rightarrow> login_catch w
      | Inr None \<Rightarrow>
          (failure 401 ''INVALID_CREDENTIALS'',
           logmsg Warn ''Tentativa de login com email inexistente'' w)
      | Inr (Some u) \<Rightarrow>
          if \<not> isActive u then
            (failure 401 ''ACCOUNT_DISABLED'',
             logmsg Warn ''Tentativa de login com usuario inativo'' w)
          else
            (case verifyPassword svc (li_password inp) (user_password u) w of
               (False, w1) \<Rightarrow>
                 (case incrementFailedLogins svc (user_id u) of
                    Inl e \<Rightarrow> login_catch w1
                  | Inr a \<Rightarrow>
                      (failure 401 ''INVALID_CREDENTIALS'',
                       logmsg Warn ''Tentativa de login com senha incorreta'' w1))
             | (True, w1) \<Rightarrow>
                 if \<not> emailVerified u then (failure 401 ''EMAIL_NOT_VERIFIED'', w1)
                 else if twoFactorEnabled u then
                   (case li_twoFactorCode inp of
                      None \<Rightarrow>
                        (\<lparr> lr_status = 200, lr_code = None, lr_tokens = None,
                           lr_requiresTwoFactor = True \<rparr>, w1)
                    | Some twoFactorCode \<Rightarrow>
                        if twoFactorCode = [] then
                          (\<lparr> lr_status = 200, lr_code = None, lr_tokens = None,
                             lr_requiresTwoFactor = True \<rparr>, w1)
                        else
                          (case totp_verify svc (twoFactorSecret u) twoFactorCode of
                             Inl e \<Rightarrow> login_catch w1
                           | Inr False \<Rightarrow>
                               (failure 401 ''INVALID_2FA_CODE'',
                                logmsg Warn ''Codigo 2FA invalido'' w1)
                           | Inr True \<Rightarrow> login_success svc cfg inp u w1))
                 else login_success svc cfg inp u w1))"


text \<open>Attempts: the same request at the given times.\<close>

definition attempts :: "nat list \<Rightarrow> request \<Rightarrow> (nat \<times> request) list" where
  "attempts ts r = map (\<lambda>t. (t, r)) ts"







section \<open>Properties: authorization by permission\<close>

lemma wildcard_loop_iff:
  "wildcard_loop ps parts n \<longleftrightarrow>
     (\<exists>i. 0 < i \<and> i \<le> n \<and> join_with '':'' (take i parts) @ '':*'' \<in> set ps)"
proof (induction n)
  case 0
  show ?case by simp
next
  case (Suc n)
  show ?case
  proof
    assume "wildcard_loop ps parts (Suc n)"
    then consider "join_with '':'' (take (Suc n) parts) @ '':*'' \<in> set ps"
      | "wildcard_loop ps parts n"
      by (auto simp: arr_includes_def split: if_splits)
    then show "\<exists>i. 0 < i \<and> i \<le> Suc n \<and> join_with '':'' (take i parts) @ '':*'' \<in> set ps"
    proof cases
      case 1
      then show ?thesis by blast
    next
      case 2
      with Suc.IH obtain i where "0 < i" "i \<le> n"
        "join_with '':'' (take i parts) @ '':*'' \<in> set ps" by blast
      then show ?thesis by (intro exI [of _ i]) simp
    qed
  next
    assume "\<exists>i. 0 < i \<and> i \<le> Suc n \<and> join_with '':'' (take i parts) @ '':*'' \<in> set ps"
    then obtain i where i: "0 < i" "i \<le> Suc n"
      "join_with '':'' (take i parts) @ '':*'' \<in> set ps" by blast
    show "wildcard_loop ps parts (Suc n)"
    proof (cases "i = Suc n")
      case True
      with i show ?thesis by (simp add: arr_includes_def)
    next
      case False
      with i have "i \<le> n" by simp
      with i Suc.IH have "wildcard_loop ps parts n" by blast
      then show ?thesis by simp
    qed
  qed
qed

lemma hasPermission_iff:
  "hasPermission ps p \<longleftrightarrow>
     p \<in> set ps
     \<or> (\<exists>i. 0 < i \<and> i \<le> length (split_on (CHR '':'') p)
            \<and> join_with '':'' (take i (split_on (CHR '':'') p)) @ '':*'' \<in> set ps)
     \<or> ''admin:*'' \<in> set ps"
  unfolding hasPermission_def Let_def wildcard_loop_iff
  by (auto simp: arr_includes_def)

lemma hasPermission_financial_wildcard:
  "hasPermission [''financial:*''] ''financial:read''
   \<and> hasPermission [''financial:*''] ''financial:pay''
   \<and> \<not> hasPermission [''financial:*''] ''security:read''"
  by (simp add: hasPermission_def arr_includes_def Let_def)


text \<open>
  C1. The claim says that \<^verbatim>\<open>requirePermission(p)\<close> succeeds when the principal holds a
  wildcard ancestor of \<open>p\<close>, so that the holder of \<^verbatim>\<open>financial:*\<close> passes
  \<^verbatim>\<open>requirePermission('financial:read')\<close>. The middleware tests the exact string only:
  a sindico, whose issued permission set contains \<^verbatim>\<open>financial:*\<close>, is answered
  403 \<^verbatim>\<open>MISSING_PERMISSION\<close> on \<^verbatim>\<open>financial:read\<close>, although the sibling utility
  \<^verbatim>\<open>hasPermission\<close> accepts the same permission set for the same permission.
\<close>

theorem C1_requirePermission_ignores_wildcards:
  "requirePermission ''financial:read'' (Some sindico) = Reply 403 ''MISSING_PERMISSION''
   \<and> requirePermission ''financial:read''
        (Some (sindico \<lparr> permissions := [''financial:*''] \<rparr>)) = Reply 403 ''MISSING_PERMISSION''
   \<and> hasPermission (permissions sindico) ''financial:read''
   \<and> hasPermission [''financial:*''] ''financial:read''"
  by (simp add: requirePermission_def hasPermission_def sindico_def getUserPermissions_def
      arr_includes_def Let_def)




section \<open>Properties: rate limiting\<close>

lemmas store_defs = redis_incr_def redis_expire_def redis_ttl_def redis_get_def redis_setex_def
  redis_lpush_def tick_def live_def logmsg_def

text \<open>The first call of a window, and a later call inside it.\<close>

lemma checkRateLimit_fresh:
  assumes "healthy w" "live w key = None" "0 < W"
  shows "checkRateLimit key N W w =
    (\<lparr> allowed = (1 \<le> N), remaining = max 0 (N - 1),
       resetTime = int (now w) * 1000 + int W * 1000 \<rparr>,
     w \<lparr> kv := (kv w)(key \<mapsto> \<lparr> val = Num 1, expires = Some (now w + W) \<rparr>),
        ops := ops w + 3 \<rparr>)"
  using assms
  by (simp add: checkRateLimit_def incrementRateLimit_def redis_incr_def redis_expire_def
      redis_ttl_def healthy_def tick_def live_def)

lemma checkRateLimit_live:
  assumes "healthy w" "kv w key = Some \<lparr> val = Num c, expires = Some e \<rparr>" "now w < e" "1 \<le> c"
  shows "checkRateLimit key N W w =
    (\<lparr> allowed = (c + 1 \<le> N), remaining = max 0 (N - (c + 1)),
       resetTime = int (now w) * 1000 + (int e - int (now w)) * 1000 \<rparr>,
     w \<lparr> kv := (kv w)(key \<mapsto> \<lparr> val = Num (c + 1), expires = Some e \<rparr>),
        ops := ops w + 2 \<rparr>)"
  using assms
  by (simp add: checkRateLimit_def incrementRateLimit_def redis_incr_def redis_expire_def
      redis_ttl_def healthy_def tick_def live_def)

lemma calls_live:
  assumes "healthy w" "kv w key = Some \<lparr> val = Num c, expires = Some e \<rparr>" "1 \<le> c"
    "\<forall>t \<in> set ts. t < e"
  shows "map allowed (fst (calls key N W ts w)) = map (\<lambda>j. c + 1 + int j \<le> N) [0..<length ts]
    \<and> map remaining (fst (calls key N W ts w))
        = map (\<lambda>j. max 0 (N - (c + 1 + int j))) [0..<length ts]
    \<and> healthy (snd (calls key N W ts w))
    \<and> kv (snd (calls key N W ts w)) key
        = Some \<lparr> val = Num (c + int (length ts)), expires = Some e \<rparr>"
  using assms
proof (induction ts arbitrary: w c)
  case Nil
  then show ?case by simp
next
  case (Cons t ts)
  let ?w0 = "w \<lparr> now := t \<rparr>"
  let ?w1 = "?w0 \<lparr> kv := (kv ?w0)(key \<mapsto> \<lparr> val = Num (c + 1), expires = Some e \<rparr>),
                  ops := ops ?w0 + 2 \<rparr>"
  let ?r = "\<lparr> allowed = (c + 1 \<le> N), remaining = max 0 (N - (c + 1)),
       resetTime = int (now ?w0) * 1000 + (int e - int (now ?w0)) * 1000 \<rparr>"
  have h0: "healthy ?w0" using Cons.prems(1) by (simp add: healthy_def)
  have step: "checkRateLimit key N W ?w0 = (?r, ?w1)"
    using Cons.prems by (intro checkRateLimit_live h0) simp_all
  have h1: "healthy ?w1" using h0 by (simp add: healthy_def)
  have k1: "kv ?w1 key = Some \<lparr> val = Num (c + 1), expires = Some e \<rparr>" by simp
  have IH: "map allowed (fst (calls key N W ts ?w1))
        = map (\<lambda>j. (c + 1) + 1 + int j \<le> N) [0..<length ts]
    \<and> map remaining (fst (calls key N W ts ?w1))
        = map (\<lambda>j. max 0 (N - ((c + 1) + 1 + int j))) [0..<length ts]
    \<and> healthy (snd (calls key N W ts ?w1))
    \<and> kv (snd (calls key N W ts ?w1)) key
        = Some \<lparr> val = Num ((c + 1) + int (length ts)), expires = Some e \<rparr>"
    using Cons.prems by (intro Cons.IH h1 k1) simp_all
  have upt: "[0..<length (t # ts)] = 0 # map Suc [0..<length ts]"
    by (simp add: upt_conv_Cons map_Suc_upt del: upt_Suc)
  obtain rs w2 where c: "calls key N W ts ?w1 = (rs, w2)"
    by (cases "calls key N W ts ?w1")
  have whole: "calls key N W (t # ts) w = (?r # rs, w2)"
    using step c by simp
  show ?case
    unfolding upt whole using IH c
    by (simp add: comp_def algebra_simps)
qed

lemma calls_window:
  assumes "healthy w" "live (w \<lparr> now := t0 \<rparr>) key = None" "0 < W" "\<forall>t \<in> set ts. t < t0 + W"
  shows "map allowed (fst (calls key N W (t0 # ts) w))
        = map (\<lambda>j. int j + 1 \<le> N) [0..<Suc (length ts)]"
    and "map remaining (fst (calls key N W (t0 # ts) w))
        = map (\<lambda>j. max 0 (N - (int j + 1))) [0..<Suc (length ts)]"
    and "healthy (snd (calls key N W (t0 # ts) w))"
    and "kv (snd (calls key N W (t0 # ts) w)) key
        = Some \<lparr> val = Num (1 + int (length ts)), expires = Some (t0 + W) \<rparr>"
proof -
  let ?w0 = "w \<lparr> now := t0 \<rparr>"
  let ?w1 = "?w0 \<lparr> kv := (kv ?w0)(key \<mapsto> \<lparr> val = Num 1, expires = Some (now ?w0 + W) \<rparr>),
                  ops := ops ?w0 + 3 \<rparr>"
  let ?r = "\<lparr> allowed = (1 \<le> N), remaining = max 0 (N - 1),
       resetTime = int (now ?w0) * 1000 + int W * 1000 \<rparr>"
  have h0: "healthy ?w0" using assms(1) by (simp add: healthy_def)
  have step: "checkRateLimit key N W ?w0 = (?r, ?w1)"
    using assms by (intro checkRateLimit_fresh h0) simp_all
  have h1: "healthy ?w1" using h0 by (simp add: healthy_def)
  have k1: "kv ?w1 key = Some \<lparr> val = Num 1, expires = Some (t0 + W) \<rparr>" by simp
  note rest = calls_live [OF h1 k1 _ assms(4), of N W, simplified]
  obtain rs w2 where c: "calls key N W ts ?w1 = (rs, w2)"
    by (cases "calls key N W ts ?w1")
  have whole: "calls key N W (t0 # ts) w = (?r # rs, w2)"
    using step c by simp
  have upt: "[0..<Suc (length ts)] = 0 # map Suc [0..<length ts]"
    by (simp add: upt_conv_Cons map_Suc_upt del: upt_Suc)
  show "map allowed (fst (calls key N W (t0 # ts) w))
        = map (\<lambda>j. int j + 1 \<le> N) [0..<Suc (length ts)]"
    unfolding upt whole using rest c by (simp add: comp_def algebra_simps)
  show "map remaining (fst (calls key N W (t0 # ts) w))
        = map (\<lambda>j. max 0 (N - (int j + 1))) [0..<Suc (length ts)]"
    unfolding upt whole using rest c by (simp add: comp_def algebra_simps)
  show "healthy (snd (calls key N W (t0 # ts) w))"
    unfolding whole using rest c by simp
  show "kv (snd (calls key N W (t0 # ts) w)) key
        = Some \<lparr> val = Num (1 + int (length ts)), expires = Some (t0 + W) \<rparr>"
    unfolding whole using rest c by simp
qed

text \<open>
  C3. A key that is absent or expired when the first call is made at time \<open>t0\<close>, a store
  that answers, and further calls at times before \<open>t0 + W\<close>: the \<open>j\<close>-th call of the run
  (counted from 1) is allowed exactly when \<open>j \<le> N\<close>, so the first \<open>N\<close> are allowed and
  call \<open>N + 1\<close> is refused. The first call sets the expiry to \<open>t0 + W\<close> and the later ones
  leave it; from \<open>t0 + W\<close> on the key is gone, and the next call counts from 1 again.
\<close>

theorem C3_checkRateLimit_window:
  assumes "healthy w"
    and "live (w \<lparr> now := t0 \<rparr>) key = None"
    and "0 < W"
    and "\<forall>t \<in> set ts. t < t0 + W"
  shows "length (fst (calls key N W (t0 # ts) w)) = Suc (length ts)
    \<and> (\<forall>j \<le> length ts.
          allowed (fst (calls key N W (t0 # ts) w) ! j) = (int j + 1 \<le> N)
        \<and> remaining (fst (calls key N W (t0 # ts) w) ! j) = max 0 (N - (int j + 1)))
    \<and> kv (snd (calls key N W (t0 # ts) w)) key
         = Some \<lparr> val = Num (1 + int (length ts)), expires = Some (t0 + W) \<rparr>
    \<and> (\<forall>t \<ge> t0 + W.
          live (snd (calls key N W (t0 # ts) w) \<lparr> now := t \<rparr>) key = None
        \<and> allowed (fst (checkRateLimit key N W (snd (calls key N W (t0 # ts) w) \<lparr> now := t \<rparr>)))
            = (1 \<le> N))"
proof -
  let ?rs = "fst (calls key N W (t0 # ts) w)"
  let ?w' = "snd (calls key N W (t0 # ts) w)"
  note cw = calls_window [OF assms, of N]
  have len: "length ?rs = Suc (length ts)"
    using arg_cong [OF cw(1), of length] by simp
  have nth: "allowed (?rs ! j) = (int j + 1 \<le> N)
        \<and> remaining (?rs ! j) = max 0 (N - (int j + 1))" if "j \<le> length ts" for j
  proof -
    have j: "j < length ?rs" using that len by simp
    have "allowed (?rs ! j) = map allowed ?rs ! j" using j by simp
    also have "\<dots> = (int j + 1 \<le> N)"
      unfolding cw(1) using that by (simp del: upt_Suc)
    finally have a: "allowed (?rs ! j) = (int j + 1 \<le> N)" .
    have "remaining (?rs ! j) = map remaining ?rs ! j" using j by simp
    also have "\<dots> = max 0 (N - (int j + 1))"
      unfolding cw(2) using that by (simp del: upt_Suc)
    finally show ?thesis using a by simp
  qed
  have after: "live (?w' \<lparr> now := t \<rparr>) key = None
        \<and> allowed (fst (checkRateLimit key N W (?w' \<lparr> now := t \<rparr>))) = (1 \<le> N)"
    if "t0 + W \<le> t" for t
  proof -
    have dead: "live (?w' \<lparr> now := t \<rparr>) key = None"
      using cw(4) that by (simp add: live_def)
    have h: "healthy (?w' \<lparr> now := t \<rparr>)" using cw(3) by (simp add: healthy_def)
    show ?thesis
      using dead checkRateLimit_fresh [OF h dead assms(3), of N] by simp
  qed
  show ?thesis using len nth after cw(4) by blast
qed

theorem C3_checkRateLimit_window_witness:
  "healthy world0 \<and> live (world0 \<lparr> now := 100 \<rparr>) ''rl:k'' = None \<and> (0::nat) < 60
   \<and> (110::nat) < 100 + 60 \<and> (159::nat) < 100 + 60
   \<and> allowed (fst (calls ''rl:k'' 2 60 [100, 110, 159] world0) ! 0)
   \<and> allowed (fst (calls ''rl:k'' 2 60 [100, 110, 159] world0) ! 1)
   \<and> \<not> allowed (fst (calls ''rl:k'' 2 60 [100, 110, 159] world0) ! 2)
   \<and> allowed (fst (checkRateLimit ''rl:k'' 2 60
        (snd (calls ''rl:k'' 2 60 [100, 110, 159] world0) \<lparr> now := 160 \<rparr>)))"
proof -
  have h: "healthy world0" by (simp add: healthy_def world0_def)
  have d: "live (world0 \<lparr> now := 100 \<rparr>) ''rl:k'' = None" by (simp add: live_def world0_def)
  have w: "(0::nat) < 60" by simp
  have t: "\<forall>t \<in> set [110, 159]. t < (100::nat) + 60" by simp
  note c = C3_checkRateLimit_window [OF h d w t, of 2]
  note nth = conjunct1 [OF conjunct2 [OF c], rule_format]
  note after = conjunct2 [OF conjunct2 [OF conjunct2 [OF c]], rule_format]
  have a0: "allowed (fst (calls ''rl:k'' 2 60 [100, 110, 159] world0) ! 0)"
    using nth [of 0] by (simp del: calls.simps)
  have a1: "allowed (fst (calls ''rl:k'' 2 60 [100, 110, 159] world0) ! 1)"
    using nth [of 1] by (simp del: calls.simps)
  have a2: "\<not> allowed (fst (calls ''rl:k'' 2 60 [100, 110, 159] world0) ! 2)"
    using nth [of 2] by (simp del: calls.simps)
  have n: "allowed (fst (checkRateLimit ''rl:k'' 2 60
        (snd (calls ''rl:k'' 2 60 [100, 110, 159] world0) \<lparr> now := 160 \<rparr>)))"
    using after [of 160] by (simp del: calls.simps)
  show ?thesis using h d a0 a1 a2 n by (simp del: calls.simps)
qed


section \<open>Properties: store failures\<close>

lemma checkRateLimit_fail_open:
  assumes "\<exists>n. ops w \<le> n \<and> n < ops (snd (checkRateLimit key limit W w)) \<and> fails w n"
  shows "allowed (fst (checkRateLimit key limit W w))
     \<and> remaining (fst (checkRateLimit key limit W w)) = limit
     \<and> (\<exists>pre. log (snd (checkRateLimit key limit W w)) =
           log w @ pre @ [(Error, ''Rate Limit: Erro ao verificar '' @ quoted key)])"
proof (cases "fails w (ops w)")
  case True
  then show ?thesis
    by (simp add: checkRateLimit_def incrementRateLimit_def store_defs)
next
  case f0: False
  show ?thesis
  proof (cases "fails w (Suc (ops w))")
    case True
    with f0 show ?thesis
      by (auto simp add: checkRateLimit_def incrementRateLimit_def store_defs
          split: option.splits rval.splits)
  next
    case f1: False
    show ?thesis
    proof (cases "fails w (Suc (Suc (ops w)))")
      case True
      with f0 f1 assms show ?thesis
        by (auto simp add: checkRateLimit_def incrementRateLimit_def store_defs less_Suc_eq
            split: option.splits rval.splits if_splits)
    next
      case f2: False
      with f0 f1 assms show ?thesis
        by (auto simp add: checkRateLimit_def incrementRateLimit_def store_defs less_Suc_eq
            split: option.splits rval.splits if_splits)
    qed
  qed
qed

lemma isTokenBlacklisted_permissive:
  assumes "fst (svc token w) = Inl e"
  shows "fst (isTokenBlacklisted svc token w) = False
     \<and> log (snd (isTokenBlacklisted svc token w))
        = log (snd (svc token w)) @ [(Error, ''Erro ao verificar blacklist:'')]"
  using assms by (cases "svc token w") (simp add: isTokenBlacklisted_def logmsg_def)

text \<open>
  C7. Whenever one of the store operations that \<^verbatim>\<open>checkRateLimit\<close> issues fails, the
  call returns \<^verbatim>\<open>allowed = true\<close> with \<^verbatim>\<open>remaining = limit\<close> and the error is logged;
  whenever the service behind \<^verbatim>\<open>isTokenBlacklisted\<close> throws, the call returns
  \<^verbatim>\<open>false\<close> and the error is logged. Both functions return a value in every case, so
  no failure reaches the caller.
\<close>

theorem C7_store_failure_is_permissive:
  "((\<exists>n. ops w \<le> n \<and> n < ops (snd (checkRateLimit key limit W w)) \<and> fails w n) \<longrightarrow>
      allowed (fst (checkRateLimit key limit W w))
      \<and> remaining (fst (checkRateLimit key limit W w)) = limit
      \<and> (\<exists>pre. log (snd (checkRateLimit key limit W w)) =
            log w @ pre @ [(Error, ''Rate Limit: Erro ao verificar '' @ quoted key)]))
   \<and> (fst (svc token w) = Inl e \<longrightarrow>
        fst (isTokenBlacklisted svc token w) = False
        \<and> log (snd (isTokenBlacklisted svc token w))
           = log (snd (svc token w)) @ [(Error, ''Erro ao verificar blacklist:'')])"
  using checkRateLimit_fail_open [of w key limit W] isTokenBlacklisted_permissive [of svc token w e]
  by blast

theorem C7_store_failure_is_permissive_witness:
  "(\<exists>n. ops (world0 \<lparr> fails := (\<lambda>n. True) \<rparr>) \<le> n
        \<and> n < ops (snd (checkRateLimit ''rl:k'' 5 60 (world0 \<lparr> fails := (\<lambda>n. True) \<rparr>)))
        \<and> fails (world0 \<lparr> fails := (\<lambda>n. True) \<rparr>) n)
   \<and> fst (get_service ''blacklist:'' ''tok'' (world0 \<lparr> fails := (\<lambda>n. True) \<rparr>))
       = Inl StoreUnavailable
   \<and> allowed (fst (checkRateLimit ''rl:k'' 5 60 (world0 \<lparr> fails := (\<lambda>n. True) \<rparr>)))
   \<and> remaining (fst (checkRateLimit ''rl:k'' 5 60 (world0 \<lparr> fails := (\<lambda>n. True) \<rparr>))) = 5
   \<and> fst (isTokenBlacklisted (get_service ''blacklist:'') ''tok''
            (world0 \<lparr> fails := (\<lambda>n. True) \<rparr>)) = False"
proof -
  let ?w = "world0 \<lparr> fails := (\<lambda>n. True) \<rparr>"
  have ops1: "ops (snd (checkRateLimit ''rl:k'' 5 60 ?w)) = 1"
    by (simp add: checkRateLimit_def incrementRateLimit_def store_defs world0_def)
  have ex: "\<exists>n. ops ?w \<le> n \<and> n < ops (snd (checkRateLimit ''rl:k'' 5 60 ?w)) \<and> fails ?w n"
    unfolding ops1 by (intro exI [of _ 0]) (simp add: world0_def)
  have svc: "fst (get_service ''blacklist:'' ''tok'' ?w) = Inl StoreUnavailable"
    by (simp add: get_service_def store_defs world0_def)
  note c = C7_store_failure_is_permissive
    [of ?w "''rl:k''" 5 60 "get_service ''blacklist:''" "''tok''" StoreUnavailable]
  show ?thesis using c ex svc by blast
qed


section \<open>Properties: authentication\<close>














section \<open>Properties: token verification\<close>

text \<open>
  In the authentication middleware the test for \<^verbatim>\<open>JsonWebTokenError\<close> comes first and
  holds for every error of the library, so an expired token is answered
  \<^verbatim>\<open>INVALID_TOKEN\<close> like a forged one.
\<close>

lemma auth_catch_jwt:
  "fst (auth_catch (Jwt e) evs w)
     = \<lparr> reply = Reply 401 ''INVALID_TOKEN'', req_user = None, events = evs \<rparr>"
  by (simp add: auth_catch_def)

lemma verifyAccessToken_failure:
  assumes "verify token secret token_options = Inl e"
  shows "verifyAccessToken verify secret token w
     = (None, logmsg Warn ''Token de acesso invalido:'' w)"
  using assms by (simp add: verifyAccessToken_def)

lemma verifyRefreshToken_failure:
  assumes "verify token secret token_options = Inl e"
  shows "verifyRefreshToken verify secret token w
     = (None, logmsg Warn ''Token de refresh invalido:'' w)"
  using assms by (simp add: verifyRefreshToken_def)

lemma verifyAccessToken_Some:
  "fst (verifyAccessToken verify secret token w) = Some p
   \<longleftrightarrow> verify token secret token_options = Inr p \<and> token_type p = Some ''access''"
  by (cases "verify token secret token_options") (auto simp: verifyAccessToken_def)

lemma verifyRefreshToken_Some:
  "fst (verifyRefreshToken verify secret token w) = Some (u, m)
   \<longleftrightarrow> (\<exists>p. verify token secret token_options = Inr p \<and> token_type p = Some ''refresh''
            \<and> userId p = u \<and> email p = m)"
  by (cases "verify token secret token_options") (auto simp: verifyRefreshToken_def)

text \<open>
  C6, as the claim states it, fails: for the expired token and for the forged token the
  caller of \<^verbatim>\<open>verifyAccessToken\<close> and of \<^verbatim>\<open>verifyRefreshToken\<close> receives the same
  \<^verbatim>\<open>null\<close>, and the same warning is logged.
\<close>

theorem C6_failure_kinds_collapse_counterexample:
  "sample_lib ''expired'' ''secret'' token_options = Inl TokenExpiredError
   \<and> sample_lib ''forged'' ''secret'' token_options = Inl JsonWebTokenError
   \<and> verifyAccessToken sample_lib ''secret'' ''expired'' world0 =
       verifyAccessToken sample_lib ''secret'' ''forged'' world0
   \<and> fst (verifyAccessToken sample_lib ''secret'' ''expired'' world0) = None
   \<and> verifyRefreshToken sample_lib ''secret'' ''expired'' world0 =
       verifyRefreshToken sample_lib ''secret'' ''forged'' world0
   \<and> fst (verifyRefreshToken sample_lib ''secret'' ''expired'' world0) = None"
  by (simp add: verifyAccessToken_def verifyRefreshToken_def sample_lib_def)

lemma verifyAccessToken_None:
  assumes "\<not> (\<exists>p. verify token secret token_options = Inr p \<and> token_type p = Some ''access'')"
  shows "verifyAccessToken verify secret token w
     = (None, logmsg Warn ''Token de acesso invalido:'' w)"
  using assms by (cases "verify token secret token_options") (simp_all add: verifyAccessToken_def)

lemma verifyRefreshToken_None:
  assumes "\<not> (\<exists>p. verify token secret token_options = Inr p \<and> token_type p = Some ''refresh'')"
  shows "verifyRefreshToken verify secret token w
     = (None, logmsg Warn ''Token de refresh invalido:'' w)"
  using assms by (cases "verify token secret token_options") (simp_all add: verifyRefreshToken_def)

lemma verifyAccessToken_accept:
  assumes "verify token secret token_options = Inr p" "token_type p = Some ''access''"
  shows "verifyAccessToken verify secret token w = (Some p, w)"
  using assms by (simp add: verifyAccessToken_def)

lemma verifyRefreshToken_accept:
  assumes "verify token secret token_options = Inr p" "token_type p = Some ''refresh''"
  shows "verifyRefreshToken verify secret token w = (Some (userId p, email p), w)"
  using assms by (simp add: verifyRefreshToken_def)

text \<open>
  C6, amended. \<^verbatim>\<open>verifyAccessToken\<close> and \<^verbatim>\<open>verifyRefreshToken\<close> return the payload
  (for the refresh token: its \<^verbatim>\<open>userId\<close> and \<^verbatim>\<open>email\<close>), and log nothing, exactly when the
  library accepts the token and its \<^verbatim>\<open>type\<close> claim is \<^verbatim>\<open>access\<close>, respectively
  \<^verbatim>\<open>refresh\<close>. In every other case, whatever error the library throws and also when the
  payload has another type, they log one warning and return \<^verbatim>\<open>null\<close>: the kind of
  failure does not reach the caller.
\<close>

theorem C6_verify_returns_null_on_every_failure:
  "(verify token secret token_options = Inl e \<longrightarrow>
      verifyAccessToken verify secret token w
        = (None, logmsg Warn ''Token de acesso invalido:'' w)
      \<and> verifyRefreshToken verify secret token w
        = (None, logmsg Warn ''Token de refresh invalido:'' w))
   \<and> (fst (verifyAccessToken verify secret token w) = Some p
        \<longleftrightarrow> verify token secret token_options = Inr p \<and> token_type p = Some ''access'')
   \<and> (fst (verifyRefreshToken verify secret token w) = Some (u, m)
        \<longleftrightarrow> (\<exists>q. verify token secret token_options = Inr q \<and> token_type q = Some ''refresh''
                 \<and> userId q = u \<and> email q = m))
   \<and> (\<not> (\<exists>q. verify token secret token_options = Inr q \<and> token_type q = Some ''access'') \<longrightarrow>
        verifyAccessToken verify secret token w
          = (None, logmsg Warn ''Token de acesso invalido:'' w))
   \<and> (\<not> (\<exists>q. verify token secret token_options = Inr q \<and> token_type q = Some ''refresh'') \<longrightarrow>
        verifyRefreshToken verify secret token w
          = (None, logmsg Warn ''Token de refresh invalido:'' w))
   \<and> (verify token secret token_options = Inr p \<and> token_type p = Some ''access'' \<longrightarrow>
        verifyAccessToken verify secret token w = (Some p, w))
   \<and> (verify token secret token_options = Inr p \<and> token_type p = Some ''refresh'' \<longrightarrow>
        verifyRefreshToken verify secret token w = (Some (userId p, email p), w))"
proof (intro conjI)
  show "verify token secret token_options = Inl e \<longrightarrow>
      verifyAccessToken verify secret token w
        = (None, logmsg Warn ''Token de acesso invalido:'' w)
      \<and> verifyRefreshToken verify secret token w
        = (None, logmsg Warn ''Token de refresh invalido:'' w)"
    using verifyAccessToken_failure [of verify token secret e w]
      verifyRefreshToken_failure [of verify token secret e w] by blast
  show "fst (verifyAccessToken verify secret token w) = Some p
        \<longleftrightarrow> verify token secret token_options = Inr p \<and> token_type p = Some ''access''"
    by (rule verifyAccessToken_Some)
  show "fst (verifyRefreshToken verify secret token w) = Some (u, m)
        \<longleftrightarrow> (\<exists>q. verify token secret token_options = Inr q \<and> token_type q = Some ''refresh''
                 \<and> userId q = u \<and> email q = m)"
    by (rule verifyRefreshToken_Some)
  show "\<not> (\<exists>q. verify token secret token_options = Inr q \<and> token_type q = Some ''access'') \<longrightarrow>
        verifyAccessToken verify secret token w
          = (None, logmsg Warn ''Token de acesso invalido:'' w)"
    using verifyAccessToken_None [of verify token secret w] by blast
  show "\<not> (\<exists>q. verify token secret token_options = Inr q \<and> token_type q = Some ''refresh'') \<longrightarrow>
        verifyRefreshToken verify secret token w
          = (None, logmsg Warn ''Token de refresh invalido:'' w)"
    using verifyRefreshToken_None [of verify token secret w] by blast
  show "verify token secret token_options = Inr p \<and> token_type p = Some ''access'' \<longrightarrow>
        verifyAccessToken verify secret token w = (Some p, w)"
    using verifyAccessToken_accept [of verify token secret p w] by blast
  show "verify token secret token_options = Inr p \<and> token_type p = Some ''refresh'' \<longrightarrow>
        verifyRefreshToken verify secret token w = (Some (userId p, email p), w)"
    using verifyRefreshToken_accept [of verify token secret p w] by blast
qed

theorem C6_verify_returns_null_on_every_failure_witness:
  "sample_lib ''expired'' ''secret'' token_options = Inl TokenExpiredError
   \<and> verifyAccessToken sample_lib ''secret'' ''expired'' world0
       = (None, logmsg Warn ''Token de acesso invalido:'' world0)
   \<and> verifyRefreshToken sample_lib ''secret'' ''expired'' world0
       = (None, logmsg Warn ''Token de refresh invalido:'' world0)
   \<and> sample_lib ''good'' ''secret'' token_options = Inr sindico
   \<and> token_type sindico = Some ''access''
   \<and> verifyAccessToken sample_lib ''secret'' ''good'' world0 = (Some sindico, world0)
   \<and> verifyRefreshToken sample_lib ''secret'' ''good'' world0
       = (None, logmsg Warn ''Token de refresh invalido:'' world0)"
proof -
  have f: "sample_lib ''expired'' ''secret'' token_options = Inl TokenExpiredError"
    by (simp add: sample_lib_def)
  have g: "sample_lib ''good'' ''secret'' token_options = Inr sindico"
    by (simp add: sample_lib_def)
  have t: "token_type sindico = Some ''access''"
    by (simp add: sindico_def)
  have n: "\<not> (\<exists>q. sample_lib ''good'' ''secret'' token_options = Inr q
      \<and> token_type q = Some ''refresh'')"
    unfolding g by (simp add: sindico_def)
  note x = C6_verify_returns_null_on_every_failure
    [where verify=sample_lib and token="''expired''" and secret="''secret''"
      and e=TokenExpiredError and w=world0]
  note y = C6_verify_returns_null_on_every_failure
    [where verify=sample_lib and token="''good''" and secret="''secret''"
      and p=sindico and w=world0]
  note r1 = x [THEN conjunct1, THEN mp, OF f]
  note r2 = y [THEN conjunct2, THEN conjunct2, THEN conjunct2, THEN conjunct2,
      THEN conjunct1, THEN mp, OF n]
  note r3 = y [THEN conjunct2, THEN conjunct2, THEN conjunct2, THEN conjunct2,
      THEN conjunct2, THEN conjunct1, THEN mp, OF conjI [OF g t]]
  show ?thesis
    by (intro conjI f g t r1 [THEN conjunct1] r1 [THEN conjunct2] r2 r3)
qed


section \<open>Evaluating the detectors\<close>

text \<open>
  Tables of the character functions on the printable ASCII characters, tab, line feed and
  carriage return, and the matcher's equations for a star over single characters. With
  them the simplifier runs the detectors on concrete inputs.
\<close>

lemma toUpper_table:
  "toUpper (CHR 0x20) = CHR 0x20" "toUpper (CHR 0x21) = CHR 0x21"
  "toUpper (CHR 0x22) = CHR 0x22" "toUpper (CHR 0x23) = CHR 0x23"
  "toUpper (CHR 0x24) = CHR 0x24" "toUpper (CHR 0x25) = CHR 0x25"
  "toUpper (CHR 0x26) = CHR 0x26" "toUpper (CHR 0x27) = CHR 0x27"
  "toUpper (CHR 0x28) = CHR 0x28" "toUpper (CHR 0x29) = CHR 0x29"
  "toUpper (CHR 0x2A) = CHR 0x2A" "toUpper (CHR 0x2B) = CHR 0x2B"
  "toUpper (CHR 0x2C) = CHR 0x2C" "toUpper (CHR 0x2D) = CHR 0x2D"
  "toUpper (CHR 0x2E) = CHR 0x2E" "toUpper (CHR 0x2F) = CHR 0x2F"
  "toUpper (CHR 0x30) = CHR 0x30" "toUpper (CHR 0x31) = CHR 0x31"
  "toUpper (CHR 0x32) = CHR 0x32" "toUpper (CHR 0x33) = CHR 0x33"
  "toUpper (CHR 0x34) = CHR 0x34" "toUpper (CHR 0x35) = CHR 0x35"
  "toUpper (CHR 0x36) = CHR 0x36" "toUpper (CHR 0x37) = CHR 0x37"
  "toUpper (CHR 0x38) = CHR 0x38" "toUpper (CHR 0x39) = CHR 0x39"
  "toUpper (CHR 0x3A) = CHR 0x3A" "toUpper (CHR 0x3B) = CHR 0x3B"
  "toUpper (CHR 0x3C) = CHR 0x3C" "toUpper (CHR 0x3D) = CHR 0x3D"
  "toUpper (CHR 0x3E) = CHR 0x3E" "toUpper (CHR 0x3F) = CHR 0x3F"
  "toUpper (CHR 0x40) = CHR 0x40" "toUpper (CHR 0x41) = CHR 0x41"
  "toUpper (CHR 0x42) = CHR 0x42" "toUpper (CHR 0x43) = CHR 0x43"
  "toUpper (CHR 0x44) = CHR 0x44" "toUpper (CHR 0x45) = CHR 0x45"
  "toUpper (CHR 0x46) = CHR 0x46" "toUpper (CHR 0x47) = CHR 0x47"
  "toUpper (CHR 0x48) = CHR 0x48" "toUpper (CHR 0x49) = CHR 0x49"
  "toUpper (CHR 0x4A) = CHR 0x4A" "toUpper (CHR 0x4B) = CHR 0x4B"
  "toUpper (CHR 0x4C) = CHR 0x4C" "toUpper (CHR 0x4D) = CHR 0x4D"
  "toUpper (CHR 0x4E) = CHR 0x4E" "toUpper (CHR 0x4F) = CHR 0x4F"
  "toUpper (CHR 0x50) = CHR 0x50" "toUpper (CHR 0x51) = CHR 0x51"
  "toUpper (CHR 0x52) = CHR 0x52" "toUpper (CHR 0x53) = CHR 0x53"
  "toUpper (CHR 0x54) = CHR 0x54" "toUpper (CHR 0x55) = CHR 0x55"
  "toUpper (CHR 0x56) = CHR 0x56" "toUpper (CHR 0x57) = CHR 0x57"
  "toUpper (CHR 0x58) = CHR 0x58" "toUpper (CHR 0x59) = CHR 0x59"
  "toUpper (CHR 0x5A) = CHR 0x5A" "toUpper (CHR 0x5B) = CHR 0x5B"
  "toUpper (CHR 0x5C) = CHR 0x5C" "toUpper (CHR 0x5D) = CHR 0x5D"
  "toUpper (CHR 0x5E) = CHR 0x5E" "toUpper (CHR 0x5F) = CHR 0x5F"
  "toUpper (CHR 0x60) = CHR 0x60" "toUpper (CHR 0x61) = CHR 0x41"
  "toUpper (CHR 0x62) = CHR 0x42" "toUpper (CHR 0x63) = CHR 0x43"
  "toUpper (CHR 0x64) = CHR 0x44" "toUpper (CHR 0x65) = CHR 0x45"
  "toUpper (CHR 0x66) = CHR 0x46" "toUpper (CHR 0x67) = CHR 0x47"
  "toUpper (CHR 0x68) = CHR 0x48" "toUpper (CHR 0x69) = CHR 0x49"
  "toUpper (CHR 0x6A) = CHR 0x4A" "toUpper (CHR 0x6B) = CHR 0x4B"
  "toUpper (CHR 0x6C) = CHR 0x4C" "toUpper (CHR 0x6D) = CHR 0x4D"
  "toUpper (CHR 0x6E) = CHR 0x4E" "toUpper (CHR 0x6F) = CHR 0x4F"
  "toUpper (CHR 0x70) = CHR 0x50" "toUpper (CHR 0x71) = CHR 0x51"
  "toUpper (CHR 0x72) = CHR 0x52" "toUpper (CHR 0x73) = CHR 0x53"
  "toUpper (CHR 0x74) = CHR 0x54" "toUpper (CHR 0x75) = CHR 0x55"
  "toUpper (CHR 0x76) = CHR 0x56" "toUpper (CHR 0x77) = CHR 0x57"
  "toUpper (CHR 0x78) = CHR 0x58" "toUpper (CHR 0x79) = CHR 0x59"
  "toUpper (CHR 0x7A) = CHR 0x5A" "toUpper (CHR 0x7B) = CHR 0x7B"
  "toUpper (CHR 0x7C) = CHR 0x7C" "toUpper (CHR 0x7D) = CHR 0x7D"
  "toUpper (CHR 0x7E) = CHR 0x7E" "toUpper (CHR 0x09) = CHR 0x09"
  "toUpper (CHR 0x0A) = CHR 0x0A" "toUpper (CHR 0x0D) = CHR 0x0D"
  by code_simp+

lemma toLower_table:
  "toLower (CHR 0x20) = CHR 0x20" "toLower (CHR 0x21) = CHR 0x21"
  "toLower (CHR 0x22) = CHR 0x22" "toLower (CHR 0x23) = CHR 0x23"
  "toLower (CHR 0x24) = CHR 0x24" "toLower (CHR 0x25) = CHR 0x25"
  "toLower (CHR 0x26) = CHR 0x26" "toLower (CHR 0x27) = CHR 0x27"
  "toLower (CHR 0x28) = CHR 0x28" "toLower (CHR 0x29) = CHR 0x29"
  "toLower (CHR 0x2A) = CHR 0x2A" "toLower (CHR 0x2B) = CHR 0x2B"
  "toLower (CHR 0x2C) = CHR 0x2C" "toLower (CHR 0x2D) = CHR 0x2D"
  "toLower (CHR 0x2E) = CHR 0x2E" "toLower (CHR 0x2F) = CHR 0x2F"
  "toLower (CHR 0x30) = CHR 0x30" "toLower (CHR 0x31) = CHR 0x31"
  "toLower (CHR 0x32) = CHR 0x32" "toLower (CHR 0x33) = CHR 0x33"
  "toLower (CHR 0x34) = CHR 0x34" "toLower (CHR 0x35) = CHR 0x35"
  "toLower (CHR 0x36) = CHR 0x36" "toLower (CHR 0x37) = CHR 0x37"
  "toLower (CHR 0x38) = CHR 0x38" "toLower (CHR 0x39) = CHR 0x39"
  "toLower (CHR 0x3A) = CHR 0x3A" "toLower (CHR 0x3B) = CHR 0x3B"
  "toLower (CHR 0x3C) = CHR 0x3C" "toLower (CHR 0x3D) = CHR 0x3D"
  "toLower (CHR 0x3E) = CHR 0x3E" "toLower (CHR 0x3F) = CHR 0x3F"
  "toLower (CHR 0x40) = CHR 0x40" "toLower (CHR 0x41) = CHR 0x61"
  "toLower (CHR 0x42) = CHR 0x62" "toLower (CHR 0x43) = CHR 0x63"
  "toLower (CHR 0x44) = CHR 0x64" "toLower (CHR 0x45) = CHR 0x65"
  "toLower (CHR 0x46) = CHR 0x66" "toLower (CHR 0x47) = CHR 0x67"
  "toLower (CHR 0x48) = CHR 0x68" "toLower (CHR 0x49) = CHR 0x69"
  "toLower (CHR 0x4A) = CHR 0x6A" "toLower (CHR 0x4B) = CHR 0x6B"
  "toLower (CHR 0x4C) = CHR 0x6C" "toLower (CHR 0x4D) = CHR 0x6D"
  "toLower (CHR 0x4E) = CHR 0x6E" "toLower (CHR 0x4F) = CHR 0x6F"
  "toLower (CHR 0x50) = CHR 0x70" "toLower (CHR 0x51) = CHR 0x71"
  "toLower (CHR 0x52) = CHR 0x72" "toLower (CHR 0x53) = CHR 0x73"
  "toLower (CHR 0x54) = CHR 0x74" "toLower (CHR 0x55) = CHR 0x75"
  "toLower (CHR 0x56) = CHR 0x76" "toLower (CHR 0x57) = CHR 0x77"
  "toLower (CHR 0x58) = CHR 0x78" "toLower (CHR 0x59) = CHR 0x79"
  "toLower (CHR 0x5A) = CHR 0x7A" "toLower (CHR 0x5B) = CHR 0x5B"
  "toLower (CHR 0x5C) = CHR 0x5C" "toLower (CHR 0x5D) = CHR 0x5D"
  "toLower (CHR 0x5E) = CHR 0x5E" "toLower (CHR 0x5F) = CHR 0x5F"
  "toLower (CHR 0x60) = CHR 0x60" "toLower (CHR 0x61) = CHR 0x61"
  "toLower (CHR 0x62) = CHR 0x62" "toLower (CHR 0x63) = CHR 0x63"
  "toLower (CHR 0x64) = CHR 0x64" "toLower (CHR 0x65) = CHR 0x65"
  "toLower (CHR 0x66) = CHR 0x66" "toLower (CHR 0x67) = CHR 0x67"
  "toLower (CHR 0x68) = CHR 0x68" "toLower (CHR 0x69) = CHR 0x69"
  "toLower (CHR 0x6A) = CHR 0x6A" "toLower (CHR 0x6B) = CHR 0x6B"
  "toLower (CHR 0x6C) = CHR 0x6C" "toLower (CHR 0x6D) = CHR 0x6D"
  "toLower (CHR 0x6E) = CHR 0x6E" "toLower (CHR 0x6F) = CHR 0x6F"
  "toLower (CHR 0x70) = CHR 0x70" "toLower (CHR 0x71) = CHR 0x71"
  "toLower (CHR 0x72) = CHR 0x72" "toLower (CHR 0x73) = CHR 0x73"
  "toLower (CHR 0x74) = CHR 0x74" "toLower (CHR 0x75) = CHR 0x75"
  "toLower (CHR 0x76) = CHR 0x76" "toLower (CHR 0x77) = CHR 0x77"
  "toLower (CHR 0x78) = CHR 0x78" "toLower (CHR 0x79) = CHR 0x79"
  "toLower (CHR 0x7A) = CHR 0x7A" "toLower (CHR 0x7B) = CHR 0x7B"
  "toLower (CHR 0x7C) = CHR 0x7C" "toLower (CHR 0x7D) = CHR 0x7D"
  "toLower (CHR 0x7E) = CHR 0x7E" "toLower (CHR 0x09) = CHR 0x09"
  "toLower (CHR 0x0A) = CHR 0x0A" "toLower (CHR 0x0D) = CHR 0x0D"
  by code_simp+

lemma is_word_table:
  "is_word (CHR 0x20) = False" "is_word (CHR 0x21) = False" "is_word (CHR 0x22) = False"
  "is_word (CHR 0x23) = False" "is_word (CHR 0x24) = False" "is_word (CHR 0x25) = False"
  "is_word (CHR 0x26) = False" "is_word (CHR 0x27) = False" "is_word (CHR 0x28) = False"
  "is_word (CHR 0x29) = False" "is_word (CHR 0x2A) = False" "is_word (CHR 0x2B) = False"
  "is_word (CHR 0x2C) = False" "is_word (CHR 0x2D) = False" "is_word (CHR 0x2E) = False"
  "is_word (CHR 0x2F) = False" "is_word (CHR 0x30) = True" "is_word (CHR 0x31) = True"
  "is_word (CHR 0x32) = True" "is_word (CHR 0x33) = True" "is_word (CHR 0x34) = True"
  "is_word (CHR 0x35) = True" "is_word (CHR 0x36) = True" "is_word (CHR 0x37) = True"
  "is_word (CHR 0x38) = True" "is_word (CHR 0x39) = True" "is_word (CHR 0x3A) = False"
  "is_word (CHR 0x3B) = False" "is_word (CHR 0x3C) = False" "is_word (CHR 0x3D) = False"
  "is_word (CHR 0x3E) = False" "is_word (CHR 0x3F) = False" "is_word (CHR 0x40) = False"
  "is_word (CHR 0x41) = True" "is_word (CHR 0x42) = True" "is_word (CHR 0x43) = True"
  "is_word (CHR 0x44) = True" "is_word (CHR 0x45) = True" "is_word (CHR 0x46) = True"
  "is_word (CHR 0x47) = True" "is_word (CHR 0x48) = True" "is_word (CHR 0x49) = True"
  "is_word (CHR 0x4A) = True" "is_word (CHR 0x4B) = True" "is_word (CHR 0x4C) = True"
  "is_word (CHR 0x4D) = True" "is_word (CHR 0x4E) = True" "is_word (CHR 0x4F) = True"
  "is_word (CHR 0x50) = True" "is_word (CHR 0x51) = True" "is_word (CHR 0x52) = True"
  "is_word (CHR 0x53) = True" "is_word (CHR 0x54) = True" "is_word (CHR 0x55) = True"
  "is_word (CHR 0x56) = True" "is_word (CHR 0x57) = True" "is_word (CHR 0x58) = True"
  "is_word (CHR 0x59) = True" "is_word (CHR 0x5A) = True" "is_word (CHR 0x5B) = False"
  "is_word (CHR 0x5C) = False" "is_word (CHR 0x5D) = False" "is_word (CHR 0x5E) = False"
  "is_word (CHR 0x5F) = True" "is_word (CHR 0x60) = False" "is_word (CHR 0x61) = True"
  "is_word (CHR 0x62) = True" "is_word (CHR 0x63) = True" "is_word (CHR 0x64) = True"
  "is_word (CHR 0x65) = True" "is_word (CHR 0x66) = True" "is_word (CHR 0x67) = True"
  "is_word (CHR 0x68) = True" "is_word (CHR 0x69) = True" "is_word (CHR 0x6A) = True"
  "is_word (CHR 0x6B) = True" "is_word (CHR 0x6C) = True" "is_word (CHR 0x6D) = True"
  "is_word (CHR 0x6E) = True" "is_word (CHR 0x6F) = True" "is_word (CHR 0x70) = True"
  "is_word (CHR 0x71) = True" "is_word (CHR 0x72) = True" "is_word (CHR 0x73) = True"
  "is_word (CHR 0x74) = True" "is_word (CHR 0x75) = True" "is_word (CHR 0x76) = True"
  "is_word (CHR 0x77) = True" "is_word (CHR 0x78) = True" "is_word (CHR 0x79) = True"
  "is_word (CHR 0x7A) = True" "is_word (CHR 0x7B) = False" "is_word (CHR 0x7C) = False"
  "is_word (CHR 0x7D) = False" "is_word (CHR 0x7E) = False" "is_word (CHR 0x09) = False"
  "is_word (CHR 0x0A) = False" "is_word (CHR 0x0D) = False"
  by code_simp+

lemma is_space_table:
  "is_space (CHR 0x20) = True" "is_space (CHR 0x21) = False" "is_space (CHR 0x22) = False"
  "is_space (CHR 0x23) = False" "is_space (CHR 0x24) = False" "is_space (CHR 0x25) = False"
  "is_space (CHR 0x26) = False" "is_space (CHR 0x27) = False" "is_space (CHR 0x28) = False"
  "is_space (CHR 0x29) = False" "is_space (CHR 0x2A) = False" "is_space (CHR 0x2B) = False"
  "is_space (CHR 0x2C) = False" "is_space (CHR 0x2D) = False" "is_space (CHR 0x2E) = False"
  "is_space (CHR 0x2F) = False" "is_space (CHR 0x30) = False" "is_space (CHR 0x31) = False"
  "is_space (CHR 0x32) = False" "is_space (CHR 0x33) = False" "is_space (CHR 0x34) = False"
  "is_space (CHR 0x35) = False" "is_space (CHR 0x36) = False" "is_space (CHR 0x37) = False"
  "is_space (CHR 0x38) = False" "is_space (CHR 0x39) = False" "is_space (CHR 0x3A) = False"
  "is_space (CHR 0x3B) = False" "is_space (CHR 0x3C) = False" "is_space (CHR 0x3D) = False"
  "is_space (CHR 0x3E) = False" "is_space (CHR 0x3F) = False" "is_space (CHR 0x40) = False"
  "is_space (CHR 0x41) = False" "is_space (CHR 0x42) = False" "is_space (CHR 0x43) = False"
  "is_space (CHR 0x44) = False" "is_space (CHR 0x45) = False" "is_space (CHR 0x46) = False"
  "is_space (CHR 0x47) = False" "is_space (CHR 0x48) = False" "is_space (CHR 0x49) = False"
  "is_space (CHR 0x4A) = False" "is_space (CHR 0x4B) = False" "is_space (CHR 0x4C) = False"
  "is_space (CHR 0x4D) = False" "is_space (CHR 0x4E) = False" "is_space (CHR 0x4F) = False"
  "is_space (CHR 0x50) = False" "is_space (CHR 0x51) = False" "is_space (CHR 0x52) = False"
  "is_space (CHR 0x53) = False" "is_space (CHR 0x54) = False" "is_space (CHR 0x55) = False"
  "is_space (CHR 0x56) = False" "is_space (CHR 0x57) = False" "is_space (CHR 0x58) = False"
  "is_space (CHR 0x59) = False" "is_space (CHR 0x5A) = False" "is_space (CHR 0x5B) = False"
  "is_space (CHR 0x5C) = False" "is_space (CHR 0x5D) = False" "is_space (CHR 0x5E) = False"
  "is_space (CHR 0x5F) = False" "is_space (CHR 0x60) = False" "is_space (CHR 0x61) = False"
  "is_space (CHR 0x62) = False" "is_space (CHR 0x63) = False" "is_space (CHR 0x64) = False"
  "is_space (CHR 0x65) = False" "is_space (CHR 0x66) = False" "is_space (CHR 0x67) = False"
  "is_space (CHR 0x68) = False" "is_space (CHR 0x69) = False" "is_space (CHR 0x6A) = False"
  "is_space (CHR 0x6B) = False" "is_space (CHR 0x6C) = False" "is_space (CHR 0x6D) = False"
  "is_space (CHR 0x6E) = False" "is_space (CHR 0x6F) = False" "is_space (CHR 0x70) = False"
  "is_space (CHR 0x71) = False" "is_space (CHR 0x72) = False" "is_space (CHR 0x73) = False"
  "is_space (CHR 0x74) = False" "is_space (CHR 0x75) = False" "is_space (CHR 0x76) = False"
  "is_space (CHR 0x77) = False" "is_space (CHR 0x78) = False" "is_space (CHR 0x79) = False"
  "is_space (CHR 0x7A) = False" "is_space (CHR 0x7B) = False" "is_space (CHR 0x7C) = False"
  "is_space (CHR 0x7D) = False" "is_space (CHR 0x7E) = False" "is_space (CHR 0x09) = True"
  "is_space (CHR 0x0A) = True" "is_space (CHR 0x0D) = True"
  by code_simp+

lemma is_lower_table:
  "is_lower (CHR 0x20) = False" "is_lower (CHR 0x21) = False" "is_lower (CHR 0x22) = False"
  "is_lower (CHR 0x23) = False" "is_lower (CHR 0x24) = False" "is_lower (CHR 0x25) = False"
  "is_lower (CHR 0x26) = False" "is_lower (CHR 0x27) = False" "is_lower (CHR 0x28) = False"
  "is_lower (CHR 0x29) = False" "is_lower (CHR 0x2A) = False" "is_lower (CHR 0x2B) = False"
  "is_lower (CHR 0x2C) = False" "is_lower (CHR 0x2D) = False" "is_lower (CHR 0x2E) = False"
  "is_lower (CHR 0x2F) = False" "is_lower (CHR 0x30) = False" "is_lower (CHR 0x31) = False"
  "is_lower (CHR 0x32) = False" "is_lower (CHR 0x33) = False" "is_lower (CHR 0x34) = False"
  "is_lower (CHR 0x35) = False" "is_lower (CHR 0x36) = False" "is_lower (CHR 0x37) = False"
  "is_lower (CHR 0x38) = False" "is_lower (CHR 0x39) = False" "is_lower (CHR 0x3A) = False"
  "is_lower (CHR 0x3B) = False" "is_lower (CHR 0x3C) = False" "is_lower (CHR 0x3D) = False"
  "is_lower (CHR 0x3E) = False" "is_lower (CHR 0x3F) = False" "is_lower (CHR 0x40) = False"
  "is_lower (CHR 0x41) = False" "is_lower (CHR 0x42) = False" "is_lower (CHR 0x43) = False"
  "is_lower (CHR 0x44) = False" "is_lower (CHR 0x45) = False" "is_lower (CHR 0x46) = False"
  "is_lower (CHR 0x47) = False" "is_lower (CHR 0x48) = False" "is_lower (CHR 0x49) = False"
  "is_lower (CHR 0x4A) = False" "is_lower (CHR 0x4B) = False" "is_lower (CHR 0x4C) = False"
  "is_lower (CHR 0x4D) = False" "is_lower (CHR 0x4E) = False" "is_lower (CHR 0x4F) = False"
  "is_lower (CHR 0x50) = False" "is_lower (CHR 0x51) = False" "is_lower (CHR 0x52) = False"
  "is_lower (CHR 0x53) = False" "is_lower (CHR 0x54) = False" "is_lower (CHR 0x55) = False"
  "is_lower (CHR 0x56) = False" "is_lower (CHR 0x57) = False" "is_lower (CHR 0x58) = False"
  "is_lower (CHR 0x59) = False" "is_lower (CHR 0x5A) = False" "is_lower (CHR 0x5B) = False"
  "is_lower (CHR 0x5C) = False" "is_lower (CHR 0x5D) = False" "is_lower (CHR 0x5E) = False"
  "is_lower (CHR 0x5F) = False" "is_lower (CHR 0x60) = False" "is_lower (CHR 0x61) = True"
  "is_lower (CHR 0x62) = True" "is_lower (CHR 0x63) = True" "is_lower (CHR 0x64) = True"
  "is_lower (CHR 0x65) = True" "is_lower (CHR 0x66) = True" "is_lower (CHR 0x67) = True"
  "is_lower (CHR 0x68) = True" "is_lower (CHR 0x69) = True" "is_lower (CHR 0x6A) = True"
  "is_lower (CHR 0x6B) = True" "is_lower (CHR 0x6C) = True" "is_lower (CHR 0x6D) = True"
  "is_lower (CHR 0x6E) = True" "is_lower (CHR 0x6F) = True" "is_lower (CHR 0x70) = True"
  "is_lower (CHR 0x71) = True" "is_lower (CHR 0x72) = True" "is_lower (CHR 0x73) = True"
  "is_lower (CHR 0x74) = True" "is_lower (CHR 0x75) = True" "is_lower (CHR 0x76) = True"
  "is_lower (CHR 0x77) = True" "is_lower (CHR 0x78) = True" "is_lower (CHR 0x79) = True"
  "is_lower (CHR 0x7A) = True" "is_lower (CHR 0x7B) = False" "is_lower (CHR 0x7C) = False"
  "is_lower (CHR 0x7D) = False" "is_lower (CHR 0x7E) = False" "is_lower (CHR 0x09) = False"
  "is_lower (CHR 0x0A) = False" "is_lower (CHR 0x0D) = False"
  by code_simp+

lemma is_upper_table:
  "is_upper (CHR 0x20) = False" "is_upper (CHR 0x21) = False" "is_upper (CHR 0x22) = False"
  "is_upper (CHR 0x23) = False" "is_upper (CHR 0x24) = False" "is_upper (CHR 0x25) = False"
  "is_upper (CHR 0x26) = False" "is_upper (CHR 0x27) = False" "is_upper (CHR 0x28) = False"
  "is_upper (CHR 0x29) = False" "is_upper (CHR 0x2A) = False" "is_upper (CHR 0x2B) = False"
  "is_upper (CHR 0x2C) = False" "is_upper (CHR 0x2D) = False" "is_upper (CHR 0x2E) = False"
  "is_upper (CHR 0x2F) = False" "is_upper (CHR 0x30) = False" "is_upper (CHR 0x31) = False"
  "is_upper (CHR 0x32) = False" "is_upper (CHR 0x33) = False" "is_upper (CHR 0x34) = False"
  "is_upper (CHR 0x35) = False" "is_upper (CHR 0x36) = False" "is_upper (CHR 0x37) = False"
  "is_upper (CHR 0x38) = False" "is_upper (CHR 0x39) = False" "is_upper (CHR 0x3A) = False"
  "is_upper (CHR 0x3B) = False" "is_upper (CHR 0x3C) = False" "is_upper (CHR 0x3D) = False"
  "is_upper (CHR 0x3E) = False" "is_upper (CHR 0x3F) = False" "is_upper (CHR 0x40) = False"
  "is_upper (CHR 0x41) = True" "is_upper (CHR 0x42) = True" "is_upper (CHR 0x43) = True"
  "is_upper (CHR 0x44) = True" "is_upper (CHR 0x45) = True" "is_upper (CHR 0x46) = True"
  "is_upper (CHR 0x47) = True" "is_upper (CHR 0x48) = True" "is_upper (CHR 0x49) = True"
  "is_upper (CHR 0x4A) = True" "is_upper (CHR 0x4B) = True" "is_upper (CHR 0x4C) = True"
  "is_upper (CHR 0x4D) = True" "is_upper (CHR 0x4E) = True" "is_upper (CHR 0x4F) = True"
  "is_upper (CHR 0x50) = True" "is_upper (CHR 0x51) = True" "is_upper (CHR 0x52) = True"
  "is_upper (CHR 0x53) = True" "is_upper (CHR 0x54) = True" "is_upper (CHR 0x55) = True"
  "is_upper (CHR 0x56) = True" "is_upper (CHR 0x57) = True" "is_upper (CHR 0x58) = True"
  "is_upper (CHR 0x59) = True" "is_upper (CHR 0x5A) = True" "is_upper (CHR 0x5B) = False"
  "is_upper (CHR 0x5C) = False" "is_upper (CHR 0x5D) = False" "is_upper (CHR 0x5E) = False"
  "is_upper (CHR 0x5F) = False" "is_upper (CHR 0x60) = False" "is_upper (CHR 0x61) = False"
  "is_upper (CHR 0x62) = False" "is_upper (CHR 0x63) = False" "is_upper (CHR 0x64) = False"
  "is_upper (CHR 0x65) = False" "is_upper (CHR 0x66) = False" "is_upper (CHR 0x67) = False"
  "is_upper (CHR 0x68) = False" "is_upper (CHR 0x69) = False" "is_upper (CHR 0x6A) = False"
  "is_upper (CHR 0x6B) = False" "is_upper (CHR 0x6C) = False" "is_upper (CHR 0x6D) = False"
  "is_upper (CHR 0x6E) = False" "is_upper (CHR 0x6F) = False" "is_upper (CHR 0x70) = False"
  "is_upper (CHR 0x71) = False" "is_upper (CHR 0x72) = False" "is_upper (CHR 0x73) = False"
  "is_upper (CHR 0x74) = False" "is_upper (CHR 0x75) = False" "is_upper (CHR 0x76) = False"
  "is_upper (CHR 0x77) = False" "is_upper (CHR 0x78) = False" "is_upper (CHR 0x79) = False"
  "is_upper (CHR 0x7A) = False" "is_upper (CHR 0x7B) = False" "is_upper (CHR 0x7C) = False"
  "is_upper (CHR 0x7D) = False" "is_upper (CHR 0x7E) = False" "is_upper (CHR 0x09) = False"
  "is_upper (CHR 0x0A) = False" "is_upper (CHR 0x0D) = False"
  by code_simp+

lemma json_escape_table:
  "json_escape (CHR 0x20) = [CHR 0x20]" "json_escape (CHR 0x21) = [CHR 0x21]"
  "json_escape (CHR 0x22) = [CHR 0x5C, CHR 0x22]" "json_escape (CHR 0x23) = [CHR 0x23]"
  "json_escape (CHR 0x24) = [CHR 0x24]" "json_escape (CHR 0x25) = [CHR 0x25]"
  "json_escape (CHR 0x26) = [CHR 0x26]" "json_escape (CHR 0x27) = [CHR 0x27]"
  "json_escape (CHR 0x28) = [CHR 0x28]" "json_escape (CHR 0x29) = [CHR 0x29]"
  "json_escape (CHR 0x2A) = [CHR 0x2A]" "json_escape (CHR 0x2B) = [CHR 0x2B]"
  "json_escape (CHR 0x2C) = [CHR 0x2C]" "json_escape (CHR 0x2D) = [CHR 0x2D]"
  "json_escape (CHR 0x2E) = [CHR 0x2E]" "json_escape (CHR 0x2F) = [CHR 0x2F]"
  "json_escape (CHR 0x30) = [CHR 0x30]" "json_escape (CHR 0x31) = [CHR 0x31]"
  "json_escape (CHR 0x32) = [CHR 0x32]" "json_escape (CHR 0x33) = [CHR 0x33]"
  "json_escape (CHR 0x34) = [CHR 0x34]" "json_escape (CHR 0x35) = [CHR 0x35]"
  "json_escape (CHR 0x36) = [CHR 0x36]" "json_escape (CHR 0x37) = [CHR 0x37]"
  "json_escape (CHR 0x38) = [CHR 0x38]" "json_escape (CHR 0x39) = [CHR 0x39]"
  "json_escape (CHR 0x3A) = [CHR 0x3A]" "json_escape (CHR 0x3B) = [CHR 0x3B]"
  "json_escape (CHR 0x3C) = [CHR 0x3C]" "json_escape (CHR 0x3D) = [CHR 0x3D]"
  "json_escape (CHR 0x3E) = [CHR 0x3E]" "json_escape (CHR 0x3F) = [CHR 0x3F]"
  "json_escape (CHR 0x40) = [CHR 0x40]" "json_escape (CHR 0x41) = [CHR 0x41]"
  "json_escape (CHR 0x42) = [CHR 0x42]" "json_escape (CHR 0x43) = [CHR 0x43]"
  "json_escape (CHR 0x44) = [CHR 0x44]" "json_escape (CHR 0x45) = [CHR 0x45]"
  "json_escape (CHR 0x46) = [CHR 0x46]" "json_escape (CHR 0x47) = [CHR 0x47]"
  "json_escape (CHR 0x48) = [CHR 0x48]" "json_escape (CHR 0x49) = [CHR 0x49]"
  "json_escape (CHR 0x4A) = [CHR 0x4A]" "json_escape (CHR 0x4B) = [CHR 0x4B]"
  "json_escape (CHR 0x4C) = [CHR 0x4C]" "json_escape (CHR 0x4D) = [CHR 0x4D]"
  "json_escape (CHR 0x4E) = [CHR 0x4E]" "json_escape (CHR 0x4F) = [CHR 0x4F]"
  "json_escape (CHR 0x50) = [CHR 0x50]" "json_escape (CHR 0x51) = [CHR 0x51]"
  "json_escape (CHR 0x52) = [CHR 0x52]" "json_escape (CHR 0x53) = [CHR 0x53]"
  "json_escape (CHR 0x54) = [CHR 0x54]" "json_escape (CHR 0x55) = [CHR 0x55]"
  "json_escape (CHR 0x56) = [CHR 0x56]" "json_escape (CHR 0x57) = [CHR 0x57]"
  "json_escape (CHR 0x58) = [CHR 0x58]" "json_escape (CHR 0x59) = [CHR 0x59]"
  "json_escape (CHR 0x5A) = [CHR 0x5A]" "json_escape (CHR 0x5B) = [CHR 0x5B]"
  "json_escape (CHR 0x5C) = [CHR 0x5C, CHR 0x5C]" "json_escape (CHR 0x5D) = [CHR 0x5D]"
  "json_escape (CHR 0x5E) = [CHR 0x5E]" "json_escape (CHR 0x5F) = [CHR 0x5F]"
  "json_escape (CHR 0x60) = [CHR 0x60]" "json_escape (CHR 0x61) = [CHR 0x61]"
  "json_escape (CHR 0x62) = [CHR 0x62]" "json_escape (CHR 0x63) = [CHR 0x63]"
  "json_escape (CHR 0x64) = [CHR 0x64]" "json_escape (CHR 0x65) = [CHR 0x65]"
  "json_escape (CHR 0x66) = [CHR 0x66]" "json_escape (CHR 0x67) = [CHR 0x67]"
  "json_escape (CHR 0x68) = [CHR 0x68]" "json_escape (CHR 0x69) = [CHR 0x69]"
  "json_escape (CHR 0x6A) = [CHR 0x6A]" "json_escape (CHR 0x6B) = [CHR 0x6B]"
  "json_escape (CHR 0x6C) = [CHR 0x6C]" "json_escape (CHR 0x6D) = [CHR 0x6D]"
  "json_escape (CHR 0x6E) = [CHR 0x6E]" "json_escape (CHR 0x6F) = [CHR 0x6F]"
  "json_escape (CHR 0x70) = [CHR 0x70]" "json_escape (CHR 0x71) = [CHR 0x71]"
  "json_escape (CHR 0x72) = [CHR 0x72]" "json_escape (CHR 0x73) = [CHR 0x73]"
  "json_escape (CHR 0x74) = [CHR 0x74]" "json_escape (CHR 0x75) = [CHR 0x75]"
  "json_escape (CHR 0x76) = [CHR 0x76]" "json_escape (CHR 0x77) = [CHR 0x77]"
  "json_escape (CHR 0x78) = [CHR 0x78]" "json_escape (CHR 0x79) = [CHR 0x79]"
  "json_escape (CHR 0x7A) = [CHR 0x7A]" "json_escape (CHR 0x7B) = [CHR 0x7B]"
  "json_escape (CHR 0x7C) = [CHR 0x7C]" "json_escape (CHR 0x7D) = [CHR 0x7D]"
  "json_escape (CHR 0x7E) = [CHR 0x7E]" "json_escape (CHR 0x09) = [CHR 0x5C, CHR 0x74]"
  "json_escape (CHR 0x0A) = [CHR 0x5C, CHR 0x6E]" "json_escape (CHR 0x0D) = [CHR 0x5C, CHR 0x72]"
  by code_simp+

lemma digit_char_table:
  "digit_char 0 = CHR ''0''" "digit_char 1 = CHR ''1''" "digit_char 2 = CHR ''2''"
  "digit_char 3 = CHR ''3''" "digit_char 4 = CHR ''4''" "digit_char 5 = CHR ''5''"
  "digit_char 6 = CHR ''6''" "digit_char 7 = CHR ''7''" "digit_char 8 = CHR ''8''"
  "digit_char 9 = CHR ''9''"
  by code_simp+

lemmas json_eval = requestData_def json_quote_def json_escape_table show_int_def show_nat.simps
  digit_char_table

lemma ms_star_atom:
  "ms ci (Star (Atom c)) [] = [[]]"
  "ms ci (Star (Atom c)) (x # xs) =
     (if cls_match ci c x then ms ci (Star (Atom c)) xs @ [x # xs] else [x # xs])"
  by simp_all

lemma ms_lazy_atom:
  "ms ci (LazyStar (Atom c)) [] = [[]]"
  "ms ci (LazyStar (Atom c)) (x # xs) =
     (if cls_match ci c x then (x # xs) # ms ci (LazyStar (Atom c)) xs else [x # xs])"
  by simp_all

lemma ms_star_alt2:
  "ms ci (Star (Alt (Atom a) (Atom b))) [] = [[]]"
  "ms ci (Star (Alt (Atom a) (Atom b))) (x # xs) =
     (if cls_match ci a x
      then (if cls_match ci b x
            then ms ci (Star (Alt (Atom a) (Atom b))) xs @ ms ci (Star (Alt (Atom a) (Atom b))) xs
                 @ [x # xs]
            else ms ci (Star (Alt (Atom a) (Atom b))) xs @ [x # xs])
      else (if cls_match ci b x
            then ms ci (Star (Alt (Atom a) (Atom b))) xs @ [x # xs]
            else [x # xs]))"
  by simp_all

lemmas rx_eval = ms.simps(1-5) ms_star_atom ms_lazy_atom ms_star_alt2
  regex_test_def same_char_def
  toUpper_table is_word_table is_space_table is_lower_table is_upper_table
  Plus_def rx_i_def rx_gi_def rx_g_def quote_alt_def tag_pair_def handler_def
  detectSQLInjection_def SQL_INJECTION_PATTERNS_def detectXSS_def XSS_PATTERNS_def
  detectPathTraversal_def PATH_TRAVERSAL_PATTERNS_def

section \<open>Properties: the detectors\<close>

text \<open>On pattern objects that have not matched before, the three detectors classify the
  four inputs of the specification as it says.\<close>

lemma detectors_on_fresh_patterns:
  "detectSQLInjection ''' OR '1'='1''"
  "\<not> detectSQLInjection ''hello world''"
  "fst (detectXSS ''<script>alert(1)</script>'' [0, 0, 0, 0, 0, 0, 0, 0, 0, 0, 0, 0, 0])"
  "\<not> fst (detectXSS ''hello world'' [0, 0, 0, 0, 0, 0, 0, 0, 0, 0, 0, 0, 0])"
  "fst (detectPathTraversal ''../../etc/passwd'' [0, 0, 0, 0, 0, 0, 0, 0])"
  "\<not> fst (detectPathTraversal ''hello world'' [0, 0, 0, 0, 0, 0, 0, 0])"
  by (simp_all add: rx_eval del: ms.simps(6) ms.simps(7))

text \<open>
  C8. The claim has every input that contains \<^verbatim>\<open><script>alert(1)</script>\<close> classified
  as XSS-like and every input that contains \<^verbatim>\<open>../../etc/passwd\<close> as path traversal.
  The patterns of these two detectors carry the flag \<^verbatim>\<open>g\<close>, so \<^verbatim>\<open>test\<close> resumes at the
  \<^verbatim>\<open>lastIndex\<close> that the previous successful call left in the pattern object. The first
  call of \<^verbatim>\<open>detectXSS\<close> on the script input answers true and leaves 25; the next call on
  the same input starts at 25 and answers false. \<^verbatim>\<open>detectPathTraversal\<close> answers true,
  true and then false on three calls in a row with the path input.
\<close>

theorem C8_stateful_detectors_miss_repeated_input:
  "detectXSS ''<script>alert(1)</script>'' [0, 0, 0, 0, 0, 0, 0, 0, 0, 0, 0, 0, 0]
     = (True, [25, 0, 0, 0, 0, 0, 0, 0, 0, 0, 0, 0, 0])
   \<and> detectXSS ''<script>alert(1)</script>'' [25, 0, 0, 0, 0, 0, 0, 0, 0, 0, 0, 0, 0]
     = (False, [0, 0, 0, 0, 0, 0, 0, 0, 0, 0, 0, 0, 0])
   \<and> detectPathTraversal ''../../etc/passwd'' [0, 0, 0, 0, 0, 0, 0, 0]
     = (True, [3, 0, 0, 0, 0, 0, 0, 0])
   \<and> detectPathTraversal ''../../etc/passwd'' [3, 0, 0, 0, 0, 0, 0, 0]
     = (True, [6, 0, 0, 0, 0, 0, 0, 0])
   \<and> detectPathTraversal ''../../etc/passwd'' [6, 0, 0, 0, 0, 0, 0, 0]
     = (False, [0, 0, 0, 0, 0, 0, 0, 0])"
  by (simp add: rx_eval del: ms.simps(6) ms.simps(7))


section \<open>Properties: sanitization\<close>

lemma set_strip_ci: "set (strip_ci p s) \<subseteq> set s"
proof (induction p s rule: strip_ci.induct)
  case (1 p)
  show ?case by simp
next
  case (2 p c cs)
  show ?case
  proof (cases "p \<noteq> [] \<and> starts_ci (c # cs) p")
    case True
    with 2 have "set (strip_ci p (drop (length p - 1) cs)) \<subseteq> set (drop (length p - 1) cs)"
      by simp
    also have "\<dots> \<subseteq> set cs" by (rule set_drop_subset)
    finally show ?thesis using True by auto
  next
    case False
    with 2 show ?thesis by auto
  qed
qed

lemma set_trim: "set (trim s) \<subseteq> set s"
proof -
  have "set (dropWhile is_space (rev (dropWhile is_space s))) \<subseteq> set (rev (dropWhile is_space s))"
    by (meson set_dropWhileD subsetI)
  also have "\<dots> \<subseteq> set s"
    using set_dropWhileD by fastforce
  finally show ?thesis by (simp add: trim_def)
qed

lemma sanitizeString_no_angle:
  "CHR ''<'' \<notin> set (sanitizeString s) \<and> CHR ''>'' \<notin> set (sanitizeString s)"
proof -
  let ?f = "filter (\<lambda>c. c \<noteq> CHR ''<'' \<and> c \<noteq> CHR ''>'') s"
  have "set (sanitizeString s) \<subseteq> set ?f"
    unfolding sanitizeString_def
    using set_trim set_strip_ci by (meson subset_trans)
  then show ?thesis by auto
qed

lemma sanitizeObject_strings:
  "s \<in> set (strings_of (sanitizeObject v)) \<Longrightarrow> CHR ''<'' \<notin> set s \<and> CHR ''>'' \<notin> set s"
proof (induction v arbitrary: s)
  case (JStr x)
  then show ?case using sanitizeString_no_angle [of x] by simp
next
  case (JArr vs)
  then show ?case by auto
next
  case (JObj ps)
  then show ?case by (auto simp: case_prod_beta)
qed simp_all

text \<open>On a value in which no object has a property \<^verbatim>\<open>__proto__\<close> the sanitizer changes
  the contents of strings only.\<close>

lemma sanitizeObject_shape:
  "proto_free v \<Longrightarrow> blank_strings (sanitizeObject v) = blank_strings v"
proof (induction v)
  case (JArr vs)
  then show ?case by (auto simp: list_all_iff)
next
  case (JObj ps)
  have f: "filter (\<lambda>(k, v). k \<noteq> ''__proto__'') ps = ps"
    using JObj.prems by (auto simp: list_all_iff filter_id_conv)
  have "(k, v) \<in> set ps \<Longrightarrow> blank_strings (sanitizeObject v) = blank_strings v" for k v
    using JObj.IH [of "(k, v)" v] JObj.prems by (auto simp: list_all_iff)
  then show ?case unfolding sanitizeObject.simps f by (auto simp: case_prod_beta)
qed simp_all

text \<open>A property \<^verbatim>\<open>__proto__\<close> is not among the properties of the result.\<close>

lemma sanitizeObject_drops_proto:
  "sanitizeObject (JObj ps) = JObj qs \<Longrightarrow> ''__proto__'' \<notin> fst ` set qs"
  by (auto simp: case_prod_beta)


text \<open>Every stage of the security middleware either answers the request itself or hands
  it on; only the last stage calls \<^verbatim>\<open>next\<close>, with body and query sanitized.\<close>

lemma nis_answer [simp]: "next_is_sanitized req (answer s c req)"
  by (simp add: next_is_sanitized_def answer_def)

lemma nis_catch [simp]: "next_is_sanitized req (fst (sec_catch req w))"
  by (simp add: sec_catch_def)

lemma nis_finish [simp]: "next_is_sanitized req (fst (sec_finish req w))"
  by (simp add: sec_finish_def next_is_sanitized_def sanitized_def)

lemma nis_rate [simp]: "next_is_sanitized req (fst (sec_rate_limit req w))"
  by (simp add: sec_rate_limit_def Let_def split: prod.splits sum.splits)

lemma nis_headers [simp]: "next_is_sanitized req (fst (sec_headers_check req w))"
  by (simp add: sec_headers_check_def Let_def)

lemma nis_xss [simp]: "next_is_sanitized req (fst (sec_xss_path req w))"
  by (simp add: sec_xss_path_def Let_def split: prod.splits bool.splits)

lemma nis_sql [simp]: "next_is_sanitized req (fst (sec_sql req w))"
  by (simp add: sec_sql_def redisClient_setex_def Let_def split: prod.splits sum.splits)

lemma nis_middleware: "next_is_sanitized req (fst (securityMiddleware req w))"
  by (simp add: securityMiddleware_def split: prod.splits sum.splits)

text \<open>
  When the security middleware calls \<^verbatim>\<open>next\<close>, no string value among the properties of
  \<^verbatim>\<open>req.body\<close> or \<^verbatim>\<open>req.query\<close>, at any depth, contains \<^verbatim>\<open><\<close> or \<^verbatim>\<open>>\<close>; and where no
  object has a property \<^verbatim>\<open>__proto__\<close>, body and query are what they were apart from the
  contents of their strings: the same structure, keys, numbers, booleans and nulls.
\<close>

lemma securityMiddleware_sanitizes:
  assumes "sec_reply (fst (securityMiddleware req w)) = Next"
  shows "\<forall>s \<in> set (strings_of (body (sec_req (fst (securityMiddleware req w))))).
            CHR ''<'' \<notin> set s \<and> CHR ''>'' \<notin> set s"
    and "\<forall>s \<in> set (strings_of (query (sec_req (fst (securityMiddleware req w))))).
            CHR ''<'' \<notin> set s \<and> CHR ''>'' \<notin> set s"
    and "proto_free (body req) \<Longrightarrow>
      blank_strings (body (sec_req (fst (securityMiddleware req w)))) = blank_strings (body req)"
    and "proto_free (query req) \<Longrightarrow>
      blank_strings (query (sec_req (fst (securityMiddleware req w)))) = blank_strings (query req)"
proof -
  have s: "sec_req (fst (securityMiddleware req w)) = sanitized req"
    using nis_middleware [of req w] assms by (simp add: next_is_sanitized_def)
  show "\<forall>s \<in> set (strings_of (body (sec_req (fst (securityMiddleware req w))))).
            CHR ''<'' \<notin> set s \<and> CHR ''>'' \<notin> set s"
    unfolding s using sanitizeObject_strings by (auto simp: sanitized_def)
  show "\<forall>s \<in> set (strings_of (query (sec_req (fst (securityMiddleware req w))))).
            CHR ''<'' \<notin> set s \<and> CHR ''>'' \<notin> set s"
    unfolding s using sanitizeObject_strings by (auto simp: sanitized_def)
  show "blank_strings (body (sec_req (fst (securityMiddleware req w)))) = blank_strings (body req)"
    if "proto_free (body req)"
    unfolding s using sanitizeObject_shape [OF that] by (simp add: sanitized_def)
  show "blank_strings (query (sec_req (fst (securityMiddleware req w)))) = blank_strings (query req)"
    if "proto_free (query req)"
    unfolding s using sanitizeObject_shape [OF that] by (simp add: sanitized_def)
qed


section \<open>Properties: a request that passes every check\<close>

text \<open>A request that no check stops is handed on sanitized.\<close>

lemma securityMiddleware_pass:
  assumes "\<not> fails w (ops w)"
    and "live w (''blacklist:ip:'' @ clientIP req) = None"
    and "\<not> detectSQLInjection (requestData req)"
    and "detectXSS (requestData req) (xss_lastIndex w) = (False, lis)"
    and "detectPathTraversal (path req) (pt_lastIndex w) = (False, pls)"
    and "detectPathTraversal (requestData req) pls = (False, pls')"
    and "\<not> list_ex (\<lambda>agent. str_includes (map toLower (userAgent req)) (map toLower agent))
           suspiciousUserAgents"
    and "parseInt (or_else (req_get req ''content-length'') ''0'') = Some n" "n \<le> maxPayloadSize"
    and "length (filter (header_present req) suspiciousHeaders) \<le> 2"
    and "\<not> list_ex (\<lambda>endpoint. startsWith (path req) endpoint) sensitiveEndpoints"
  shows "securityMiddleware req w =
     (\<lparr> sec_reply = Next, sec_req = sanitized req, sec_headers = securityHeaders \<rparr>,
      w \<lparr> ops := Suc (ops w), xss_lastIndex := lis, pt_lastIndex := pls' \<rparr>)"
proof -
  have g: "redis_get (''blacklist:ip:'' @ clientIP req) w = (Inr None, tick w)"
    using assms(1,2) unfolding redis_get_def by simp
  have sql: "sec_sql req (tick w) = sec_xss_path req (tick w)"
    using assms(3) by (simp add: sec_sql_def)
  have xss: "sec_xss_path req (tick w)
      = sec_headers_check req (tick w \<lparr> xss_lastIndex := lis, pt_lastIndex := pls' \<rparr>)"
    using assms(4,5,6) by (simp add: sec_xss_path_def tick_def Let_def)
  have hd: "sec_headers_check req (tick w \<lparr> xss_lastIndex := lis, pt_lastIndex := pls' \<rparr>)
      = sec_rate_limit req (tick w \<lparr> xss_lastIndex := lis, pt_lastIndex := pls' \<rparr>)"
    using assms(7,8,9,10) by (simp add: sec_headers_check_def Let_def)
  have rl: "sec_rate_limit req (tick w \<lparr> xss_lastIndex := lis, pt_lastIndex := pls' \<rparr>)
      = sec_finish req (tick w \<lparr> xss_lastIndex := lis, pt_lastIndex := pls' \<rparr>)"
    using assms(11) by (simp add: sec_rate_limit_def)
  have "securityMiddleware req w = sec_sql req (tick w)"
    unfolding securityMiddleware_def g by (simp add: truthy_def)
  also note sql
  also note xss
  also note hd
  also note rl
  finally show ?thesis
    by (simp add: sec_finish_def sanitized_def tick_def)
qed


text \<open>The sample request passes.\<close>

lemma comment_sql: "\<not> detectSQLInjection (requestData comment_req)"
  by (simp add: json_eval comment_req_def rx_eval del: ms.simps(6) ms.simps(7))

lemma comment_xss: "detectXSS (requestData comment_req) [0, 0, 0, 0, 0, 0, 0, 0, 0, 0, 0, 0, 0]
   = (False, [0, 0, 0, 0, 0, 0, 0, 0, 0, 0, 0, 0, 0])"
  by (simp add: json_eval comment_req_def rx_eval del: ms.simps(6) ms.simps(7))

lemma comment_pt1: "detectPathTraversal (path comment_req) [0, 0, 0, 0, 0, 0, 0, 0]
   = (False, [0, 0, 0, 0, 0, 0, 0, 0])"
  by (simp add: json_eval comment_req_def rx_eval del: ms.simps(6) ms.simps(7))

lemma comment_pt2: "detectPathTraversal (requestData comment_req) [0, 0, 0, 0, 0, 0, 0, 0]
   = (False, [0, 0, 0, 0, 0, 0, 0, 0])"
  by (simp add: json_eval comment_req_def rx_eval del: ms.simps(6) ms.simps(7))

lemma comment_ua: "\<not> list_ex (\<lambda>agent. str_includes (map toLower (userAgent comment_req)) (map toLower agent))
           suspiciousUserAgents"
  by (simp add: comment_req_def userAgent_def req_get_def or_else_def suspiciousUserAgents_def
      toLower_table startsWith_def)

lemma comment_len: "parseInt (or_else (req_get comment_req ''content-length'') ''0'') = Some 64"
  by code_simp

lemma comment_path: "\<not> list_ex (\<lambda>endpoint. startsWith (path comment_req) endpoint) sensitiveEndpoints"
  by (simp add: comment_req_def sensitiveEndpoints_def startsWith_def)

lemma comment_hdrs: "length (filter (header_present comment_req) suspiciousHeaders) = 0"
  by (simp add: comment_req_def suspiciousHeaders_def header_present_def req_get_def truthy_def)

lemma comment_ip: "clientIP comment_req = ''10.0.0.7''"
  by (simp add: comment_req_def clientIP_def or_else_def)

lemma comment_req_run:
  "securityMiddleware comment_req world0 =
     (\<lparr> sec_reply = Next, sec_req = sanitized comment_req, sec_headers = securityHeaders \<rparr>,
      world0 \<lparr> ops := Suc (ops world0), xss_lastIndex := [0, 0, 0, 0, 0, 0, 0, 0, 0, 0, 0, 0, 0],
               pt_lastIndex := [0, 0, 0, 0, 0, 0, 0, 0] \<rparr>)"
proof (rule securityMiddleware_pass)
  show "\<not> fails world0 (ops world0)" by (simp add: world0_def)
  show "live world0 (''blacklist:ip:'' @ clientIP comment_req) = None"
    by (simp add: live_def world0_def)
  show "\<not> detectSQLInjection (requestData comment_req)" by (rule comment_sql)
  show "detectXSS (requestData comment_req) (xss_lastIndex world0)
      = (False, [0, 0, 0, 0, 0, 0, 0, 0, 0, 0, 0, 0, 0])"
    using comment_xss by (simp add: world0_def)
  show "detectPathTraversal (path comment_req) (pt_lastIndex world0)
      = (False, [0, 0, 0, 0, 0, 0, 0, 0])"
    using comment_pt1 by (simp add: world0_def)
  show "detectPathTraversal (requestData comment_req) [0, 0, 0, 0, 0, 0, 0, 0]
      = (False, [0, 0, 0, 0, 0, 0, 0, 0])" by (rule comment_pt2)
  show "\<not> list_ex (\<lambda>agent. str_includes (map toLower (userAgent comment_req)) (map toLower agent))
           suspiciousUserAgents" by (rule comment_ua)
  show "parseInt (or_else (req_get comment_req ''content-length'') ''0'') = Some 64"
    by (rule comment_len)
  show "64 \<le> maxPayloadSize" by (simp add: maxPayloadSize_def)
  show "length (filter (header_present comment_req) suspiciousHeaders) \<le> 2"
    using comment_hdrs by simp
  show "\<not> list_ex (\<lambda>endpoint. startsWith (path comment_req) endpoint) sensitiveEndpoints"
    by (rule comment_path)
qed


text \<open>On the sample request the sanitizer removes the angle brackets and keeps the rest.\<close>

lemma comment_req_sanitized:
  "sec_reply (fst (securityMiddleware comment_req world0)) = Next"
  "body (sec_req (fst (securityMiddleware comment_req world0)))
     = JObj [(''text'', JStr ''1  2  0''),
             (''tags'', JArr [JStr ''b'', JNum ''7'', JNull, JBool True])]"
  "query (sec_req (fst (securityMiddleware comment_req world0))) = JObj [(''q'', JStr ''ab'')]"
  unfolding comment_req_run
  by (simp_all add: sanitized_def comment_req_def sanitizeString_def trim_def is_space_table
      starts_ci_def toUpper_table)


section \<open>Properties: a body with a property \<^verbatim>\<open>__proto__\<close>\<close>

lemma proto_sql: "\<not> detectSQLInjection (requestData proto_req)"
  by (simp add: json_eval proto_req_def rx_eval del: ms.simps(6) ms.simps(7))

lemma proto_xss: "detectXSS (requestData proto_req) [0, 0, 0, 0, 0, 0, 0, 0, 0, 0, 0, 0, 0]
   = (False, [0, 0, 0, 0, 0, 0, 0, 0, 0, 0, 0, 0, 0])"
  by (simp add: json_eval proto_req_def rx_eval del: ms.simps(6) ms.simps(7))

lemma proto_pt1: "detectPathTraversal (path proto_req) [0, 0, 0, 0, 0, 0, 0, 0]
   = (False, [0, 0, 0, 0, 0, 0, 0, 0])"
  by (simp add: json_eval proto_req_def rx_eval del: ms.simps(6) ms.simps(7))

lemma proto_pt2: "detectPathTraversal (requestData proto_req) [0, 0, 0, 0, 0, 0, 0, 0]
   = (False, [0, 0, 0, 0, 0, 0, 0, 0])"
  by (simp add: json_eval proto_req_def rx_eval del: ms.simps(6) ms.simps(7))

lemma proto_ua: "\<not> list_ex (\<lambda>agent. str_includes (map toLower (userAgent proto_req)) (map toLower agent))
           suspiciousUserAgents"
  by (simp add: proto_req_def userAgent_def req_get_def or_else_def suspiciousUserAgents_def
      toLower_table startsWith_def)

lemma proto_len: "parseInt (or_else (req_get proto_req ''content-length'') ''0'') = Some 31"
  by code_simp

lemma proto_path: "\<not> list_ex (\<lambda>endpoint. startsWith (path proto_req) endpoint) sensitiveEndpoints"
  by (simp add: proto_req_def sensitiveEndpoints_def startsWith_def)

lemma proto_hdrs: "length (filter (header_present proto_req) suspiciousHeaders) = 0"
  by (simp add: proto_req_def suspiciousHeaders_def header_present_def req_get_def truthy_def)

lemma proto_req_run:
  "securityMiddleware proto_req world0 =
     (\<lparr> sec_reply = Next, sec_req = sanitized proto_req, sec_headers = securityHeaders \<rparr>,
      world0 \<lparr> ops := Suc (ops world0), xss_lastIndex := [0, 0, 0, 0, 0, 0, 0, 0, 0, 0, 0, 0, 0],
               pt_lastIndex := [0, 0, 0, 0, 0, 0, 0, 0] \<rparr>)"
proof (rule securityMiddleware_pass)
  show "\<not> fails world0 (ops world0)" by (simp add: world0_def)
  show "live world0 (''blacklist:ip:'' @ clientIP proto_req) = None"
    by (simp add: live_def world0_def)
  show "\<not> detectSQLInjection (requestData proto_req)" by (rule proto_sql)
  show "detectXSS (requestData proto_req) (xss_lastIndex world0)
      = (False, [0, 0, 0, 0, 0, 0, 0, 0, 0, 0, 0, 0, 0])"
    using proto_xss by (simp add: world0_def)
  show "detectPathTraversal (path proto_req) (pt_lastIndex world0)
      = (False, [0, 0, 0, 0, 0, 0, 0, 0])"
    using proto_pt1 by (simp add: world0_def)
  show "detectPathTraversal (requestData proto_req) [0, 0, 0, 0, 0, 0, 0, 0]
      = (False, [0, 0, 0, 0, 0, 0, 0, 0])" by (rule proto_pt2)
  show "\<not> list_ex (\<lambda>agent. str_includes (map toLower (userAgent proto_req)) (map toLower agent))
           suspiciousUserAgents" by (rule proto_ua)
  show "parseInt (or_else (req_get proto_req ''content-length'') ''0'') = Some 31"
    by (rule proto_len)
  show "31 \<le> maxPayloadSize" by (simp add: maxPayloadSize_def)
  show "length (filter (header_present proto_req) suspiciousHeaders) \<le> 2"
    using proto_hdrs by simp
  show "\<not> list_ex (\<lambda>endpoint. startsWith (path proto_req) endpoint) sensitiveEndpoints"
    by (rule proto_path)
qed

text \<open>
  C10. The request whose body is parsed from \<^verbatim>\<open>{"__proto__": 7, "text": "a<b"}\<close> passes
  every check of the security middleware, which calls \<^verbatim>\<open>next\<close>. The body that the next
  handler finds has lost the angle bracket, and with it the property \<^verbatim>\<open>__proto__\<close> and
  its number 7: a leaf that is not a string has not been left unchanged, and what is left of
  the body when the contents of its strings are disregarded is no longer what it was.
\<close>

theorem C10_sanitizer_drops_proto_property:
  "sec_reply (fst (securityMiddleware proto_req world0)) = Next
   \<and> body proto_req = JObj [(''__proto__'', JNum ''7''), (''text'', JStr ''a<b'')]
   \<and> body (sec_req (fst (securityMiddleware proto_req world0))) = JObj [(''text'', JStr ''ab'')]
   \<and> blank_strings (body proto_req) = JObj [(''__proto__'', JNum ''7''), (''text'', JStr [])]
   \<and> blank_strings (body (sec_req (fst (securityMiddleware proto_req world0))))
       = JObj [(''text'', JStr [])]"
  unfolding proto_req_run
  by (simp add: sanitized_def proto_req_def sanitizeString_def trim_def is_space_table
      starts_ci_def toUpper_table)

section \<open>Properties: what the security middleware writes\<close>

text \<open>What the store operations leave alone.\<close>

lemma logmsg_frame [simp]:
  "kv (logmsg l m w) = kv w" "fails (logmsg l m w) = fails w" "now (logmsg l m w) = now w"
  "ops (logmsg l m w) = ops w"
  by (simp_all add: logmsg_def)

lemma tick_frame [simp]:
  "kv (tick w) = kv w" "fails (tick w) = fails w" "now (tick w) = now w"
  by (simp_all add: tick_def)

lemma redis_get_frame [simp]:
  "kv (snd (redis_get k w)) = kv w" "fails (snd (redis_get k w)) = fails w"
  "now (snd (redis_get k w)) = now w"
  by (simp_all add: redis_get_def split: option.splits rval.splits)

lemma redis_incr_frame [simp]:
  "fails (snd (redis_incr k w)) = fails w" "now (snd (redis_incr k w)) = now w"
  "k' \<noteq> k \<Longrightarrow> kv (snd (redis_incr k w)) k' = kv w k'"
  by (simp_all add: redis_incr_def split: option.splits rval.splits)

lemma redis_expire_frame [simp]:
  "fails (snd (redis_expire k n w)) = fails w" "now (snd (redis_expire k n w)) = now w"
  "k' \<noteq> k \<Longrightarrow> kv (snd (redis_expire k n w)) k' = kv w k'"
  by (simp_all add: redis_expire_def split: option.splits rval.splits)

lemma redis_setex_frame [simp]:
  "fails (snd (redis_setex k n v w)) = fails w" "now (snd (redis_setex k n v w)) = now w"
  "k' \<noteq> k \<Longrightarrow> kv (snd (redis_setex k n v w)) k' = kv w k'"
  by (simp_all add: redis_setex_def)

lemma redisClient_setex_frame [simp]:
  "snd (redisClient_setex k n v w) = w" "fst (redisClient_setex k n v w) = Inl TypeError"
  by (simp_all add: redisClient_setex_def)

text \<open>The stages of the middleware write two keys at most: the counter of suspicious
  attempts of the client address, and the counter of the address and path. No stage
  writes a blacklist entry.\<close>

lemma sec_catch_frame [simp]:
  "kv (snd (sec_catch r w)) = kv w" "fails (snd (sec_catch r w)) = fails w"
  "now (snd (sec_catch r w)) = now w"
  by (simp_all add: sec_catch_def)

lemma sec_finish_frame [simp]: "snd (sec_finish r w) = w"
  by (simp add: sec_finish_def)

lemma sec_rate_limit_frame [simp]:
  "fails (snd (sec_rate_limit r w)) = fails w" "now (snd (sec_rate_limit r w)) = now w"
  "k \<noteq> ''rate_limit:'' @ clientIP r @ '':'' @ path r \<Longrightarrow> kv (snd (sec_rate_limit r w)) k = kv w k"
  by (simp_all add: sec_rate_limit_def Let_def case_prod_beta split: sum.splits)

lemma sec_headers_check_frame [simp]:
  "fails (snd (sec_headers_check r w)) = fails w" "now (snd (sec_headers_check r w)) = now w"
  "k \<noteq> ''rate_limit:'' @ clientIP r @ '':'' @ path r \<Longrightarrow> kv (snd (sec_headers_check r w)) k = kv w k"
  by (simp_all add: sec_headers_check_def Let_def)

lemma sec_xss_path_frame [simp]:
  "fails (snd (sec_xss_path r w)) = fails w" "now (snd (sec_xss_path r w)) = now w"
  "k \<noteq> ''rate_limit:'' @ clientIP r @ '':'' @ path r \<Longrightarrow> kv (snd (sec_xss_path r w)) k = kv w k"
  by (simp_all add: sec_xss_path_def Let_def case_prod_beta split: bool.splits)

lemma sec_sql_frame [simp]:
  "fails (snd (sec_sql r w)) = fails w" "now (snd (sec_sql r w)) = now w"
  "k \<noteq> ''rate_limit:'' @ clientIP r @ '':'' @ path r \<Longrightarrow> k \<noteq> ''suspicious:'' @ clientIP r
     \<Longrightarrow> kv (snd (sec_sql r w)) k = kv w k"
  by (simp_all add: sec_sql_def Let_def case_prod_beta split: sum.splits)

lemma securityMiddleware_frame [simp]:
  "fails (snd (securityMiddleware r w)) = fails w" "now (snd (securityMiddleware r w)) = now w"
  "k \<noteq> ''rate_limit:'' @ clientIP r @ '':'' @ path r \<Longrightarrow> k \<noteq> ''suspicious:'' @ clientIP r
     \<Longrightarrow> kv (snd (securityMiddleware r w)) k = kv w k"
  by (simp_all add: securityMiddleware_def Let_def case_prod_beta split: sum.splits)

text \<open>A request on which the SQL injection detector does not fire leaves the counter of
  suspicious attempts alone.\<close>

lemma securityMiddleware_quiet:
  assumes "\<not> detectSQLInjection (requestData r)"
    and "k \<noteq> ''rate_limit:'' @ clientIP r @ '':'' @ path r"
  shows "kv (snd (securityMiddleware r w)) k = kv w k"
proof -
  have "sec_sql r w' = sec_xss_path r w'" for w'
    using assms(1) by (simp add: sec_sql_def)
  then show ?thesis
    using assms(2)
    by (simp add: securityMiddleware_def Let_def case_prod_beta split: sum.splits)
qed

lemma securityMiddleware_never_blacklists:
  "kv (snd (securityMiddleware r w)) (''blacklist:ip:'' @ ip) = kv w (''blacklist:ip:'' @ ip)"
  by (rule securityMiddleware_frame(3)) simp_all

text \<open>The replies of the stages after the first: none of them is the reply of the
  blacklist check.\<close>

lemma nb_rate: "sec_reply (fst (sec_rate_limit r w)) \<noteq> Reply 403 ''IP_BLACKLISTED''"
  by (simp add: sec_rate_limit_def Let_def answer_def sec_catch_def sec_finish_def
      split: prod.splits sum.splits)

lemma nb_headers: "sec_reply (fst (sec_headers_check r w)) \<noteq> Reply 403 ''IP_BLACKLISTED''"
  by (simp add: sec_headers_check_def Let_def answer_def nb_rate)

lemma nb_xss: "sec_reply (fst (sec_xss_path r w)) \<noteq> Reply 403 ''IP_BLACKLISTED''"
  by (simp add: sec_xss_path_def Let_def answer_def nb_headers split: prod.splits bool.splits)

lemma nb_sql: "sec_reply (fst (sec_sql r w)) \<noteq> Reply 403 ''IP_BLACKLISTED''"
  by (simp add: sec_sql_def Let_def answer_def sec_catch_def redisClient_setex_def nb_xss
      split: prod.splits sum.splits)

lemma securityMiddleware_not_blocked:
  assumes "live w (''blacklist:ip:'' @ clientIP r) = None"
  shows "sec_reply (fst (securityMiddleware r w)) \<noteq> Reply 403 ''IP_BLACKLISTED''"
  using assms
  by (simp add: securityMiddleware_def redis_get_def truthy_def sec_catch_def answer_def nb_sql)



lemma healthy_frame [simp]:
  "healthy (snd (securityMiddleware r w)) = healthy w"
  "healthy (w \<lparr> now := t \<rparr>) = healthy w"
  by (simp_all add: healthy_def)

lemma live_frame [simp]:
  "live (tick w) k = live w k" "live (logmsg l m w) k = live w k"
  by (simp_all add: live_def split: option.splits)

lemma securityMiddleware_blocked:
  assumes "\<not> fails w (ops w)"
    and "kv w (''blacklist:ip:'' @ clientIP r) = Some \<lparr> val = Str s, expires = Some e \<rparr>"
    and "s \<noteq> []" and "now w < e"
  shows "securityMiddleware r w =
     (answer 403 ''IP_BLACKLISTED'' r, logmsg Warn ''Tentativa de acesso de IP bloqueado'' (tick w))"
proof -
  have "redis_get (''blacklist:ip:'' @ clientIP r) w = (Inr (Some s), tick w)"
    using assms unfolding redis_get_def live_def by simp
  then show ?thesis
    unfolding securityMiddleware_def using assms(3) by (simp add: truthy_def)
qed

lemma redis_get_dead:
  assumes "\<not> fails w (ops w)" "live w k = None"
  shows "redis_get k w = (Inr None, tick w)"
  using assms unfolding redis_get_def by simp

text \<open>A request on which the SQL injection detector fires, from an address that is not
  blacklisted: the counter of the address goes up by one and its expiry is set to one hour
  from now. Below the fifth count the request is answered 400. From the fifth count on
  the call of \<^verbatim>\<open>redisClient.setex\<close> throws: the request is answered 500 and nothing but
  the counter is written.\<close>

lemma securityMiddleware_sql_first:
  assumes "healthy w"
    and "live w (''blacklist:ip:'' @ clientIP r) = None"
    and "detectSQLInjection (requestData r)"
    and "live w (''suspicious:'' @ clientIP r) = None"
  shows "fst (securityMiddleware r w) = answer 400 ''INVALID_REQUEST'' r"
    and "kv (snd (securityMiddleware r w)) =
       (kv w)(''suspicious:'' @ clientIP r \<mapsto> \<lparr> val = Num 1, expires = Some (now w + 3600) \<rparr>)"
proof -
  have f: "\<And>n. \<not> fails w n" using assms(1) by (simp add: healthy_def)
  have g: "redis_get (''blacklist:ip:'' @ clientIP r) w = (Inr None, tick w)"
    using f assms(2) by (intro redis_get_dead) simp_all
  have s: "live (logmsg Error ''Tentativa de SQL Injection detectada'' (tick w))
       (''suspicious:'' @ clientIP r) = None"
    using assms(4) by simp
  have m: "securityMiddleware r w = sec_sql r (tick w)"
    unfolding securityMiddleware_def g by (simp add: truthy_def)
  show "fst (securityMiddleware r w) = answer 400 ''INVALID_REQUEST'' r"
    unfolding m sec_sql_def using assms(3) f s
    by (simp add: Let_def redis_incr_def redis_expire_def live_def tick_def logmsg_def)
  show "kv (snd (securityMiddleware r w)) =
       (kv w)(''suspicious:'' @ clientIP r \<mapsto> \<lparr> val = Num 1, expires = Some (now w + 3600) \<rparr>)"
    unfolding m sec_sql_def using assms(3) f s
    by (simp add: Let_def redis_incr_def redis_expire_def live_def tick_def logmsg_def)
qed

lemma securityMiddleware_sql_again:
  assumes "healthy w"
    and "live w (''blacklist:ip:'' @ clientIP r) = None"
    and "detectSQLInjection (requestData r)"
    and "kv w (''suspicious:'' @ clientIP r) = Some \<lparr> val = Num c, expires = Some e \<rparr>"
    and "now w < e"
  shows "c + 1 < 5 \<Longrightarrow> fst (securityMiddleware r w) = answer 400 ''INVALID_REQUEST'' r"
    and "5 \<le> c + 1 \<Longrightarrow> fst (securityMiddleware r w) = answer 500 ''INTERNAL_ERROR'' r"
    and "kv (snd (securityMiddleware r w)) =
       (kv w)(''suspicious:'' @ clientIP r \<mapsto> \<lparr> val = Num (c + 1), expires = Some (now w + 3600) \<rparr>)"
proof -
  have f: "\<And>n. \<not> fails w n" using assms(1) by (simp add: healthy_def)
  have g: "redis_get (''blacklist:ip:'' @ clientIP r) w = (Inr None, tick w)"
    using f assms(2) by (intro redis_get_dead) simp_all
  have m: "securityMiddleware r w = sec_sql r (tick w)"
    unfolding securityMiddleware_def g by (simp add: truthy_def)
  show "fst (securityMiddleware r w) = answer 400 ''INVALID_REQUEST'' r" if "c + 1 < 5"
    unfolding m sec_sql_def using assms(3,4,5) f that
    by (simp add: Let_def redis_incr_def redis_expire_def live_def tick_def logmsg_def)
  show "fst (securityMiddleware r w) = answer 500 ''INTERNAL_ERROR'' r" if "5 \<le> c + 1"
    unfolding m sec_sql_def using assms(3,4,5) f that
    by (simp add: Let_def redis_incr_def redis_expire_def redisClient_setex_def sec_catch_def
        live_def tick_def logmsg_def)
  show "kv (snd (securityMiddleware r w)) =
       (kv w)(''suspicious:'' @ clientIP r \<mapsto> \<lparr> val = Num (c + 1), expires = Some (now w + 3600) \<rparr>)"
    unfolding m sec_sql_def using assms(3,4,5) f
    by (simp add: Let_def redis_incr_def redis_expire_def redisClient_setex_def sec_catch_def
        live_def tick_def logmsg_def)
qed

section \<open>Properties: runs of the security middleware\<close>

lemma dead_from_live:
  assumes "dead_from w k T" "T \<le> t"
  shows "live (w \<lparr> now := t \<rparr>) k = None"
  using assms by (auto simp: dead_from_def live_def split: option.splits)

lemma serve_Cons:
  "serve ((t, r) # rest) w =
     (fst (securityMiddleware r (w \<lparr> now := t \<rparr>))
        # fst (serve rest (snd (securityMiddleware r (w \<lparr> now := t \<rparr>)))),
      snd (serve rest (snd (securityMiddleware r (w \<lparr> now := t \<rparr>)))))"
  by (simp add: case_prod_beta)

lemma serve_append:
  "serve (a @ b) w =
     (fst (serve a w) @ fst (serve b (snd (serve a w))), snd (serve b (snd (serve a w))))"
proof (induction a arbitrary: w)
  case Nil
  show ?case by simp
next
  case (Cons x a)
  obtain t r where x: "x = (t, r)" by (cases x)
  show ?case unfolding x append_Cons serve_Cons Cons.IH by simp
qed

lemma serve_healthy [simp]: "healthy (snd (serve tr w)) = healthy w"
proof (induction tr arbitrary: w)
  case Nil
  show ?case by simp
next
  case (Cons a tr)
  obtain t r where a: "a = (t, r)" by (cases a)
  show ?case unfolding a serve_Cons using Cons.IH by simp
qed

lemma length_serve [simp]: "length (fst (serve tr w)) = length tr"
proof (induction tr arbitrary: w)
  case Nil
  show ?case by simp
next
  case (Cons a tr)
  obtain t r where a: "a = (t, r)" by (cases a)
  show ?case unfolding a serve_Cons using Cons.IH by simp
qed

text \<open>The reply to a request of a run is the reply of the middleware in the world that the
  requests before it have left.\<close>

lemma serve_nth:
  "i < length tr \<Longrightarrow>
     fst (serve tr w) ! i =
       fst (securityMiddleware (snd (tr ! i)) (snd (serve (take i tr) w) \<lparr> now := fst (tr ! i) \<rparr>))"
proof (induction tr arbitrary: i w)
  case Nil
  then show ?case by simp
next
  case (Cons a tr)
  obtain t r where a: "a = (t, r)" by (cases a)
  show ?case
  proof (cases i)
    case 0
    then show ?thesis unfolding a serve_Cons by simp
  next
    case (Suc j)
    with Cons.prems have j: "j < length tr" by simp
    show ?thesis
      unfolding a Suc take_Suc_Cons serve_Cons using Cons.IH [OF j] by simp
  qed
qed

text \<open>No run of the middleware writes a blacklist entry.\<close>

lemma serve_never_blacklists:
  "kv (snd (serve tr w)) (''blacklist:ip:'' @ ip) = kv w (''blacklist:ip:'' @ ip)"
proof (induction tr arbitrary: w)
  case Nil
  show ?case by simp
next
  case (Cons a tr)
  obtain t r where a: "a = (t, r)" by (cases a)
  show ?case
    unfolding a serve_Cons using Cons.IH securityMiddleware_never_blacklists by simp
qed

text \<open>An address that is on the blacklist, as \<^verbatim>\<open>addToBlacklist\<close> of the Redis utilities
  puts it there, is answered 403 by the first check until the entry expires.\<close>

lemma serve_blocks_blacklisted:
  assumes "healthy w"
    and "kv w (''blacklist:ip:'' @ ip) = Some \<lparr> val = Str s, expires = Some e \<rparr>" and "s \<noteq> []"
    and "i < length rest" and "clientIP (snd (rest ! i)) = ip" and "fst (rest ! i) < e"
  shows "fst (serve rest w) ! i = answer 403 ''IP_BLACKLISTED'' (snd (rest ! i))"
proof -
  let ?w = "snd (serve (take i rest) w) \<lparr> now := fst (rest ! i) \<rparr>"
  have h: "healthy (snd (serve (take i rest) w))" using assms(1) by simp
  have f: "\<not> fails ?w (ops ?w)" using h by (simp add: healthy_def)
  have k: "kv ?w (''blacklist:ip:'' @ clientIP (snd (rest ! i)))
      = Some \<lparr> val = Str s, expires = Some e \<rparr>"
    using assms(2,5) serve_never_blacklists [of "take i rest" w ip] by simp
  have n: "now ?w < e" using assms(6) by simp
  show ?thesis
    unfolding serve_nth [OF assms(4)]
    using securityMiddleware_blocked [OF f k assms(3) n] by simp
qed

lemma addToBlacklist_blocks:
  assumes "healthy w" and "0 < ttl" and "reason \<noteq> []"
    and "i < length rest" and "clientIP (snd (rest ! i)) = ip" and "fst (rest ! i) < now w + ttl"
  shows "fst (addToBlacklist ''ip'' ip reason ttl w) = Inr ()"
    and "fst (serve rest (snd (addToBlacklist ''ip'' ip reason ttl w))) ! i
       = answer 403 ''IP_BLACKLISTED'' (snd (rest ! i))"
proof -
  let ?w = "snd (addToBlacklist ''ip'' ip reason ttl w)"
  have f: "\<not> fails w (ops w)" using assms(1) by (simp add: healthy_def)
  show "fst (addToBlacklist ''ip'' ip reason ttl w) = Inr ()"
    using f assms(2) by (simp add: addToBlacklist_def redis_setex_def)
  have h: "healthy ?w"
    using assms(1) f assms(2)
    by (simp add: addToBlacklist_def redis_setex_def healthy_def logmsg_def tick_def)
  have k: "kv ?w (''blacklist:ip:'' @ ip) = Some \<lparr> val = Str reason, expires = Some (now w + ttl) \<rparr>"
    using f assms(2) by (simp add: addToBlacklist_def redis_setex_def logmsg_def tick_def)
  show "fst (serve rest ?w) ! i = answer 403 ''IP_BLACKLISTED'' (snd (rest ! i))"
    using serve_blocks_blacklisted [OF h k assms(3,4,5,6)] .
qed

text \<open>While fewer than five detections have been counted, a run within the hour counts
  the requests of the address on which the detector fires and answers each of them 400.\<close>

lemma serve_counts_detections:
  assumes "healthy w"
    and "dead_from w (''blacklist:ip:'' @ ip) T"
    and "(c = 0 \<and> dead_from w (''suspicious:'' @ ip) T)
         \<or> (1 \<le> c \<and> (\<exists>e. kv w (''suspicious:'' @ ip) = Some \<lparr> val = Num c, expires = Some e \<rparr>
                        \<and> T + 3600 \<le> e))"
    and "\<forall>(t, r) \<in> set tr. T \<le> t \<and> t < T + 3600"
    and "c + int (length (detections ip tr)) \<le> 4"
  shows "((c + int (length (detections ip tr)) = 0 \<and> dead_from (snd (serve tr w)) (''suspicious:'' @ ip) T)
       \<or> (1 \<le> c + int (length (detections ip tr))
           \<and> (\<exists>e. kv (snd (serve tr w)) (''suspicious:'' @ ip)
                    = Some \<lparr> val = Num (c + int (length (detections ip tr))), expires = Some e \<rparr>
                  \<and> T + 3600 \<le> e)))
    \<and> (\<forall>i < length tr. clientIP (snd (tr ! i)) = ip
            \<and> detectSQLInjection (requestData (snd (tr ! i))) \<longrightarrow>
          fst (serve tr w) ! i = answer 400 ''INVALID_REQUEST'' (snd (tr ! i)))"
  using assms
proof (induction tr arbitrary: w c)
  case Nil
  then show ?case by (simp add: detections_def)
next
  case (Cons a tr)
  obtain t r where a: "a = (t, r)" by (cases a)
  let ?K = "''blacklist:ip:'' @ ip" and ?S = "''suspicious:'' @ ip"
  let ?w0 = "w \<lparr> now := t \<rparr>"
  let ?w1 = "snd (securityMiddleware r ?w0)"
  have t: "T \<le> t" "t < T + 3600" using Cons.prems(4) a by auto
  have h0: "healthy ?w0" using Cons.prems(1) by simp
  have h1: "healthy ?w1" using h0 by simp
  have times: "\<forall>(t, r) \<in> set tr. T \<le> t \<and> t < T + 3600" using Cons.prems(4) by simp
  have kK: "kv ?w1 ?K = kv w ?K"
    using securityMiddleware_never_blacklists [of r ?w0 ip] by simp
  have d1: "dead_from ?w1 ?K T" using Cons.prems(2) kK by (simp add: dead_from_def)
  show ?case
  proof (cases "clientIP r = ip \<and> detectSQLInjection (requestData r)")
    case False
    have kS: "kv ?w1 ?S = kv w ?S"
    proof (cases "clientIP r = ip")
      case True
      with False have "\<not> detectSQLInjection (requestData r)" by simp
      then show ?thesis
        using securityMiddleware_quiet [of r ?S ?w0] by simp
    next
      case False
      then show ?thesis
        using securityMiddleware_frame(3) [of ?S r ?w0] by simp
    qed
    have len: "length (detections ip (a # tr)) = length (detections ip tr)"
      using False a by (simp add: detections_def)
    have c1: "(c = 0 \<and> dead_from ?w1 ?S T)
         \<or> (1 \<le> c \<and> (\<exists>e. kv ?w1 ?S = Some \<lparr> val = Num c, expires = Some e \<rparr> \<and> T + 3600 \<le> e))"
      using Cons.prems(3) kS by (simp add: dead_from_def)
    have few: "c + int (length (detections ip tr)) \<le> 4" using Cons.prems(5) len by simp
    note IH = Cons.IH [OF h1 d1 c1 times few]
    have nth: "fst (serve (a # tr) w) ! i = answer 400 ''INVALID_REQUEST'' (snd ((a # tr) ! i))"
      if "i < length (a # tr)" "clientIP (snd ((a # tr) ! i)) = ip"
        "detectSQLInjection (requestData (snd ((a # tr) ! i)))" for i
    proof (cases i)
      case 0
      with that False a show ?thesis by simp
    next
      case (Suc j)
      with that IH show ?thesis unfolding a serve_Cons by simp
    qed
    show ?thesis
      unfolding len using IH nth unfolding a serve_Cons by simp
  next
    case True
    then have ip: "clientIP r = ip" and sql: "detectSQLInjection (requestData r)" by simp_all
    have dK: "live ?w0 (''blacklist:ip:'' @ clientIP r) = None"
      using dead_from_live [OF Cons.prems(2) t(1)] ip by simp
    have len: "int (length (detections ip (a # tr))) = 1 + int (length (detections ip tr))"
      using True a by (simp add: detections_def)
    have few: "(c + 1) + int (length (detections ip tr)) \<le> 4" using Cons.prems(5) len by simp
    have c0: "0 \<le> c" using Cons.prems(3) by auto
    have step: "fst (securityMiddleware r ?w0) = answer 400 ''INVALID_REQUEST'' r
        \<and> kv ?w1 = (kv w)(?S \<mapsto> \<lparr> val = Num (c + 1), expires = Some (t + 3600) \<rparr>)"
    proof (cases "c = 0")
      case True
      with Cons.prems(3) have "dead_from w ?S T" by auto
      then have dS: "live ?w0 (''suspicious:'' @ clientIP r) = None"
        using dead_from_live [of w ?S T t] t(1) ip by simp
      show ?thesis
        using securityMiddleware_sql_first [OF h0 dK sql dS] True ip by simp
    next
      case False
      with Cons.prems(3) obtain e where e: "kv w ?S = Some \<lparr> val = Num c, expires = Some e \<rparr>"
        "T + 3600 \<le> e" by auto
      have k: "kv ?w0 (''suspicious:'' @ clientIP r) = Some \<lparr> val = Num c, expires = Some e \<rparr>"
        using e ip by simp
      have lt: "now ?w0 < e" using e(2) t(2) by simp
      have small: "c + 1 < 5" using few by simp
      show ?thesis
        using securityMiddleware_sql_again(1,3) [OF h0 dK sql k lt] small ip by simp
    qed
    have c1: "(c + 1 = 0 \<and> dead_from ?w1 ?S T)
         \<or> (1 \<le> c + 1 \<and> (\<exists>e. kv ?w1 ?S = Some \<lparr> val = Num (c + 1), expires = Some e \<rparr>
                \<and> T + 3600 \<le> e))"
      using step c0 t(1) by simp
    note IH = Cons.IH [OF h1 d1 c1 times few]
    have nth: "fst (serve (a # tr) w) ! i = answer 400 ''INVALID_REQUEST'' (snd ((a # tr) ! i))"
      if "i < length (a # tr)" "clientIP (snd ((a # tr) ! i)) = ip"
        "detectSQLInjection (requestData (snd ((a # tr) ! i)))" for i
    proof (cases i)
      case 0
      with step a show ?thesis unfolding a serve_Cons by simp
    next
      case (Suc j)
      with that IH show ?thesis unfolding a serve_Cons by simp
    qed
    have eq: "c + int (length (detections ip (a # tr))) = (c + 1) + int (length (detections ip tr))"
      using len by simp
    show ?thesis
      unfolding eq using IH nth c0 unfolding a serve_Cons by simp
  qed
qed


section \<open>Properties: escalation to the blacklist\<close>

text \<open>
  C4. Within one hour from \<open>T\<close>, with the address \<open>ip\<close> neither counted nor blacklisted at
  \<open>T\<close> and a store that answers: a run \<open>tr\<close> in which the detector fires on four requests of
  the address, then on a fifth request \<open>r5\<close> of the address at time \<open>t5\<close>, with whatever
  other requests in between, of this and of other addresses. The four are answered 400.
  The fifth is answered 500 \<^verbatim>\<open>INTERNAL_ERROR\<close>, as the call of \<^verbatim>\<open>redisClient.setex\<close>
  throws, and the blacklist entry of the address is what it was before the run: absent or
  expired. In any run \<open>rest\<close> that follows, no request of the address is answered 403
  \<^verbatim>\<open>IP_BLACKLISTED\<close>.
\<close>

theorem C4_escalation_throws_and_never_blacklists:
  assumes "healthy w"
    and "dead_from w (''blacklist:ip:'' @ ip) T" and "dead_from w (''suspicious:'' @ ip) T"
    and "\<forall>(t, r) \<in> set (tr @ [(t5, r5)]). T \<le> t \<and> t < T + 3600"
    and "length (detections ip tr) = 4"
    and "clientIP r5 = ip" and "detectSQLInjection (requestData r5)"
    and "\<forall>(t, r) \<in> set rest. t5 \<le> t"
  shows "(\<forall>i < length tr. clientIP (snd (tr ! i)) = ip
              \<and> detectSQLInjection (requestData (snd (tr ! i))) \<longrightarrow>
            fst (serve (tr @ [(t5, r5)] @ rest) w) ! i
              = answer 400 ''INVALID_REQUEST'' (snd (tr ! i)))
    \<and> fst (serve (tr @ [(t5, r5)] @ rest) w) ! length tr = answer 500 ''INTERNAL_ERROR'' r5
    \<and> kv (snd (serve (tr @ [(t5, r5)]) w)) (''blacklist:ip:'' @ ip) = kv w (''blacklist:ip:'' @ ip)
    \<and> kv (snd (serve (tr @ [(t5, r5)] @ rest) w)) (''blacklist:ip:'' @ ip)
         = kv w (''blacklist:ip:'' @ ip)
    \<and> (\<forall>i < length rest. clientIP (snd (rest ! i)) = ip \<longrightarrow>
            sec_reply (fst (serve (tr @ [(t5, r5)] @ rest) w) ! (length tr + 1 + i))
              \<noteq> Reply 403 ''IP_BLACKLISTED'')"
proof -
  let ?K = "''blacklist:ip:'' @ ip" and ?S = "''suspicious:'' @ ip"
  let ?all = "tr @ [(t5, r5)] @ rest"
  let ?w4 = "snd (serve tr w)"
  let ?w0 = "?w4 \<lparr> now := t5 \<rparr>"
  let ?w5 = "snd (securityMiddleware r5 ?w0)"
  have times: "\<forall>(t, r) \<in> set tr. T \<le> t \<and> t < T + 3600" using assms(4) by simp
  have t5: "T \<le> t5" "t5 < T + 3600" using assms(4) by simp_all
  have c0: "((0::int) = 0 \<and> dead_from w ?S T)
       \<or> (1 \<le> (0::int) \<and> (\<exists>e. kv w ?S = Some \<lparr> val = Num 0, expires = Some e \<rparr> \<and> T + 3600 \<le> e))"
    using assms(3) by simp
  have few: "(0::int) + int (length (detections ip tr)) \<le> 4" using assms(5) by simp
  note four = serve_counts_detections [OF assms(1,2) c0 times few]
  have kK: "kv ?w4 ?K = kv w ?K" by (rule serve_never_blacklists)
  have dK: "dead_from ?w4 ?K T" using assms(2) kK by (simp add: dead_from_def)
  from four assms(5) obtain e where e: "kv ?w4 ?S = Some \<lparr> val = Num 4, expires = Some e \<rparr>"
    "T + 3600 \<le> e" by auto
  have first4: "fst (serve tr w) ! i = answer 400 ''INVALID_REQUEST'' (snd (tr ! i))"
    if "i < length tr" "clientIP (snd (tr ! i)) = ip"
      "detectSQLInjection (requestData (snd (tr ! i)))" for i
    using four that by blast
  have h4: "healthy ?w4" using assms(1) by simp
  have h0: "healthy ?w0" using h4 by simp
  have dK0: "live ?w0 (''blacklist:ip:'' @ clientIP r5) = None"
    using dead_from_live [OF dK t5(1)] assms(6) by simp
  have k0: "kv ?w0 (''suspicious:'' @ clientIP r5) = Some \<lparr> val = Num 4, expires = Some e \<rparr>"
    using e assms(6) by simp
  have lt: "now ?w0 < e" using e(2) t5(2) by simp
  have r5: "fst (securityMiddleware r5 ?w0) = answer 500 ''INTERNAL_ERROR'' r5"
    using securityMiddleware_sql_again(2) [OF h0 dK0 assms(7) k0 lt] by simp
  have one: "serve [(t5, r5)] ?w4 = ([fst (securityMiddleware r5 ?w0)], ?w5)"
    unfolding serve_Cons by simp
  have upto5: "serve (tr @ [(t5, r5)]) w
      = (fst (serve tr w) @ [answer 500 ''INTERNAL_ERROR'' r5], ?w5)"
    unfolding serve_append one using r5 by simp
  have all: "fst (serve ?all w)
      = fst (serve tr w) @ [answer 500 ''INTERNAL_ERROR'' r5] @ fst (serve rest ?w5)"
    using serve_append [of "tr @ [(t5, r5)]" rest w] upto5 by simp
  have p1: "fst (serve ?all w) ! i = answer 400 ''INVALID_REQUEST'' (snd (tr ! i))"
    if "i < length tr" "clientIP (snd (tr ! i)) = ip"
      "detectSQLInjection (requestData (snd (tr ! i)))" for i
    unfolding all using that first4 by (simp add: nth_append)
  have p2: "fst (serve ?all w) ! length tr = answer 500 ''INTERNAL_ERROR'' r5"
    unfolding all by (simp add: nth_append)
  have p3: "kv (snd (serve (tr @ [(t5, r5)]) w)) ?K = kv w ?K"
    by (rule serve_never_blacklists)
  have p3': "kv (snd (serve ?all w)) ?K = kv w ?K"
    by (rule serve_never_blacklists)
  have p4: "sec_reply (fst (serve ?all w) ! (length tr + 1 + i)) \<noteq> Reply 403 ''IP_BLACKLISTED''"
    if i: "i < length rest" "clientIP (snd (rest ! i)) = ip" for i
  proof -
    let ?v = "snd (serve (take i rest) ?w5)"
    have "rest ! i \<in> set rest" using i(1) by simp
    then have "t5 \<le> fst (rest ! i)" using assms(8) by (auto simp: case_prod_beta)
    then have ti: "T \<le> fst (rest ! i)" using t5(1) by simp
    have "kv ?v ?K = kv ?w5 ?K" by (rule serve_never_blacklists)
    also have "\<dots> = kv ?w0 ?K" by (rule securityMiddleware_never_blacklists)
    also have "\<dots> = kv w ?K" using kK by simp
    finally have "dead_from ?v ?K T" using assms(2) by (simp add: dead_from_def)
    then have "live (?v \<lparr> now := fst (rest ! i) \<rparr>) (''blacklist:ip:'' @ clientIP (snd (rest ! i)))
        = None"
      using dead_from_live [OF _ ti] i(2) by simp
    then have "sec_reply (fst (serve rest ?w5) ! i) \<noteq> Reply 403 ''IP_BLACKLISTED''"
      unfolding serve_nth [OF i(1)] by (rule securityMiddleware_not_blocked)
    then show ?thesis unfolding all using i(1) by (simp add: nth_append)
  qed
  show ?thesis using p1 p2 p3 p3' p4 by blast
qed

lemma attack_req_fires: "detectSQLInjection (requestData attack_req)"
  by (simp add: json_eval attack_req_def rx_eval del: ms.simps(6) ms.simps(7))

lemma plain_req_quiet: "\<not> detectSQLInjection (requestData plain_req)"
  by (simp add: json_eval plain_req_def rx_eval del: ms.simps(6) ms.simps(7))

lemma sample_ips:
  "clientIP attack_req = ''203.0.113.9''" "clientIP plain_req = ''203.0.113.9''"
  "clientIP comment_req = ''10.0.0.7''"
  by (simp_all add: attack_req_def plain_req_def comment_req_def clientIP_def or_else_def)

theorem C4_escalation_throws_and_never_blacklists_witness:
  "healthy world0
   \<and> dead_from world0 (''blacklist:ip:'' @ ''203.0.113.9'') 1000
   \<and> dead_from world0 (''suspicious:'' @ ''203.0.113.9'') 1000
   \<and> length (detections ''203.0.113.9'' attack_run) = 4
   \<and> clientIP attack_req = ''203.0.113.9''
   \<and> detectSQLInjection (requestData attack_req)
   \<and> fst (serve (attack_run @ [(1400, attack_req)] @ later_run) world0) ! 0
       = answer 400 ''INVALID_REQUEST'' attack_req
   \<and> fst (serve (attack_run @ [(1400, attack_req)] @ later_run) world0) ! length attack_run
       = answer 500 ''INTERNAL_ERROR'' attack_req
   \<and> kv (snd (serve (attack_run @ [(1400, attack_req)]) world0)) (''blacklist:ip:'' @ ''203.0.113.9'')
       = None
   \<and> kv (snd (serve (attack_run @ [(1400, attack_req)] @ later_run) world0))
        (''blacklist:ip:'' @ ''203.0.113.9'') = None
   \<and> sec_reply (fst (serve (attack_run @ [(1400, attack_req)] @ later_run) world0)
        ! (length attack_run + 1 + 0)) \<noteq> Reply 403 ''IP_BLACKLISTED''
   \<and> sec_reply (fst (serve (attack_run @ [(1400, attack_req)] @ later_run) world0)
        ! (length attack_run + 1 + 1)) \<noteq> Reply 403 ''IP_BLACKLISTED''
   \<and> sec_reply (fst (serve (attack_run @ [(1400, attack_req)] @ later_run) world0)
        ! (length attack_run + 1 + 3)) \<noteq> Reply 403 ''IP_BLACKLISTED''"
proof -
  let ?ip = "''203.0.113.9''"
  have h: "healthy world0" by (simp add: healthy_def world0_def)
  have dK: "dead_from world0 (''blacklist:ip:'' @ ?ip) 1000"
    by (simp add: dead_from_def world0_def)
  have dS: "dead_from world0 (''suspicious:'' @ ?ip) 1000"
    by (simp add: dead_from_def world0_def)
  have times: "\<forall>(t, r) \<in> set (attack_run @ [(1400, attack_req)]). 1000 \<le> t \<and> t < 1000 + 3600"
    by (simp add: attack_run_def)
  have four: "length (detections ?ip attack_run) = 4"
    by (simp add: attack_run_def detections_def sample_ips attack_req_fires plain_req_quiet)
  have after: "\<forall>(t, r) \<in> set later_run. 1400 \<le> t"
    by (simp add: later_run_def)
  have k0: "kv world0 (''blacklist:ip:'' @ ?ip) = None" by (simp add: world0_def)
  note c = C4_escalation_throws_and_never_blacklists
    [OF h dK dS times four sample_ips(1) attack_req_fires after]
  have a0: "snd (attack_run ! 0) = attack_req" "0 < length attack_run"
    by (simp_all add: attack_run_def)
  have l0: "snd (later_run ! 0) = plain_req" and l1: "snd (later_run ! 1) = attack_req"
    and l3: "snd (later_run ! 3) = attack_req" and ll: "length later_run = 4"
    by (simp_all add: later_run_def)
  have f0: "fst (serve (attack_run @ [(1400, attack_req)] @ later_run) world0) ! 0
       = answer 400 ''INVALID_REQUEST'' attack_req"
    using c [THEN conjunct1, rule_format, of 0] a0 sample_ips(1) attack_req_fires by simp
  note c5 = c [THEN conjunct2, THEN conjunct1]
  have c6: "kv (snd (serve (attack_run @ [(1400, attack_req)]) world0)) (''blacklist:ip:'' @ ?ip)
       = None"
    using c [THEN conjunct2, THEN conjunct2, THEN conjunct1] k0 by simp
  have c7: "kv (snd (serve (attack_run @ [(1400, attack_req)] @ later_run) world0))
        (''blacklist:ip:'' @ ?ip) = None"
    using c [THEN conjunct2, THEN conjunct2, THEN conjunct2, THEN conjunct1] k0 by simp
  note c8 = c [THEN conjunct2, THEN conjunct2, THEN conjunct2, THEN conjunct2, rule_format]
  have b0: "sec_reply (fst (serve (attack_run @ [(1400, attack_req)] @ later_run) world0)
        ! (length attack_run + 1 + 0)) \<noteq> Reply 403 ''IP_BLACKLISTED''"
    using c8 [of 0] ll l0 sample_ips by simp
  have b1: "sec_reply (fst (serve (attack_run @ [(1400, attack_req)] @ later_run) world0)
        ! (length attack_run + 1 + 1)) \<noteq> Reply 403 ''IP_BLACKLISTED''"
    using c8 [of 1] ll l1 sample_ips by simp
  have b3: "sec_reply (fst (serve (attack_run @ [(1400, attack_req)] @ later_run) world0)
        ! (length attack_run + 1 + 3)) \<noteq> Reply 403 ''IP_BLACKLISTED''"
    using c8 [of 3] ll l3 sample_ips by simp
  show ?thesis
    by (intro conjI h dK dS four sample_ips(1) attack_req_fires f0 c5 c6 c7 b0 b1 b3)
qed

section \<open>Properties: the limiter of sensitive endpoints\<close>





section \<open>Properties: the login route\<close>



lemma login_unknown_email:
  assumes "findByEmail svc (li_email inp) = Inr None"
  shows "fst (login svc cfg inp w) = failure 401 ''INVALID_CREDENTIALS''"
  using assms by (simp add: login_def)


section \<open>Properties: the login scenario\<close>














end
